(* ===== verification/Prelude.thy ===== *)
theory Prelude
  imports Main "HOL-Library.Sublist"
begin

text \<open>
  What the components share: the Go values that have no direct HOL counterpart
  (64-bit signed durations, calls that may panic, slices read from a map, the order in
  which a \<^verbatim>\<open>range\<close> over a map visits the keys), the generic invariant interface of the
  state machines, and the collections of rewrite rules the component proofs use.
\<close>

text \<open>
  Two collections: what the calls of a middleware do to the answer and to the headers
  (\<open>middleware_calls\<close>), and which parts of the server an operation leaves alone
  (\<open>server_frame\<close>).
\<close>

named_theorems middleware_calls
named_theorems server_frame

subsection \<open>Signed 64-bit values\<close>

text \<open>
  \<^verbatim>\<open>time.Time\<close> is a count of nanoseconds and \<^verbatim>\<open>time.Duration\<close> an \<^verbatim>\<open>int64\<close> of
  nanoseconds.  Arithmetic on a duration wraps; \<^verbatim>\<open>Time.Sub\<close> saturates.
\<close>

type_synonym gotime = int
type_synonym duration = int

definition wrap64 :: "int \<Rightarrow> int" where
  "wrap64 x = (x + 2 ^ 63) mod 2 ^ 64 - 2 ^ 63"

definition saturate64 :: "int \<Rightarrow> int" where
  "saturate64 x = max (- (2 ^ 63)) (min (2 ^ 63 - 1) x)"

definition time_sub :: "gotime \<Rightarrow> gotime \<Rightarrow> duration" where
  "time_sub a b = saturate64 (a - b)"

definition in_int64 :: "int \<Rightarrow> bool" where
  "in_int64 x \<longleftrightarrow> - (2 ^ 63) \<le> x \<and> x < 2 ^ 63"

definition second :: duration where
  "second = 1000000000"

definition minute :: duration where
  "minute = 60 * second"

text \<open>Go's integer division truncates towards zero.\<close>

definition quot_int :: "int \<Rightarrow> int \<Rightarrow> int" where
  "quot_int a b = sgn a * sgn b * (\<bar>a\<bar> div \<bar>b\<bar>)"

lemma wrap64_id: "in_int64 x \<Longrightarrow> wrap64 x = x"
  by (simp add: wrap64_def in_int64_def)

lemma wrap64_range: "in_int64 (wrap64 x)"
proof -
  have "0 \<le> (x + 2 ^ 63) mod 2 ^ 64" and "(x + 2 ^ 63) mod 2 ^ 64 < 2 ^ 64"
    by simp_all
  then show ?thesis by (simp add: wrap64_def in_int64_def)
qed

lemma saturate64_id: "in_int64 x \<Longrightarrow> saturate64 x = x"
  by (simp add: saturate64_def in_int64_def)

lemma saturate64_gt: "in_int64 d \<Longrightarrow> d < saturate64 x \<longleftrightarrow> d < x \<and> d < 2 ^ 63 - 1"
  by (auto simp: saturate64_def in_int64_def)

lemma quot_int_nonneg: "0 \<le> a \<Longrightarrow> 0 < b \<Longrightarrow> quot_int a b = a div b"
  by (cases "a = 0") (simp_all add: quot_int_def)

subsection \<open>Calls that may panic\<close>

text \<open>
  An index or a slice expression out of range panics.  Operations of the source that
  contain one return an \<open>outcome\<close>, so that not panicking is a theorem.
\<close>

datatype 'a outcome = Ret 'a | Panic

fun bind_outcome :: "'a outcome \<Rightarrow> ('a \<Rightarrow> 'b outcome) \<Rightarrow> 'b outcome" where
  "bind_outcome Panic f = Panic"
| "bind_outcome (Ret x) f = f x"

subsection \<open>Maps\<close>

text \<open>
  \<open>get_slice m k\<close> is \<^verbatim>\<open>m[k]\<close> for a map of slices, where an absent key reads as the nil slice.
  \<open>range_order ks m\<close> says that \<open>ks\<close> is an order in which \<^verbatim>\<open>range m\<close> may visit the keys:
  Go leaves it open, so every theorem about a loop over a map quantifies over it.
\<close>

definition get_slice :: "('k \<rightharpoonup> 'v list) \<Rightarrow> 'k \<Rightarrow> 'v list" where
  "get_slice m k = (case m k of None \<Rightarrow> [] | Some xs \<Rightarrow> xs)"

definition range_order :: "'k list \<Rightarrow> ('k \<rightharpoonup> 'v) \<Rightarrow> bool" where
  "range_order ks m \<longleftrightarrow> distinct ks \<and> set ks = dom m"

lemma get_slice_None [simp]: "m k = None \<Longrightarrow> get_slice m k = []"
  by (simp add: get_slice_def)

lemma get_slice_Some [simp]: "m k = Some xs \<Longrightarrow> get_slice m k = xs"
  by (simp add: get_slice_def)

lemma get_slice_upd: "get_slice (m(k \<mapsto> v)) j = (if j = k then v else get_slice m j)"
  by (simp add: get_slice_def)

lemma get_slice_del: "get_slice (m(k := None)) j = (if j = k then [] else get_slice m j)"
  by (simp add: get_slice_def)

lemma get_slice_notin: "x \<in> set (get_slice m k) \<Longrightarrow> \<exists>xs. m k = Some xs \<and> x \<in> set xs"
  by (cases "m k") auto

lemmas get_slice_simps = get_slice_upd get_slice_del

lemma range_order_mem: "range_order ks m \<Longrightarrow> k \<in> set ks \<longleftrightarrow> (\<exists>v. m k = Some v)"
  by (auto simp: range_order_def dom_def)

lemma range_order_someD: "range_order ks m \<Longrightarrow> m k = Some v \<Longrightarrow> k \<in> set ks"
  by (auto simp: range_order_def)

lemma range_order_empty: "range_order [] Map.empty"
  by (simp add: range_order_def)

subsection \<open>Invariants of state machines\<close>

text \<open>
  The interface every stateful component offers: a step relation and a predicate that
  every step keeps.  A client may then rely on the predicate after any run.
\<close>

locale invariant_system =
  fixes step :: "'s \<Rightarrow> 's \<Rightarrow> bool"
    and inv :: "'s \<Rightarrow> bool"
  assumes step_keeps: "step s t \<Longrightarrow> inv s \<Longrightarrow> inv t"
begin

lemma run_keeps: "step\<^sup>*\<^sup>* s t \<Longrightarrow> inv s \<Longrightarrow> inv t"
  by (induction rule: rtranclp_induct) (auto intro: step_keeps)

end

text \<open>
  A component with a specification: besides the invariant, every step is matched by a step
  of an abstract machine on the abstracted states, hence so is every run.
\<close>

locale simulation = invariant_system step inv
  for step :: "'s \<Rightarrow> 's \<Rightarrow> bool" and inv :: "'s \<Rightarrow> bool" +
  fixes abs :: "'s \<Rightarrow> 'a"
    and astep :: "'a \<Rightarrow> 'a \<Rightarrow> bool"
  assumes step_simulates: "step s t \<Longrightarrow> inv s \<Longrightarrow> astep (abs s) (abs t)"
begin

lemma run_simulates: "step\<^sup>*\<^sup>* s t \<Longrightarrow> inv s \<Longrightarrow> astep\<^sup>*\<^sup>* (abs s) (abs t)"
proof (induction rule: rtranclp_induct)
  case (step t u)
  then have "astep (abs t) (abs u)" by (blast intro: step_simulates run_keeps)
  with step show ?case by (meson rtranclp.rtrancl_into_rtrancl)
qed simp

end

end
