(* ===== verification/Domain.thy ===== *)
theory Domain
  imports Go_Strings
begin

text \<open>
  The data of \<^verbatim>\<open>internal/domain\<close>: routes and their keys, service instances, registration
  requests with their validation, and the errors of the registry.
\<close>

subsection \<open>Routes\<close>

record route =
  Method :: string
  Path :: string
  Public :: bool
  RateLimit :: int
  Scopes :: "string list"

definition FullPath :: "route \<Rightarrow> string \<Rightarrow> string" where
  "FullPath r basePath =
     (if basePath = [] then Path r
      else if Path r = [] then basePath
      else basePath @ Path r)"

definition Key :: "route \<Rightarrow> string \<Rightarrow> string" where
  "Key r basePath = Method r @ '':'' @ FullPath r basePath"

record route_entry =
  re_ServiceName :: string
  re_BasePath :: string
  re_Route :: route
  re_RegisteredAt :: gotime

lemma FullPath_append: "FullPath r basePath = basePath @ Path r"
  by (simp add: FullPath_def)

text \<open>A key splits back into its method and path, as the readers of the route table do it.\<close>

lemma SplitN2_Key:
  "CHR '':'' \<notin> set (Method r) \<Longrightarrow> SplitN2 (CHR '':'') (Key r b) = [Method r, FullPath r b]"
  by (simp add: Key_def SplitN2_key)

lemma key_inject:
  assumes "CHR '':'' \<notin> set m" and "CHR '':'' \<notin> set m'"
  shows "m @ '':'' @ p = m' @ '':'' @ p' \<longleftrightarrow> m = m' \<and> p = p'"
proof
  assume "m @ '':'' @ p = m' @ '':'' @ p'"
  then have "SplitN2 (CHR '':'') (m @ CHR '':'' # p) = SplitN2 (CHR '':'') (m' @ CHR '':'' # p')"
    by simp
  with assms show "m = m' \<and> p = p'" by (simp add: SplitN2_key)
qed simp

subsection \<open>Service instances\<close>

datatype service_status = StatusHealthy | StatusUnhealthy | StatusUnknown

record service_instance =
  si_ID :: string
  si_ServiceName :: string
  si_Host :: string
  si_Port :: int
  si_HealthURL :: string
  si_Version :: string
  si_Status :: service_status
  si_Weight :: int
  si_Metadata :: "string \<rightharpoonup> string"
  si_RegisteredAt :: gotime
  si_LastHeartbeat :: gotime

definition Address :: "service_instance \<Rightarrow> string" where
  "Address i = si_Host i @ '':'' @ Itoa (si_Port i)"

definition IsHealthy :: "service_instance \<Rightarrow> bool" where
  "IsHealthy i \<longleftrightarrow> si_Status i = StatusHealthy"

text \<open>
  The port of an address is what follows its last colon, whatever the host contains
  (an IPv6 host has colons of its own).
\<close>

lemma Address_inject:
  "Address i = Address j \<longleftrightarrow> si_Host i = si_Host j \<and> si_Port i = si_Port j"
proof
  assume eq: "Address i = Address j"
  define p q where "p = rev (Itoa (si_Port i))" and "q = rev (Itoa (si_Port j))"
  have clean: "CHR '':'' \<notin> set p" "CHR '':'' \<notin> set q"
    by (simp_all add: p_def q_def Itoa_no_colon)
  from eq have "rev (Address i) = rev (Address j)" by simp
  then have "p @ CHR '':'' # rev (si_Host i) = q @ CHR '':'' # rev (si_Host j)"
    by (simp add: Address_def p_def q_def)
  then have "p = q \<and> rev (si_Host i) = rev (si_Host j)"
    using SplitN2_key [OF clean(1)] SplitN2_key [OF clean(2)] by (metis list.inject)
  then show "si_Host i = si_Host j \<and> si_Port i = si_Port j"
    by (simp add: p_def q_def Itoa_inj)
qed (simp add: Address_def)

subsection \<open>Registration requests\<close>

record register_request =
  rr_ServiceName :: string
  rr_Host :: string
  rr_Port :: int
  rr_HealthURL :: string
  rr_Version :: string
  rr_BasePath :: string
  rr_Routes :: "route list"
  rr_Metadata :: "string \<rightharpoonup> string"

record register_response =
  InstanceID :: string
  HeartbeatInterval :: int
  HeartbeatURL :: string
  RegisteredRoutes :: "string list"

text \<open>
  \<^verbatim>\<open>Validate\<close> has a pointer receiver: besides its error it fills in the default health URL,
  which is the returned request.
\<close>

definition Validate :: "register_request \<Rightarrow> string + register_request" where
  "Validate r =
     (if rr_ServiceName r = [] then Inl ''service_name is required''
      else if rr_Host r = [] then Inl ''host is required''
      else if rr_Port r \<le> 0 \<or> rr_Port r > 65535 then Inl ''port must be between 1 and 65535''
      else if rr_BasePath r = [] then Inl ''base_path is required''
      else if length (rr_Routes r) = 0 then Inl ''at least one route is required''
      else if rr_HealthURL r = [] then Inr (r\<lparr>rr_HealthURL := ''/health''\<rparr>)
      else Inr r)"

definition valid_request :: "register_request \<Rightarrow> bool" where
  "valid_request r \<longleftrightarrow>
     rr_ServiceName r \<noteq> [] \<and> rr_Host r \<noteq> [] \<and> 1 \<le> rr_Port r \<and> rr_Port r \<le> 65535 \<and>
     rr_BasePath r \<noteq> [] \<and> rr_Routes r \<noteq> []"

lemma Validate_Inr:
  "Validate r = Inr r' \<Longrightarrow>
     valid_request r \<and> valid_request r' \<and> rr_HealthURL r' \<noteq> [] \<and>
     r' = r\<lparr>rr_HealthURL := (if rr_HealthURL r = [] then ''/health'' else rr_HealthURL r)\<rparr>"
  by (auto simp: Validate_def valid_request_def split: if_splits)

lemma Validate_accepts: "valid_request r \<Longrightarrow> \<exists>r'. Validate r = Inr r'"
  by (simp add: Validate_def valid_request_def)

lemma Validate_frame:
  assumes "Validate r = Inr r'"
  shows "rr_ServiceName r' = rr_ServiceName r" "rr_BasePath r' = rr_BasePath r"
    "rr_Routes r' = rr_Routes r" "rr_Host r' = rr_Host r" "rr_Port r' = rr_Port r"
  using Validate_Inr [OF assms] by auto

subsection \<open>Errors\<close>

datatype collision_type = ExactCollision | PatternCollision

fun collision_type_text :: "collision_type \<Rightarrow> string" where
  "collision_type_text ExactCollision = ''exact''"
| "collision_type_text PatternCollision = ''pattern''"

record route_collision =
  rc_Method :: string
  rc_Path :: string
  rc_CollisionType :: collision_type
  rc_RegisteredBy :: string
  rc_RegisteredAt :: gotime

definition CollisionError_Error :: "route_collision list \<Rightarrow> string" where
  "CollisionError_Error cs =
     ''route collisions detected: '' @
     Join ''; '' (map (\<lambda>c. rc_Method c @ '' '' @ rc_Path c @ '' conflicts with '' @
       rc_RegisteredBy c @ '' ('' @ collision_type_text (rc_CollisionType c) @ '')'') cs)"

datatype domain_error =
    ErrServiceNotFound
  | ErrInstanceNotFound
  | ErrRouteNotFound
  | ErrInvalidRequest

datatype register_error =
    ValidationError string
  | CollisionError "route_collision list"

end
