(* ===== verification/Paths.thy ===== *)
theory Paths
  imports Domain
begin

text \<open>
  Path patterns as the collision check of \<^verbatim>\<open>internal/application/collision.go\<close> reads them:
  \<open>normalizePath\<close> replaces every parameter by a star, \<open>pathsOverlap\<close> compares two
  normalised patterns segment by segment.
\<close>

subsection \<open>Normalisation\<close>

text \<open>
  \<^verbatim>\<open>paramPattern\<close> is \<^verbatim>\<open>:[^/]+|\{[^}]+\}\<close> and \<^verbatim>\<open>ReplaceAllString\<close> scans from the left: a colon
  takes the longest non-empty run without a slash, a brace takes a non-empty run up to the
  next closing brace (slashes included) or does not match at all.
\<close>

function normalizePath :: "string \<Rightarrow> string" where
  "normalizePath [] = []"
| "normalizePath (c # cs) =
     (if c = CHR '':'' \<and> takeWhile (\<lambda>x. x \<noteq> CHR ''/'') cs \<noteq> []
      then CHR ''*'' # normalizePath (dropWhile (\<lambda>x. x \<noteq> CHR ''/'') cs)
      else if c = CHR ''{'' \<and> takeWhile (\<lambda>x. x \<noteq> CHR ''}'') cs \<noteq> [] \<and>
              dropWhile (\<lambda>x. x \<noteq> CHR ''}'') cs \<noteq> []
      then CHR ''*'' # normalizePath (tl (dropWhile (\<lambda>x. x \<noteq> CHR ''}'') cs))
      else c # normalizePath cs)"
  by pat_completeness auto
termination
  by (relation "measure length")
     (auto simp: less_Suc_eq_le length_dropWhile_le intro: le_trans [OF diff_le_self])

declare normalizePath.simps(2) [simp del]

lemma normalizePath_plain:
  "c \<noteq> CHR '':'' \<Longrightarrow> c \<noteq> CHR ''{'' \<Longrightarrow> normalizePath (c # cs) = c # normalizePath cs"
  by (simp add: normalizePath.simps(2))

lemma normalizePath_no_param:
  "CHR '':'' \<notin> set s \<Longrightarrow> CHR ''{'' \<notin> set s \<Longrightarrow> normalizePath s = s"
  by (induction s) (auto simp: normalizePath_plain)

lemma normalizePath_param:
  "s \<noteq> [] \<Longrightarrow> CHR ''/'' \<notin> set s \<Longrightarrow> normalizePath (CHR '':'' # s) = ''*''"
proof -
  assume ne: "s \<noteq> []" and noslash: "CHR ''/'' \<notin> set s"
  from noslash have tw: "takeWhile (\<lambda>x. x \<noteq> CHR ''/'') s = s"
    and dw: "dropWhile (\<lambda>x. x \<noteq> CHR ''/'') s = []"
    by (auto simp: takeWhile_eq_all_conv dropWhile_eq_Nil_conv)
  from ne show ?thesis by (simp add: normalizePath.simps(2) tw dw)
qed

text \<open>A slash always ends a colon parameter, so without braces it splits the work in two.\<close>

lemma takeWhile_before_slash:
  "takeWhile (\<lambda>x. x \<noteq> c) (s @ c # t) = takeWhile (\<lambda>x. x \<noteq> c) s"
  "dropWhile (\<lambda>x. x \<noteq> c) (s @ c # t) = dropWhile (\<lambda>x. x \<noteq> c) s @ c # t"
  by (induction s) auto

lemma brace_free_dropWhile:
  "CHR ''{'' \<notin> set cs \<Longrightarrow> CHR ''{'' \<notin> set (dropWhile P cs)"
  using set_dropWhileD by fastforce

lemma normalizePath_slash:
  "CHR ''{'' \<notin> set s \<Longrightarrow>
     normalizePath (s @ CHR ''/'' # t) = normalizePath s @ CHR ''/'' # normalizePath t"
proof (induction s rule: normalizePath.induct)
  case 1
  show ?case by (simp add: normalizePath_plain)
next
  case (2 c cs)
  show ?case
  proof (cases "c = CHR '':'' \<and> takeWhile (\<lambda>x. x \<noteq> CHR ''/'') cs \<noteq> []")
    case True
    with 2 show ?thesis
      by (simp add: normalizePath.simps(2) takeWhile_before_slash brace_free_dropWhile)
  next
    case False
    with 2 have step: "normalizePath (c # cs @ CHR ''/'' # t) = c # normalizePath (cs @ CHR ''/'' # t)"
      "normalizePath (c # cs) = c # normalizePath cs"
      by (auto simp: normalizePath.simps(2) takeWhile_before_slash)
    from False "2.prems" "2.IH"(3) have
      "normalizePath (cs @ CHR ''/'' # t) = normalizePath cs @ CHR ''/'' # normalizePath t"
      by auto
    with step show ?thesis by simp
  qed
qed

lemma normalizePath_slash_free:
  "CHR ''/'' \<notin> set s \<Longrightarrow> CHR ''/'' \<notin> set (normalizePath s)"
proof (induction s rule: normalizePath.induct)
  case (2 c cs)
  have "\<And>P. CHR ''/'' \<notin> set (tl (dropWhile P cs))"
    using "2.prems" set_dropWhileD by (metis list.sel(2) list.set_intros(2) list.set_sel(2))
  moreover have "\<And>P. CHR ''/'' \<notin> set (dropWhile P cs)"
    using "2.prems" set_dropWhileD by (metis list.set_intros(2))
  ultimately show ?case using 2 by (simp add: normalizePath.simps(2))
qed simp

text \<open>Normalisation works on each segment of a brace-free path by itself.\<close>

lemma Split_cases:
  obtains "c \<notin> set s" | a t where "s = a @ c # t" "c \<notin> set a" "length t < length s"
proof (cases "c \<in> set s")
  case True
  then obtain a t where "s = a @ c # t" "c \<notin> set a" by (blast dest: split_list_first)
  then show ?thesis using that(2) by simp
qed (use that in blast)

lemma Split_normalizePath:
  "CHR ''{'' \<notin> set s \<Longrightarrow>
     Split (CHR ''/'') (normalizePath s) = map normalizePath (Split (CHR ''/'') s)"
proof (induction s rule: length_induct)
  case (1 s)
  show ?case
  proof (cases rule: Split_cases [of "CHR ''/''" s])
    case 1
    then show ?thesis by (simp add: Split_no_sep normalizePath_slash_free)
  next
    case (2 a t)
    with "1.prems" "1.IH" have
      "Split (CHR ''/'') (normalizePath t) = map normalizePath (Split (CHR ''/'') t)"
      by auto
    with 2 "1.prems" show ?thesis
      by (simp add: normalizePath_slash Split_append_sep normalizePath_slash_free)
  qed
qed

subsection \<open>Trimming\<close>

lemma normalizePath_hd:
  "c \<noteq> CHR ''/'' \<Longrightarrow> \<exists>d ds. normalizePath (c # cs) = d # ds \<and> d \<noteq> CHR ''/''"
  by (simp add: normalizePath.simps(2))

lemma normalizePath_dropWhile_slash:
  "dropWhile (\<lambda>x. x = CHR ''/'') (normalizePath s) = normalizePath (dropWhile (\<lambda>x. x = CHR ''/'') s)"
proof (induction s)
  case (Cons c cs)
  show ?case
  proof (cases "c = CHR ''/''")
    case True
    with Cons show ?thesis by (simp add: normalizePath_plain)
  next
    case False
    then obtain d ds where "normalizePath (c # cs) = d # ds" "d \<noteq> CHR ''/''"
      using normalizePath_hd by blast
    with False show ?thesis by simp
  qed
qed simp

lemma normalizePath_last:
  "s \<noteq> [] \<Longrightarrow> CHR ''{'' \<notin> set s \<Longrightarrow> last s \<noteq> CHR ''/'' \<Longrightarrow>
     normalizePath s \<noteq> [] \<and> last (normalizePath s) \<noteq> CHR ''/''"
proof (induction s rule: normalizePath.induct)
  case (2 c cs)
  show ?case
  proof (cases "c = CHR '':'' \<and> takeWhile (\<lambda>x. x \<noteq> CHR ''/'') cs \<noteq> []")
    case True
    define rest where "rest = dropWhile (\<lambda>x. x \<noteq> CHR ''/'') cs"
    have lst: "rest \<noteq> [] \<Longrightarrow> last rest = last (c # cs)"
      unfolding rest_def
      by (metis last_ConsR last_appendR takeWhile_dropWhile_id append_is_Nil_conv)
    from True have eq: "normalizePath (c # cs) = CHR ''*'' # normalizePath rest"
      by (simp add: normalizePath.simps(2) rest_def)
    have free: "CHR ''{'' \<notin> set rest"
      using "2.prems"(2) by (simp add: rest_def brace_free_dropWhile)
    from "2.IH"(1) [OF True] free lst "2.prems"(3)
    have "rest \<noteq> [] \<Longrightarrow> normalizePath rest \<noteq> [] \<and> last (normalizePath rest) \<noteq> CHR ''/''"
      by (simp add: rest_def)
    then show ?thesis by (cases "rest = []") (simp_all add: eq)
  next
    case False
    with 2 show ?thesis by (cases "cs = []") (auto simp: normalizePath.simps(2))
  qed
qed simp

lemma normalizePath_rstrip:
  "CHR ''{'' \<notin> set s \<Longrightarrow>
     rev (dropWhile (\<lambda>x. x = CHR ''/'') (rev (normalizePath s))) =
     normalizePath (rev (dropWhile (\<lambda>x. x = CHR ''/'') (rev s)))"
proof (induction s rule: rev_induct)
  case (snoc c s)
  show ?case
  proof (cases "c = CHR ''/''")
    case True
    with snoc show ?thesis using normalizePath_slash [of s "[]"] by simp
  next
    case False
    with snoc.prems have "normalizePath (s @ [c]) \<noteq> [] \<and> last (normalizePath (s @ [c])) \<noteq> CHR ''/''"
      by (intro normalizePath_last) auto
    then obtain n d where "normalizePath (s @ [c]) = n @ [d]" "d \<noteq> CHR ''/''"
      by (metis append_butlast_last_id)
    with False show ?thesis by simp
  qed
qed simp

lemma Trim_normalizePath:
  "CHR ''{'' \<notin> set s \<Longrightarrow> Trim (CHR ''/'') (normalizePath s) = normalizePath (Trim (CHR ''/'') s)"
  by (simp add: Trim_def normalizePath_dropWhile_slash normalizePath_rstrip brace_free_dropWhile)

subsection \<open>Segments and overlap\<close>

definition path_segments :: "string \<Rightarrow> string list" where
  "path_segments p = Split (CHR ''/'') (Trim (CHR ''/'') p)"

fun segments_overlap :: "string list \<Rightarrow> string list \<Rightarrow> bool" where
  "segments_overlap (s1 # xs) (s2 # ys) =
     (if s1 = ''*'' \<or> s2 = ''*'' then segments_overlap xs ys
      else if s1 \<noteq> s2 then False
      else segments_overlap xs ys)"
| "segments_overlap _ _ = True"

definition pathsOverlap :: "string \<Rightarrow> string \<Rightarrow> bool" where
  "pathsOverlap path1 path2 =
     (if path1 = path2 then True
      else if length (path_segments path1) \<noteq> length (path_segments path2) then False
      else segments_overlap (path_segments path1) (path_segments path2))"

definition seg_compat :: "string \<Rightarrow> string \<Rightarrow> bool" where
  "seg_compat a b \<longleftrightarrow> a = ''*'' \<or> b = ''*'' \<or> a = b"

lemma segments_overlap_iff:
  "length xs = length ys \<Longrightarrow> segments_overlap xs ys \<longleftrightarrow> list_all2 seg_compat xs ys"
  by (induction xs ys rule: segments_overlap.induct) (auto simp: seg_compat_def)

text \<open>The early returns are short cuts: overlap is segmentwise compatibility.\<close>

lemma pathsOverlap_iff:
  "pathsOverlap p q \<longleftrightarrow> list_all2 seg_compat (path_segments p) (path_segments q)"
  by (auto simp: pathsOverlap_def segments_overlap_iff seg_compat_def
      intro: list_all2_refl dest: list_all2_lengthD)

lemma pathsOverlap_sym: "pathsOverlap p q \<longleftrightarrow> pathsOverlap q p"
proof -
  have "seg_compat\<inverse>\<inverse> = seg_compat" by (auto simp: fun_eq_iff seg_compat_def)
  then show ?thesis using list.rel_flip [of seg_compat] by (metis pathsOverlap_iff conversep_iff)
qed

lemma path_segments_nonempty [simp]: "path_segments p \<noteq> []"
  by (simp add: path_segments_def)

lemma path_segments_slash_free: "s \<in> set (path_segments p) \<Longrightarrow> CHR ''/'' \<notin> set s"
  by (auto simp: path_segments_def dest: Split_segments)

lemma set_Trim: "x \<in> set (Trim c s) \<Longrightarrow> x \<in> set s"
  by (metis Trim_def set_dropWhileD set_rev)

lemma path_segments_normalizePath:
  "CHR ''{'' \<notin> set p \<Longrightarrow> path_segments (normalizePath p) = map normalizePath (path_segments p)"
  using set_Trim [of "CHR ''{''" "CHR ''/''" p] Split_normalizePath [of "Trim (CHR ''/'') p"]
  by (simp add: path_segments_def Trim_normalizePath) blast

end
