(* ===== verification/Float64.thy ===== *)
theory Float64
  imports Prelude Complex_Main
begin

text \<open>
  The 64-bit floats the program computes with: rounding to 53 binary digits, to nearest and
  ties to even, on the range where neither overflow nor subnormal numbers occur.  \<open>int_Seconds\<close>
  is Go's \<^verbatim>\<open>int(d.Seconds())\<close>.
\<close>

subsection \<open>Rounding\<close>

fun bit_length :: "nat \<Rightarrow> nat" where
  "bit_length n = (if n = 0 then 0 else Suc (bit_length (n div 2)))"

declare bit_length.simps [simp del]

text \<open>The exponent of a positive number: the greatest \<open>e\<close> with \<open>2\<^sup>e \<le> a\<close>.\<close>

definition float_exponent :: "rat \<Rightarrow> int" where
  "float_exponent a =
     (let (p, q) = quotient_of a; k = int (bit_length (nat p)) - int (bit_length (nat q))
      in if 2 powi k \<le> a then k else k - 1)"

definition round_even :: "rat \<Rightarrow> int" where
  "round_even x =
     (let n = \<lfloor>x\<rfloor>; r = x - of_int n in if r > 1 / 2 \<or> (r = 1 / 2 \<and> odd n) then n + 1 else n)"

definition float64 :: "rat \<Rightarrow> rat" where
  "float64 x =
     (if x = 0 then 0
      else (let u = 2 powi (float_exponent \<bar>x\<bar> - 52) in sgn x * of_int (round_even (\<bar>x\<bar> / u)) * u))"

lemma float64_0 [simp]: "float64 0 = 0"
  by (simp add: float64_def)

text \<open>\<^verbatim>\<open>Seconds\<close> adds the whole seconds and the nanoseconds over \<^verbatim>\<open>1e9\<close>, each rounded.\<close>

definition Seconds :: "duration \<Rightarrow> rat" where
  "Seconds d =
     (let sec = quot_int d second; nsec = d - sec * second
      in float64 (float64 (of_int sec) + float64 (float64 (of_int nsec) / 10 ^ 9)))"

definition int_Seconds :: "duration \<Rightarrow> int" where
  "int_Seconds d = (let s = Seconds d in if s < 0 then - \<lfloor>- s\<rfloor> else \<lfloor>s\<rfloor>)"

subsection \<open>Bounds\<close>

lemma bit_length_bounds: "n < 2 ^ bit_length n" "0 < n \<Longrightarrow> 2 ^ bit_length n \<le> 2 * n"
proof (induction n rule: bit_length.induct)
  case (1 n)
  { case 1
    show ?case
    proof (cases "n = 0")
      case False
      then have "n div 2 < 2 ^ bit_length (n div 2)" using "1.IH"(1) by simp
      then have "n < 2 * 2 ^ bit_length (n div 2)" by linarith
      with False show ?thesis by (simp add: bit_length.simps [of n])
    qed (simp add: bit_length.simps [of n]) }
  { case 2
    show ?case
    proof (cases "n = 1")
      case True
      then show ?thesis by (simp add: bit_length.simps [of "Suc 0"] bit_length.simps [of 0])
    next
      case False
      with 2 have "0 < n div 2" by simp
      with "1.IH"(2) 2 have "2 ^ bit_length (n div 2) \<le> 2 * (n div 2)" by simp
      also have "\<dots> \<le> n" by simp
      finally show ?thesis using 2 by (simp add: bit_length.simps [of n])
    qed }
qed

lemma float_exponent_le: "0 < a \<Longrightarrow> 2 powi float_exponent a \<le> a"
proof -
  assume a: "0 < a"
  obtain p q where pq: "quotient_of a = (p, q)" by fastforce
  have q: "0 < q" and div: "a = of_int p / of_int q"
    using quotient_of_denom_pos [OF pq] quotient_of_div [OF pq] by simp_all
  with a have p: "0 < p" by (simp add: zero_less_divide_iff)
  let ?bp = "bit_length (nat p)" and ?bq = "bit_length (nat q)"
  have bp: "(2 :: rat) ^ ?bp \<le> 2 * of_int p"
  proof -
    have "(of_nat (2 ^ ?bp) :: rat) \<le> of_nat (2 * nat p)"
      using bit_length_bounds(2) [of "nat p"] p by (simp only: of_nat_le_iff zero_less_nat_eq)
    with p show ?thesis by simp
  qed
  have bq: "of_int q \<le> (2 :: rat) ^ ?bq"
  proof -
    have "(of_nat (nat q) :: rat) \<le> of_nat (2 ^ ?bq)"
      using bit_length_bounds(1) [of "nat q"] by (simp only: of_nat_le_iff less_imp_le)
    with q show ?thesis by simp
  qed
  let ?k = "int ?bp - int ?bq"
  have "(2 :: rat) powi (?k - 1) = 2 ^ ?bp / 2 ^ ?bq / 2" by (simp add: power_int_diff)
  also have "\<dots> \<le> 2 * of_int p / of_int q / 2"
    using bp bq q p by (intro divide_right_mono frac_le) simp_all
  also have "\<dots> = a" by (simp add: div)
  finally show ?thesis by (simp add: float_exponent_def pq Let_def)
qed

lemma round_even_int [simp]: "round_even (of_int n) = n"
  by (simp add: round_even_def)

lemma round_even_le: "of_int (round_even x) \<le> x + 1 / 2"
  unfolding round_even_def Let_def by (auto simp: of_int_floor_le) linarith+

lemma round_even_nonneg: "0 \<le> x \<Longrightarrow> 0 \<le> round_even x"
  by (simp add: round_even_def Let_def)

lemma float64_nonneg: "0 \<le> x \<Longrightarrow> 0 \<le> float64 x"
  by (simp add: float64_def Let_def round_even_nonneg)

text \<open>Integers of at most 53 digits are exact; below one the error is at most \<open>2\<^sup>-\<^sup>5\<^sup>4\<close>.\<close>

lemma float64_of_int_exact: "0 \<le> n \<Longrightarrow> n < 2 ^ 53 \<Longrightarrow> float64 (of_int n) = of_int n"
proof (cases "n = 0")
  case False
  assume n: "0 \<le> n" "n < 2 ^ 53"
  let ?e = "float_exponent (of_int n)"
  have "(2 :: rat) powi ?e \<le> of_int n" using False n by (intro float_exponent_le) simp
  also have "(of_int n :: rat) < of_int (2 ^ 53)" using n(2) by (simp only: of_int_less_iff)
  also have "\<dots> = 2 powi 53" by (simp add: power_int_def)
  finally have "(2 :: rat) powi ?e < 2 powi 53" .
  then have "?e < 53" using power_int_increasing [of 53 ?e "2 :: rat"] by linarith
  then have u: "(2 :: rat) powi (?e - 52) = 1 / of_int (2 ^ nat (52 - ?e))"
    by (auto simp: power_int_def inverse_eq_divide power_one_over)
  then have "of_int n / (2 :: rat) powi (?e - 52) = of_int (n * 2 ^ nat (52 - ?e))" by simp
  then have "round_even (of_int n / 2 powi (?e - 52)) = n * 2 ^ nat (52 - ?e)" by (simp only: round_even_int)
  with False n show ?thesis by (simp add: float64_def Let_def u)
qed (simp add: float64_def)

lemma float64_below_1: "0 \<le> x \<Longrightarrow> x < 1 \<Longrightarrow> float64 x \<le> x + 1 / 2 ^ 54"
proof (cases "x = 0")
  case False
  assume x: "0 \<le> x" "x < 1"
  let ?e = "float_exponent x" and ?u = "(2 :: rat) powi (float_exponent x - 52)"
  have "(2 :: rat) powi ?e \<le> x" using False x by (intro float_exponent_le) simp
  also have "x < 2 powi 0" using x by simp
  finally have "(2 :: rat) powi ?e < 2 powi 0" .
  then have "?e < 0" using power_int_increasing [of 0 ?e "2 :: rat"] by linarith
  then have u: "?u \<le> 2 powi (- 53)" by (intro power_int_increasing) simp_all
  have pos: "0 < ?u" by simp
  have "of_int (round_even (x / ?u)) * ?u \<le> (x / ?u + 1 / 2) * ?u"
    using round_even_le pos by (intro mult_right_mono) simp_all
  also have "\<dots> = x + ?u / 2" using pos by (simp add: field_simps)
  finally have err: "of_int (round_even (x / ?u)) * ?u \<le> x + ?u / 2" .
  have "(2 :: rat) powi (- 53) = 1 / 2 ^ 53" by (simp add: power_int_minus inverse_eq_divide)
  then have "x + ?u / 2 \<le> x + 1 / 2 ^ 54" using u by simp
  with err show ?thesis using False x by (simp add: float64_def Let_def)
qed (simp add: float64_def)

subsection \<open>Whole seconds\<close>

lemma int_Seconds_whole: "0 \<le> d \<Longrightarrow> d < 2 ^ 62 \<Longrightarrow> second dvd d \<Longrightarrow> int_Seconds d = d div second"
proof -
  assume d: "0 \<le> d" "d < 2 ^ 62" "second dvd d"
  have q: "quot_int d second = d div second" using d(1) by (simp add: quot_int_nonneg second_def)
  have sec: "0 \<le> d div second" "d div second < 2 ^ 53"
    using d(1,2) by (simp_all add: second_def div_less_iff_less_mult pos_imp_zdiv_nonneg_iff)
  have "d - d div second * second = 0" using d(3) by simp
  then have "Seconds d = of_int (d div second)"
    using float64_of_int_exact [OF sec] unfolding Seconds_def q Let_def by simp
  then show ?thesis using sec(1) by (simp add: int_Seconds_def)
qed

lemma int_Seconds_small: "0 \<le> d \<Longrightarrow> d < second \<Longrightarrow> int_Seconds d = 0"
proof -
  assume d: "0 \<le> d" "d < second"
  have q: "quot_int d second = 0" using d by (simp add: quot_int_nonneg second_def)
  have exact: "float64 (of_int d) = of_int d" using d by (intro float64_of_int_exact) (simp_all add: second_def)
  define x :: rat where "x = of_int d / 10 ^ 9"
  have "d \<le> 999999999" using d(2) by (simp add: second_def)
  then have "(of_int d :: rat) \<le> of_int 999999999" by (simp only: of_int_le_iff)
  then have x: "0 \<le> x" "x \<le> 999999999 / 10 ^ 9" using d(1) by (simp_all add: x_def)
  then have "float64 x \<le> x + 1 / 2 ^ 54" by (intro float64_below_1) simp_all
  with x(2) have one: "float64 x < 1 - 1 / 2 ^ 50" by simp
  then have "float64 (float64 x) \<le> float64 x + 1 / 2 ^ 54"
    using float64_nonneg [OF x(1)] by (intro float64_below_1) simp_all
  with one have "float64 (float64 x) < 1" by simp
  moreover have "Seconds d = float64 (float64 x)"
    by (simp add: Seconds_def q exact Let_def x_def)
  moreover have "0 \<le> float64 (float64 x)" using x(1) by (intro float64_nonneg)
  ultimately show ?thesis by (simp add: int_Seconds_def floor_eq_iff)
qed

end
