(* ===== verification/Registry.thy ===== *)
theory Registry
  imports Paths Float64
begin

text \<open>
  The service registry of \<^verbatim>\<open>internal/application\<close>: its state, and its operations as state
  transformers.  Each operation is one critical section of the registry's mutex, except
  \<open>Register\<close>, which is two (a read-locked check, then a write-locked commit) and is
  therefore also given in its two halves.  What the code takes from its surroundings is an
  argument: the clock (\<open>now\<close>), the fresh UUID (\<open>newID\<close>), and the order in which each
  \<^verbatim>\<open>range\<close> over a map visits the keys (\<open>ks\<close>, or \<open>ord j\<close> for the \<open>j\<close>-th such loop).
\<close>

subsection \<open>State\<close>

record registry_config =
  HeartbeatTTL :: duration
  HealthCheckInterval :: duration
  AllowSameServiceOverwrite :: bool
  StrictPatternMatching :: bool

record registry =
  config :: registry_config
  instances :: "string \<rightharpoonup> service_instance"
  services :: "string \<rightharpoonup> string list"
  routes :: "string \<rightharpoonup> route_entry"
  stopped :: bool

definition NewRegistry :: "registry_config \<Rightarrow> registry" where
  "NewRegistry cfg =
     \<lparr>config = cfg, instances = Map.empty, services = Map.empty, routes = Map.empty, stopped = False\<rparr>"

text \<open>\<^verbatim>\<open>Stop\<close> closes the stop channel; closing it twice panics.\<close>

definition Stop :: "registry \<Rightarrow> registry outcome" where
  "Stop r = (if stopped r then Panic else Ret (r\<lparr>stopped := True\<rparr>))"

subsection \<open>Collisions\<close>

definition checkExactCollision :: "registry \<Rightarrow> string \<Rightarrow> string \<Rightarrow> string \<Rightarrow> route_collision option" where
  "checkExactCollision r serviceName method path =
     (case routes r (method @ '':'' @ path) of
        Some entry \<Rightarrow>
          if re_ServiceName entry = serviceName then None
          else Some \<lparr>rc_Method = method, rc_Path = path, rc_CollisionType = ExactCollision,
                     rc_RegisteredBy = re_ServiceName entry,
                     rc_RegisteredAt = re_RegisteredAt entry\<rparr>
      | None \<Rightarrow> None)"

primrec pattern_collision_loop ::
    "registry \<Rightarrow> string \<Rightarrow> string \<Rightarrow> string \<Rightarrow> string list \<Rightarrow> route_collision list" where
  "pattern_collision_loop r serviceName method path [] = []"
| "pattern_collision_loop r serviceName method path (key # ks) =
     (let rest = pattern_collision_loop r serviceName method path ks in
      case routes r key of
        None \<Rightarrow> rest
      | Some entry \<Rightarrow>
          if re_ServiceName entry = serviceName then rest
          else (case SplitN2 (CHR '':'') key of
                  [existingMethod, existingPath] \<Rightarrow>
                    if existingMethod \<noteq> method then rest
                    else if pathsOverlap (normalizePath path) (normalizePath existingPath)
                    then \<lparr>rc_Method = method, rc_Path = path, rc_CollisionType = PatternCollision,
                          rc_RegisteredBy = re_ServiceName entry,
                          rc_RegisteredAt = re_RegisteredAt entry\<rparr> # rest
                    else rest
                | _ \<Rightarrow> rest))"

definition checkPatternCollision ::
    "registry \<Rightarrow> string \<Rightarrow> string \<Rightarrow> string \<Rightarrow> string list \<Rightarrow> route_collision list" where
  "checkPatternCollision r serviceName method path ks =
     pattern_collision_loop r serviceName method path ks"

fun ValidateRoutes ::
    "registry \<Rightarrow> string \<Rightarrow> string \<Rightarrow> (nat \<Rightarrow> string list) \<Rightarrow> nat \<Rightarrow> route list \<Rightarrow> route_collision list" where
  "ValidateRoutes r serviceName basePath ord j [] = []"
| "ValidateRoutes r serviceName basePath ord j (rt # rts) =
     (let fullPath = FullPath rt basePath in
      case checkExactCollision r serviceName (Method rt) fullPath of
        Some collision \<Rightarrow> collision # ValidateRoutes r serviceName basePath ord (Suc j) rts
      | None \<Rightarrow>
          (if StrictPatternMatching (config r)
           then checkPatternCollision r serviceName (Method rt) fullPath (ord j) @
                ValidateRoutes r serviceName basePath ord (Suc j) rts
           else ValidateRoutes r serviceName basePath ord (Suc j) rts))"

subsection \<open>Registration\<close>

text \<open>The read-locked half: validation of the request and of its routes.\<close>

definition Register_check ::
    "registry \<Rightarrow> register_request \<Rightarrow> (nat \<Rightarrow> string list) \<Rightarrow> register_error + register_request" where
  "Register_check r req ord =
     (case Validate req of
        Inl msg \<Rightarrow> Inl (ValidationError msg)
      | Inr req' \<Rightarrow>
          (let collisions = ValidateRoutes r (rr_ServiceName req') (rr_BasePath req') ord 0 (rr_Routes req')
           in if length collisions > 0 then Inl (CollisionError collisions) else Inr req'))"

text \<open>The write-locked half: the instance, its entry in the service index, its routes.\<close>

definition new_instance :: "register_request \<Rightarrow> string \<Rightarrow> gotime \<Rightarrow> service_instance" where
  "new_instance req newID now =
     \<lparr>si_ID = newID, si_ServiceName = rr_ServiceName req, si_Host = rr_Host req,
      si_Port = rr_Port req, si_HealthURL = rr_HealthURL req, si_Version = rr_Version req,
      si_Status = StatusHealthy, si_Weight = 1, si_Metadata = rr_Metadata req,
      si_RegisteredAt = now, si_LastHeartbeat = now\<rparr>"

fun register_routes ::
    "register_request \<Rightarrow> gotime \<Rightarrow> route list \<Rightarrow> (string \<rightharpoonup> route_entry) \<Rightarrow> string list \<Rightarrow>
     (string \<rightharpoonup> route_entry) \<times> string list" where
  "register_routes req now [] rmap registered = (rmap, registered)"
| "register_routes req now (rt # rts) rmap registered =
     (let fullPath = FullPath rt (rr_BasePath req);
          key = Method rt @ '':'' @ fullPath
      in register_routes req now rts
           (rmap(key \<mapsto> \<lparr>re_ServiceName = rr_ServiceName req, re_BasePath = rr_BasePath req,
                         re_Route = rt, re_RegisteredAt = now\<rparr>))
           (registered @ [key]))"

definition Register_commit ::
    "registry \<Rightarrow> register_request \<Rightarrow> string \<Rightarrow> gotime \<Rightarrow> registry \<times> register_response" where
  "Register_commit r req newID now =
     (let inst = new_instance req newID now;
          svc = rr_ServiceName req;
          (rmap, registered) = register_routes req now (rr_Routes req) (routes r) []
      in (r\<lparr>instances := (instances r)(newID \<mapsto> inst),
            services := (services r)(svc \<mapsto> get_slice (services r) svc @ [newID]),
            routes := rmap\<rparr>,
          \<lparr>InstanceID = newID,
           HeartbeatInterval = int_Seconds (HeartbeatTTL (config r)),
           HeartbeatURL = ''/internal/registry/heartbeat'',
           RegisteredRoutes = registered\<rparr>))"

definition Register ::
    "registry \<Rightarrow> register_request \<Rightarrow> (nat \<Rightarrow> string list) \<Rightarrow> string \<Rightarrow> gotime \<Rightarrow>
     registry \<times> (register_error + register_response)" where
  "Register r req ord newID now =
     (case Register_check r req ord of
        Inl e \<Rightarrow> (r, Inl e)
      | Inr req' \<Rightarrow> (let (r', resp) = Register_commit r req' newID now in (r', Inr resp)))"

subsection \<open>Removal\<close>

text \<open>
  The search loop \<^verbatim>\<open>for i, id := range instanceIDs\<close> and the re-slicing
  \<^verbatim>\<open>append(instanceIDs[:i], instanceIDs[i+1:]...)\<close> it performs at the first hit.
\<close>

fun find_id :: "string \<Rightarrow> string list \<Rightarrow> nat \<Rightarrow> nat option" where
  "find_id instanceID [] i = None"
| "find_id instanceID (x # xs) i = (if x = instanceID then Some i else find_id instanceID xs (Suc i))"

definition unindex :: "string \<Rightarrow> string \<Rightarrow> (string \<rightharpoonup> string list) \<Rightarrow> (string \<rightharpoonup> string list)" where
  "unindex svc instanceID smap =
     (let ids = get_slice smap svc in
      case find_id instanceID ids 0 of
        None \<Rightarrow> smap
      | Some i \<Rightarrow> smap(svc \<mapsto> take i ids @ drop (i + 1) ids))"

text \<open>The deletion loop over the routes; a key no longer present is not visited.\<close>

primrec drop_routes_loop ::
    "string \<Rightarrow> string list \<Rightarrow> (string \<rightharpoonup> route_entry) \<Rightarrow> (string \<rightharpoonup> route_entry)" where
  "drop_routes_loop svc [] rmap = rmap"
| "drop_routes_loop svc (key # ks) rmap =
     drop_routes_loop svc ks
       (case rmap key of
          None \<Rightarrow> rmap
        | Some entry \<Rightarrow> if re_ServiceName entry = svc then rmap(key := None) else rmap)"

definition Deregister :: "registry \<Rightarrow> string \<Rightarrow> string list \<Rightarrow> registry \<times> domain_error option" where
  "Deregister r instanceID ks =
     (case instances r instanceID of
        None \<Rightarrow> (r, Some ErrInstanceNotFound)
      | Some inst \<Rightarrow>
          (let svc = si_ServiceName inst;
               smap = unindex svc instanceID (services r);
               (rmap, smap') =
                 (if length (get_slice smap svc) = 0
                  then (drop_routes_loop svc ks (routes r), smap(svc := None))
                  else (routes r, smap))
           in (r\<lparr>instances := (instances r)(instanceID := None), services := smap', routes := rmap\<rparr>,
               None)))"

definition removeInstanceLocked :: "registry \<Rightarrow> string \<Rightarrow> string list \<Rightarrow> registry" where
  "removeInstanceLocked r instanceID ks =
     (case instances r instanceID of
        None \<Rightarrow> r
      | Some inst \<Rightarrow>
          (let svc = si_ServiceName inst;
               smap = unindex svc instanceID (services r);
               (rmap, smap') =
                 (if length (get_slice smap svc) = 0
                  then (drop_routes_loop svc ks (routes r), smap(svc := None))
                  else (routes r, smap))
           in r\<lparr>instances := (instances r)(instanceID := None), services := smap', routes := rmap\<rparr>))"

subsection \<open>Heartbeats and expiry\<close>

definition Heartbeat :: "registry \<Rightarrow> string \<Rightarrow> gotime \<Rightarrow> registry \<times> domain_error option" where
  "Heartbeat r instanceID now =
     (case instances r instanceID of
        None \<Rightarrow> (r, Some ErrInstanceNotFound)
      | Some inst \<Rightarrow>
          (r\<lparr>instances := (instances r)(instanceID \<mapsto> inst\<lparr>si_LastHeartbeat := now\<rparr>)\<rparr>, None))"

definition cleanup_interval :: "registry_config \<Rightarrow> duration" where
  "cleanup_interval cfg =
     (let interval = quot_int (HeartbeatTTL cfg) 2 in if interval < second then second else interval)"

text \<open>The first loop of \<^verbatim>\<open>cleanup\<close>: mark the late instances, collect the expired ones.\<close>

fun cleanup_scan ::
    "gotime \<Rightarrow> duration \<Rightarrow> string list \<Rightarrow> (string \<rightharpoonup> service_instance) \<Rightarrow> string list \<Rightarrow>
     (string \<rightharpoonup> service_instance) \<times> string list" where
  "cleanup_scan now ttl [] imap toRemove = (imap, toRemove)"
| "cleanup_scan now ttl (k # ks) imap toRemove =
     (case imap k of
        None \<Rightarrow> cleanup_scan now ttl ks imap toRemove
      | Some inst \<Rightarrow>
          (let elapsed = time_sub now (si_LastHeartbeat inst) in
           if elapsed > wrap64 (ttl * 2)
           then cleanup_scan now ttl ks imap (toRemove @ [k])
           else if elapsed > ttl \<and> si_Status inst = StatusHealthy
           then cleanup_scan now ttl ks (imap(k \<mapsto> inst\<lparr>si_Status := StatusUnhealthy\<rparr>)) toRemove
           else cleanup_scan now ttl ks imap toRemove))"

fun remove_all :: "registry \<Rightarrow> (nat \<Rightarrow> string list) \<Rightarrow> nat \<Rightarrow> string list \<Rightarrow> registry" where
  "remove_all r ord j [] = r"
| "remove_all r ord j (k # ks) = remove_all (removeInstanceLocked r k (ord j)) ord (Suc j) ks"

definition cleanup :: "registry \<Rightarrow> gotime \<Rightarrow> string list \<Rightarrow> (nat \<Rightarrow> string list) \<Rightarrow> registry" where
  "cleanup r now ks ord =
     (let (imap, toRemove) = cleanup_scan now (HeartbeatTTL (config r)) ks (instances r) []
      in remove_all (r\<lparr>instances := imap\<rparr>) ord 0 toRemove)"

subsection \<open>Queries\<close>

definition GetInstance :: "registry \<Rightarrow> string \<Rightarrow> service_instance option" where
  "GetInstance r instanceID = instances r instanceID"

primrec collect_instances ::
    "(string \<rightharpoonup> service_instance) \<Rightarrow> string list \<Rightarrow> service_instance list" where
  "collect_instances imap [] = []"
| "collect_instances imap (i # is) =
     (case imap i of
        None \<Rightarrow> collect_instances imap is
      | Some inst \<Rightarrow> inst # collect_instances imap is)"

definition GetInstances :: "registry \<Rightarrow> string \<Rightarrow> service_instance list" where
  "GetInstances r serviceName =
     (let ids = get_slice (services r) serviceName in
      if length ids = 0 then [] else collect_instances (instances r) ids)"

primrec collect_healthy ::
    "(string \<rightharpoonup> service_instance) \<Rightarrow> string list \<Rightarrow> service_instance list" where
  "collect_healthy imap [] = []"
| "collect_healthy imap (i # is) =
     (case imap i of
        None \<Rightarrow> collect_healthy imap is
      | Some inst \<Rightarrow>
          if si_Status inst = StatusHealthy then inst # collect_healthy imap is
          else collect_healthy imap is)"

definition GetHealthyInstances :: "registry \<Rightarrow> string \<Rightarrow> service_instance list" where
  "GetHealthyInstances r serviceName =
     (let ids = get_slice (services r) serviceName in
      if length ids = 0 then [] else collect_healthy (instances r) ids)"

definition GetRoute :: "registry \<Rightarrow> string \<Rightarrow> string \<Rightarrow> route_entry option" where
  "GetRoute r method path = routes r (method @ '':'' @ path)"

primrec all_services_loop ::
    "registry \<Rightarrow> string list \<Rightarrow> (string \<rightharpoonup> service_instance list) \<Rightarrow> (string \<rightharpoonup> service_instance list)" where
  "all_services_loop r [] result = result"
| "all_services_loop r (svc # ks) result =
     (let insts = collect_instances (instances r) (get_slice (services r) svc) in
      all_services_loop r ks (if length insts > 0 then result(svc \<mapsto> insts) else result))"

definition GetAllServices :: "registry \<Rightarrow> string list \<Rightarrow> (string \<rightharpoonup> service_instance list)" where
  "GetAllServices r ks = all_services_loop r ks Map.empty"

primrec copy_routes_loop ::
    "registry \<Rightarrow> string list \<Rightarrow> (string \<rightharpoonup> route_entry) \<Rightarrow> (string \<rightharpoonup> route_entry)" where
  "copy_routes_loop r [] result = result"
| "copy_routes_loop r (k # ks) result =
     copy_routes_loop r ks (case routes r k of None \<Rightarrow> result | Some v \<Rightarrow> result(k \<mapsto> v))"

definition GetAllRoutes :: "registry \<Rightarrow> string list \<Rightarrow> (string \<rightharpoonup> route_entry)" where
  "GetAllRoutes r ks = copy_routes_loop r ks Map.empty"

end
