(* ===== verification/Registry_Inv.thy ===== *)
theory Registry_Inv
  imports Registry
begin

text \<open>
  Correctness of the registry's operations: closed forms of its loops, the invariant that
  ties the three maps together, and its preservation by every operation.
\<close>

subsection \<open>Closed forms of the loops\<close>

lemma find_id_spec:
  "find_id x xs i =
     (if x \<in> set xs then Some (i + length (takeWhile (\<lambda>y. y \<noteq> x) xs)) else None)"
  by (induction x xs i rule: find_id.induct) auto

lemma remove1_take_drop:
  "x \<in> set xs \<Longrightarrow>
     take (length (takeWhile (\<lambda>y. y \<noteq> x) xs)) xs @ drop (Suc (length (takeWhile (\<lambda>y. y \<noteq> x) xs))) xs =
     remove1 x xs"
  by (induction xs) auto

lemma unindex_eq:
  "unindex svc x smap =
     (if x \<in> set (get_slice smap svc) then smap(svc \<mapsto> remove1 x (get_slice smap svc)) else smap)"
  by (simp add: unindex_def Let_def find_id_spec remove1_take_drop)

definition drop_service :: "string \<Rightarrow> (string \<rightharpoonup> route_entry) \<Rightarrow> (string \<rightharpoonup> route_entry)" where
  "drop_service svc rmap =
     (\<lambda>k. case rmap k of
        None \<Rightarrow> None
      | Some e \<Rightarrow> if re_ServiceName e = svc then None else Some e)"

lemma drop_routes_loop_eq:
  "drop_routes_loop svc ks rmap k =
     (case rmap k of
        None \<Rightarrow> None
      | Some e \<Rightarrow> if re_ServiceName e = svc \<and> k \<in> set ks then None else Some e)"
  by (induction ks arbitrary: rmap) (auto split: option.splits)

lemma drop_routes_loop_all:
  "dom rmap \<subseteq> set ks \<Longrightarrow> drop_routes_loop svc ks rmap = drop_service svc rmap"
  by (auto simp: fun_eq_iff drop_routes_loop_eq drop_service_def split: option.splits)

lemma drop_service_Some:
  "drop_service svc rmap k = Some e \<longleftrightarrow> rmap k = Some e \<and> re_ServiceName e \<noteq> svc"
  by (auto simp: drop_service_def split: option.splits)

definition entry_of :: "register_request \<Rightarrow> gotime \<Rightarrow> route \<Rightarrow> route_entry" where
  "entry_of req now rt =
     \<lparr>re_ServiceName = rr_ServiceName req, re_BasePath = rr_BasePath req,
      re_Route = rt, re_RegisteredAt = now\<rparr>"

lemma entry_of_sel [simp]:
  "re_ServiceName (entry_of req now rt) = rr_ServiceName req"
  "re_BasePath (entry_of req now rt) = rr_BasePath req"
  "re_Route (entry_of req now rt) = rt"
  by (simp_all add: entry_of_def)

lemma register_routes_acc:
  "snd (register_routes req now rts rmap acc) = acc @ map (\<lambda>rt. Key rt (rr_BasePath req)) rts"
  by (induction rts arbitrary: rmap acc) (auto simp: Key_def Let_def)

lemma register_routes_map:
  "fst (register_routes req now rts rmap acc) =
     rmap ++ map_of (rev (map (\<lambda>rt. (Key rt (rr_BasePath req), entry_of req now rt)) rts))"
  by (induction rts arbitrary: rmap acc)
     (auto simp: Let_def Key_def entry_of_def map_add_def fun_eq_iff split: option.splits)

lemma register_routes_cases:
  assumes "fst (register_routes req now rts rmap acc) k = Some e"
  shows "(\<exists>rt \<in> set rts. k = Key rt (rr_BasePath req) \<and> e = entry_of req now rt) \<or>
         (k \<notin> (\<lambda>rt. Key rt (rr_BasePath req)) ` set rts \<and> rmap k = Some e)"
proof -
  let ?ps = "rev (map (\<lambda>rt. (Key rt (rr_BasePath req), entry_of req now rt)) rts)"
  from assms have "(rmap ++ map_of ?ps) k = Some e" by (simp add: register_routes_map)
  then consider "map_of ?ps k = Some e" | "map_of ?ps k = None" "rmap k = Some e"
    by (auto simp: map_add_Some_iff)
  then show ?thesis
  proof cases
    case 1
    then have "(k, e) \<in> set ?ps" by (rule map_of_SomeD)
    then show ?thesis by auto
  next
    case 2
    then show ?thesis by (auto simp: map_of_eq_None_iff image_iff)
  qed
qed

lemma register_routes_hit:
  assumes "rt \<in> set rts"
  shows "\<exists>rt' \<in> set rts. fst (register_routes req now rts rmap acc) (Key rt (rr_BasePath req)) =
           Some (entry_of req now rt') \<and> Key rt' (rr_BasePath req) = Key rt (rr_BasePath req)"
proof -
  let ?k = "Key rt (rr_BasePath req)"
  let ?ps = "rev (map (\<lambda>rt. (Key rt (rr_BasePath req), entry_of req now rt)) rts)"
  from assms have "?k \<in> fst ` set ?ps" by force
  then obtain e where e: "map_of ?ps ?k = Some e" by (metis map_of_eq_None_iff not_None_eq)
  then have "(?k, e) \<in> set ?ps" by (rule map_of_SomeD)
  then obtain rt' where "rt' \<in> set rts" "e = entry_of req now rt'" "Key rt' (rr_BasePath req) = ?k" by auto
  with e show ?thesis by (intro bexI [of _ rt']) (simp_all add: register_routes_map)
qed

text \<open>Of the routes of a request with the same key the last one stays.\<close>

lemma map_of_rev_last:
  "filter (\<lambda>p. fst p = k) ps \<noteq> [] \<Longrightarrow> map_of (rev ps) k = Some (snd (last (filter (\<lambda>p. fst p = k) ps)))"
  by (induction ps rule: rev_induct) auto

lemma register_routes_last:
  assumes "rt \<in> set rts"
  shows "fst (register_routes req now rts rmap acc) (Key rt (rr_BasePath req)) =
    Some (entry_of req now (last (filter (\<lambda>rt'. Key rt' (rr_BasePath req) = Key rt (rr_BasePath req)) rts)))"
proof -
  let ?k = "Key rt (rr_BasePath req)" and ?P = "\<lambda>rt'. Key rt' (rr_BasePath req) = Key rt (rr_BasePath req)"
  let ?ps = "map (\<lambda>rt. (Key rt (rr_BasePath req), entry_of req now rt)) rts"
  have hits: "filter (\<lambda>p. fst p = ?k) ?ps = map (\<lambda>rt. (Key rt (rr_BasePath req), entry_of req now rt)) (filter ?P rts)"
    by (simp add: filter_map o_def)
  have ne: "filter ?P rts \<noteq> []" using assms by (auto simp: filter_empty_conv)
  then have "map_of (rev ?ps) ?k = Some (entry_of req now (last (filter ?P rts)))"
    using map_of_rev_last [of ?k ?ps] by (simp add: hits last_map)
  then show ?thesis by (simp add: register_routes_map)
qed

lemma register_routes_miss:
  "k \<notin> (\<lambda>rt. Key rt (rr_BasePath req)) ` set rts \<Longrightarrow>
     fst (register_routes req now rts rmap acc) k = rmap k"
  by (auto simp: register_routes_map map_add_def split: option.splits dest!: map_of_SomeD)

lemma finite_register_routes:
  "finite (dom rmap) \<Longrightarrow> finite (dom (fst (register_routes req now rts rmap acc)))"
  by (simp add: register_routes_map finite_dom_map_of)

text \<open>\<^verbatim>\<open>Deregister\<close> and \<^verbatim>\<open>removeInstanceLocked\<close> are one algorithm written twice.\<close>

lemma Deregister_eq:
  "Deregister r x ks =
     (if instances r x = None then (r, Some ErrInstanceNotFound)
      else (removeInstanceLocked r x ks, None))"
  by (auto simp: Deregister_def removeInstanceLocked_def Let_def split: option.splits)

subsection \<open>The invariant\<close>

text \<open>
  Every instance is stored under its own id and indexed under its service; every indexed id
  belongs to a stored instance of that service, once; no service has an empty index; every
  route is stored under its key and its service is indexed; the maps are finite.
\<close>

definition indexed :: "registry \<Rightarrow> bool" where
  "indexed r \<longleftrightarrow> (\<forall>x i. instances r x = Some i \<longrightarrow>
     si_ID i = x \<and> x \<in> set (get_slice (services r) (si_ServiceName i)))"

definition index_sound :: "registry \<Rightarrow> bool" where
  "index_sound r \<longleftrightarrow> (\<forall>s ids. services r s = Some ids \<longrightarrow>
     ids \<noteq> [] \<and> distinct ids \<and>
     (\<forall>x \<in> set ids. \<exists>i. instances r x = Some i \<and> si_ServiceName i = s))"

definition routes_owned :: "registry \<Rightarrow> bool" where
  "routes_owned r \<longleftrightarrow> (\<forall>k e. routes r k = Some e \<longrightarrow>
     re_ServiceName e \<in> dom (services r) \<and> k = Key (re_Route e) (re_BasePath e))"

definition finite_maps :: "registry \<Rightarrow> bool" where
  "finite_maps r \<longleftrightarrow> finite (dom (instances r)) \<and> finite (dom (services r)) \<and> finite (dom (routes r))"

definition reg_inv :: "registry \<Rightarrow> bool" where
  "reg_inv r \<longleftrightarrow> indexed r \<and> index_sound r \<and> routes_owned r \<and> finite_maps r"

lemmas reg_inv_defs = reg_inv_def indexed_def index_sound_def routes_owned_def finite_maps_def

lemma reg_invD:
  assumes "reg_inv r"
  shows "instances r x = Some i \<Longrightarrow> si_ID i = x"
    and "instances r x = Some i \<Longrightarrow> x \<in> set (get_slice (services r) (si_ServiceName i))"
    and "services r s = Some ids \<Longrightarrow> ids \<noteq> [] \<and> distinct ids"
    and "services r s = Some ids \<Longrightarrow> x \<in> set ids \<Longrightarrow> \<exists>i. instances r x = Some i \<and> si_ServiceName i = s"
    and "routes r k = Some e \<Longrightarrow> re_ServiceName e \<in> dom (services r)"
    and "routes r k = Some e \<Longrightarrow> k = Key (re_Route e) (re_BasePath e)"
  using assms by (auto simp: reg_inv_defs)

lemma reg_inv_slice:
  assumes "reg_inv r"
  shows "distinct (get_slice (services r) s)"
    and "set (get_slice (services r) s) = {x. \<exists>i. instances r x = Some i \<and> si_ServiceName i = s}"
proof -
  show "distinct (get_slice (services r) s)"
    using reg_invD(3) [OF assms] by (cases "services r s") simp_all
  have "x \<in> set (get_slice (services r) s) \<longleftrightarrow> (\<exists>i. instances r x = Some i \<and> si_ServiceName i = s)" for x
    using reg_invD(2) [OF assms] reg_invD(4) [OF assms] get_slice_notin by metis
  then show "set (get_slice (services r) s) = {x. \<exists>i. instances r x = Some i \<and> si_ServiceName i = s}"
    by blast
qed

lemma reg_inv_services_dom:
  assumes "reg_inv r"
  shows "s \<in> dom (services r) \<longleftrightarrow> (\<exists>x i. instances r x = Some i \<and> si_ServiceName i = s)"
proof
  assume "s \<in> dom (services r)"
  then obtain ids where ids: "services r s = Some ids" by blast
  with reg_invD(3) [OF assms ids] obtain x where "x \<in> set ids" by (cases ids) auto
  with reg_invD(4) [OF assms ids] show "\<exists>x i. instances r x = Some i \<and> si_ServiceName i = s" by blast
next
  assume "\<exists>x i. instances r x = Some i \<and> si_ServiceName i = s"
  then obtain x i where "instances r x = Some i" "si_ServiceName i = s" by blast
  with reg_invD(2) [OF assms] have "x \<in> set (get_slice (services r) s)" by blast
  then show "s \<in> dom (services r)" by (auto dest: get_slice_notin)
qed

text \<open>The three index clauses in one: each slice lists exactly the service's instances.\<close>

lemma reg_invI:
  assumes ids: "\<And>x i. instances r x = Some i \<Longrightarrow> si_ID i = x"
    and slice: "\<And>s. distinct (get_slice (services r) s) \<and>
      set (get_slice (services r) s) = {x. \<exists>i. instances r x = Some i \<and> si_ServiceName i = s}"
    and ne: "\<And>s. services r s \<noteq> Some []"
    and rest: "routes_owned r" "finite_maps r"
  shows "reg_inv r"
proof -
  have "indexed r" using ids slice by (auto simp: indexed_def)
  moreover have "ids \<noteq> [] \<and> distinct ids \<and>
      (\<forall>x \<in> set ids. \<exists>i. instances r x = Some i \<and> si_ServiceName i = s)"
    if "services r s = Some ids" for s ids
    using slice [of s] ne [of s] that by auto
  then have "index_sound r" by (simp add: index_sound_def)
  ultimately show ?thesis using rest by (simp add: reg_inv_def)
qed

lemma reg_inv_nonempty: "reg_inv r \<Longrightarrow> services r s \<noteq> Some []"
  using reg_invD(3) [of r s "[]"] by auto

lemma reg_inv_NewRegistry: "reg_inv (NewRegistry cfg)"
  by (simp add: reg_inv_defs NewRegistry_def)

subsection \<open>Every operation keeps the invariant\<close>

lemma Register_commit_sel [simp]:
  "instances (fst (Register_commit r req x now)) = (instances r)(x \<mapsto> new_instance req x now)"
  "services (fst (Register_commit r req x now)) =
     (services r)(rr_ServiceName req \<mapsto> get_slice (services r) (rr_ServiceName req) @ [x])"
  "routes (fst (Register_commit r req x now)) =
     fst (register_routes req now (rr_Routes req) (routes r) [])"
  "config (fst (Register_commit r req x now)) = config r"
  "InstanceID (snd (Register_commit r req x now)) = x"
  "HeartbeatInterval (snd (Register_commit r req x now)) = int_Seconds (HeartbeatTTL (config r))"
  "RegisteredRoutes (snd (Register_commit r req x now)) =
     map (\<lambda>rt. Key rt (rr_BasePath req)) (rr_Routes req)"
  by (simp_all add: Register_commit_def Let_def case_prod_beta register_routes_acc)

lemma new_instance_sel [simp]:
  "si_ID (new_instance req x now) = x"
  "si_ServiceName (new_instance req x now) = rr_ServiceName req"
  "si_Status (new_instance req x now) = StatusHealthy"
  "si_LastHeartbeat (new_instance req x now) = now"
  "si_Host (new_instance req x now) = rr_Host req"
  "si_Port (new_instance req x now) = rr_Port req"
  by (simp_all add: new_instance_def)

lemma reg_inv_commit:
  assumes inv: "reg_inv r" and fresh: "instances r x = None"
  shows "reg_inv (fst (Register_commit r req x now))"
proof -
  let ?r = "fst (Register_commit r req x now)" and ?s = "rr_ServiceName req"
  have old: "x \<notin> set (get_slice (services r) s)" for s
    using fresh by (simp add: reg_inv_slice(2) [OF inv])
  show ?thesis
  proof (rule reg_invI)
    show "si_ID i = y" if "instances ?r y = Some i" for y i
      using that reg_invD(1) [OF inv] by (auto split: if_splits)
    show "distinct (get_slice (services ?r) s) \<and>
        set (get_slice (services ?r) s) = {y. \<exists>i. instances ?r y = Some i \<and> si_ServiceName i = s}" for s
      using reg_inv_slice [OF inv] old fresh by (auto simp: get_slice_upd split: if_splits)
    show "services ?r s \<noteq> Some []" for s
      using reg_inv_nonempty [OF inv] by simp
    show "routes_owned ?r"
      using reg_invD(5,6) [OF inv] by (fastforce simp: routes_owned_def dest: register_routes_cases)
    show "finite_maps ?r"
      using inv by (auto simp: reg_inv_defs finite_register_routes)
  qed
qed

lemma removeInstanceLocked_None: "instances r x = None \<Longrightarrow> removeInstanceLocked r x ks = r"
  by (simp add: removeInstanceLocked_def)

lemma removeInstanceLocked_sel:
  assumes inv: "reg_inv r" and i: "instances r x = Some i" and ks: "dom (routes r) \<subseteq> set ks"
  defines "svc \<equiv> si_ServiceName i"
  defines "rest \<equiv> remove1 x (get_slice (services r) svc)"
  shows "instances (removeInstanceLocked r x ks) = (instances r)(x := None)"
    and "services (removeInstanceLocked r x ks) =
           (services r)(svc := (if rest = [] then None else Some rest))"
    and "routes (removeInstanceLocked r x ks) =
           (if rest = [] then drop_service svc (routes r) else routes r)"
    and "config (removeInstanceLocked r x ks) = config r"
proof -
  have mem: "x \<in> set (get_slice (services r) svc)"
    using reg_invD(2) [OF inv i] by (simp add: svc_def)
  have ux: "unindex svc x (services r) = (services r)(svc \<mapsto> rest)"
    using mem by (simp add: unindex_eq rest_def)
  note unfold = removeInstanceLocked_def i Let_def svc_def [symmetric] ux drop_routes_loop_all [OF ks]
  show "instances (removeInstanceLocked r x ks) = (instances r)(x := None)"
    "services (removeInstanceLocked r x ks) = (services r)(svc := (if rest = [] then None else Some rest))"
    "routes (removeInstanceLocked r x ks) = (if rest = [] then drop_service svc (routes r) else routes r)"
    "config (removeInstanceLocked r x ks) = config r"
    by (cases "rest = []"; simp add: unfold get_slice_upd)+
qed

lemma rest_empty_iff:
  assumes inv: "reg_inv r" and i: "instances r x = Some i"
  shows "remove1 x (get_slice (services r) (si_ServiceName i)) = [] \<longleftrightarrow>
           (\<forall>y j. ((instances r)(x := None)) y = Some j \<longrightarrow> si_ServiceName j \<noteq> si_ServiceName i)"
proof -
  let ?ids = "get_slice (services r) (si_ServiceName i)"
  have "remove1 x ?ids = [] \<longleftrightarrow> set (remove1 x ?ids) = {}" by simp
  also have "set (remove1 x ?ids) = set ?ids - {x}"
    by (rule set_remove1_eq [OF reg_inv_slice(1) [OF inv]])
  finally show ?thesis by (auto simp: reg_inv_slice(2) [OF inv] split: if_splits)
qed

lemma reg_inv_removeInstanceLocked:
  assumes inv: "reg_inv r" and ks: "dom (routes r) \<subseteq> set ks"
  shows "reg_inv (removeInstanceLocked r x ks)"
proof (cases "instances r x")
  case None
  with inv show ?thesis by (simp add: removeInstanceLocked_None)
next
  case (Some i)
  let ?r = "removeInstanceLocked r x ks" and ?svc = "si_ServiceName i"
  let ?rest = "remove1 x (get_slice (services r) ?svc)"
  note sel = removeInstanceLocked_sel [OF inv Some ks]
  have rest: "distinct ?rest" "set ?rest = set (get_slice (services r) ?svc) - {x}"
    using reg_inv_slice(1) [OF inv] by simp_all
  have slice: "get_slice (services ?r) s = (if s = ?svc then ?rest else get_slice (services r) s)" for s
    by (simp add: sel get_slice_def)
  show ?thesis
  proof (rule reg_invI)
    show "si_ID j = y" if "instances ?r y = Some j" for y j
      using that reg_invD(1) [OF inv] by (auto simp: sel split: if_splits)
    show "distinct (get_slice (services ?r) s) \<and>
        set (get_slice (services ?r) s) = {y. \<exists>j. instances ?r y = Some j \<and> si_ServiceName j = s}" for s
      unfolding slice sel(1) using rest reg_inv_slice [OF inv] Some by auto
    show "services ?r s \<noteq> Some []" for s
      using reg_inv_nonempty [OF inv] by (simp add: sel)
    show "routes_owned ?r"
      using reg_invD(5,6) [OF inv] by (auto simp: routes_owned_def sel drop_service_Some)
    have "dom (drop_service ?svc (routes r)) \<subseteq> dom (routes r)"
      by (auto simp: drop_service_Some)
    with inv show "finite_maps ?r"
      by (auto simp: reg_inv_def finite_maps_def sel intro: finite_subset)
  qed
qed

lemma reg_inv_update_instance:
  assumes inv: "reg_inv r" and i: "instances r x = Some i"
    and same: "si_ID i' = si_ID i" "si_ServiceName i' = si_ServiceName i"
  shows "reg_inv (r\<lparr>instances := (instances r)(x \<mapsto> i')\<rparr>)"
proof (rule reg_invI)
  show "si_ID j = y" if "instances (r\<lparr>instances := (instances r)(x \<mapsto> i')\<rparr>) y = Some j" for y j
    using that reg_invD(1) [OF inv] i same by (auto split: if_splits)
qed (use inv i same reg_inv_slice [OF inv] reg_inv_nonempty [OF inv] in
    \<open>auto simp: reg_inv_def routes_owned_def finite_maps_def\<close>)

lemma reg_inv_Heartbeat: "reg_inv r \<Longrightarrow> reg_inv (fst (Heartbeat r x now))"
  by (auto simp: Heartbeat_def intro: reg_inv_update_instance split: option.splits)

end
