(* ===== verification/Registry_Spec.thy ===== *)
theory Registry_Spec
  imports Registry_Inv
begin

text \<open>
  What the registry promises, without its service index: a table of live instances and a
  table of routes, where a route lives exactly as long as its service has a live instance.
  Each operation of the code refines one operation of this specification.
\<close>

subsection \<open>The specification\<close>

record registry_spec =
  ttl :: duration
  live :: "string \<rightharpoonup> service_instance"
  table :: "string \<rightharpoonup> route_entry"

definition live_services :: "(string \<rightharpoonup> service_instance) \<Rightarrow> string set" where
  "live_services imap = {si_ServiceName i | i. i \<in> ran imap}"

definition owned_routes :: "string set \<Rightarrow> (string \<rightharpoonup> route_entry) \<Rightarrow> (string \<rightharpoonup> route_entry)" where
  "owned_routes S rmap =
     (\<lambda>k. case rmap k of
        None \<Rightarrow> None
      | Some e \<Rightarrow> if re_ServiceName e \<in> S then Some e else None)"

definition spec_remove :: "string set \<Rightarrow> registry_spec \<Rightarrow> registry_spec" where
  "spec_remove X a =
     (let l = (live a) |` (- X) in a\<lparr>live := l, table := owned_routes (live_services l) (table a)\<rparr>)"

definition spec_register :: "register_request \<Rightarrow> string \<Rightarrow> gotime \<Rightarrow> registry_spec \<Rightarrow> registry_spec" where
  "spec_register req x now a =
     a\<lparr>live := (live a)(x \<mapsto> new_instance req x now),
       table := table a ++
         map_of (rev (map (\<lambda>rt. (Key rt (rr_BasePath req), entry_of req now rt)) (rr_Routes req)))\<rparr>"

definition spec_touch :: "string \<Rightarrow> gotime \<Rightarrow> registry_spec \<Rightarrow> registry_spec" where
  "spec_touch x now a =
     a\<lparr>live := (live a)(x := map_option (\<lambda>i. i\<lparr>si_LastHeartbeat := now\<rparr>) (live a x))\<rparr>"

definition expired :: "gotime \<Rightarrow> duration \<Rightarrow> service_instance \<Rightarrow> bool" where
  "expired now d i \<longleftrightarrow> time_sub now (si_LastHeartbeat i) > wrap64 (d * 2)"

definition mark_late :: "gotime \<Rightarrow> duration \<Rightarrow> service_instance \<Rightarrow> service_instance" where
  "mark_late now d i =
     (if \<not> expired now d i \<and> time_sub now (si_LastHeartbeat i) > d \<and> si_Status i = StatusHealthy
      then i\<lparr>si_Status := StatusUnhealthy\<rparr> else i)"

definition spec_expire :: "gotime \<Rightarrow> registry_spec \<Rightarrow> registry_spec" where
  "spec_expire now a =
     spec_remove {x. \<exists>i. live a x = Some i \<and> expired now (ttl a) i}
       (a\<lparr>live := (\<lambda>x. map_option (mark_late now (ttl a)) (live a x))\<rparr>)"

definition abs_registry :: "registry \<Rightarrow> registry_spec" where
  "abs_registry r = \<lparr>ttl = HeartbeatTTL (config r), live = instances r, table = routes r\<rparr>"

lemma abs_registry_sel [simp]:
  "ttl (abs_registry r) = HeartbeatTTL (config r)"
  "live (abs_registry r) = instances r"
  "table (abs_registry r) = routes r"
  by (simp_all add: abs_registry_def)

lemma owned_routes_Some:
  "owned_routes S rmap k = Some e \<longleftrightarrow> rmap k = Some e \<and> re_ServiceName e \<in> S"
  by (auto simp: owned_routes_def split: option.splits)

lemma owned_routes_eqI:
  assumes "\<And>k e. rmap' k = Some e \<longleftrightarrow> rmap k = Some e \<and> re_ServiceName e \<in> S"
  shows "rmap' = owned_routes S rmap"
proof
  fix k
  have "rmap' k = Some e \<longleftrightarrow> owned_routes S rmap k = Some e" for e
    using assms by (simp add: owned_routes_Some)
  then show "rmap' k = owned_routes S rmap k"
    by (metis not_Some_eq)
qed

lemma live_services_iff:
  "s \<in> live_services imap \<longleftrightarrow> (\<exists>x i. imap x = Some i \<and> si_ServiceName i = s)"
  by (auto simp: live_services_def ran_def)

lemma live_servicesI: "imap x = Some i \<Longrightarrow> si_ServiceName i \<in> live_services imap"
  by (auto simp: live_services_def ran_def)

lemma reg_inv_live_services: "reg_inv r \<Longrightarrow> dom (services r) = live_services (instances r)"
  by (rule set_eqI) (simp only: reg_inv_services_dom live_services_def ran_def, blast)

lemma services_mono:
  assumes "reg_inv r" and "reg_inv r'" and "\<And>x i. instances r' x = Some i \<Longrightarrow> instances r x = Some i"
  shows "dom (services r') \<subseteq> dom (services r)"
  unfolding reg_inv_live_services [OF assms(1)] reg_inv_live_services [OF assms(2)]
  using assms(3) by (auto simp: live_services_def ran_def)

subsection \<open>Removal\<close>

lemma removeInstanceLocked_routes:
  assumes inv: "reg_inv r" and ks: "dom (routes r) \<subseteq> set ks"
  shows "routes (removeInstanceLocked r x ks) k = Some e \<longleftrightarrow>
           routes r k = Some e \<and> re_ServiceName e \<in> dom (services (removeInstanceLocked r x ks))"
proof (cases "instances r x")
  case None
  then show ?thesis using reg_invD(5) [OF inv] by (auto simp: removeInstanceLocked_None)
next
  case (Some i)
  show ?thesis
    using reg_invD(5) [OF inv, of k e]
    by (auto simp: removeInstanceLocked_sel [OF inv Some ks] drop_service_Some)
qed

lemma removeInstanceLocked_instances:
  assumes "reg_inv r" and "dom (routes r) \<subseteq> set ks"
  shows "instances (removeInstanceLocked r x ks) = (instances r)(x := None)"
    and "config (removeInstanceLocked r x ks) = config r"
  using assms removeInstanceLocked_sel [of r x _ ks]
  by (cases "instances r x"; force simp: removeInstanceLocked_None)+

lemma removeInstanceLocked_shrinks:
  assumes "reg_inv r" and "dom (routes r) \<subseteq> set ks"
  shows "dom (routes (removeInstanceLocked r x ks)) \<subseteq> dom (routes r)"
  using removeInstanceLocked_routes [OF assms] by blast

lemma remove_all_spec:
  assumes "reg_inv r" and "\<And>j. dom (routes r) \<subseteq> set (ord j)"
  shows "reg_inv (remove_all r ord j ks)"
    and "instances (remove_all r ord j ks) = instances r |` (- set ks)"
    and "config (remove_all r ord j ks) = config r"
    and "\<And>k e. routes (remove_all r ord j ks) k = Some e \<longleftrightarrow>
           routes r k = Some e \<and> re_ServiceName e \<in> dom (services (remove_all r ord j ks))"
proof -
  let ?goal = "\<lambda>r r' ks. reg_inv r' \<and> instances r' = instances r |` (- set ks) \<and> config r' = config r \<and>
      (\<forall>k e. routes r' k = Some e \<longleftrightarrow> routes r k = Some e \<and> re_ServiceName e \<in> dom (services r'))"
  have "?goal r (remove_all r ord j ks) ks"
    using assms
  proof (induction ks arbitrary: r j)
    case Nil
    have "routes r k = Some e \<Longrightarrow> re_ServiceName e \<in> dom (services r)" for k e
      using reg_invD(5) [OF Nil(1)] .
    with Nil show ?case by (simp add: restrict_map_def) blast
  next
    case (Cons x ks)
    let ?m = "removeInstanceLocked r x (ord j)"
    let ?r' = "remove_all ?m ord (Suc j) ks"
    note inv = Cons.prems(1) and ord = Cons.prems(2) [of j]
    have "\<And>i. dom (routes ?m) \<subseteq> set (ord i)"
      using removeInstanceLocked_shrinks [OF inv ord] Cons.prems(2) by blast
    with Cons.IH [OF reg_inv_removeInstanceLocked [OF inv ord]]
    have IH: "?goal ?m ?r' ks" by blast
    have sub: "dom (services ?r') \<subseteq> dom (services ?m)"
      using IH by (intro services_mono reg_inv_removeInstanceLocked [OF inv ord])
        (auto simp: restrict_map_def split: if_splits)
    have "instances ?r' = instances r |` (- set (x # ks))"
      using IH removeInstanceLocked_instances [OF inv ord] by (auto simp: restrict_map_def fun_eq_iff)
    moreover have "routes ?r' k = Some e \<longleftrightarrow>
        routes r k = Some e \<and> re_ServiceName e \<in> dom (services ?r')" for k e
      using IH sub removeInstanceLocked_routes [OF inv ord] by blast
    ultimately show ?case
      using IH removeInstanceLocked_instances [OF inv ord] by simp
  qed
  then show "reg_inv (remove_all r ord j ks)"
    "instances (remove_all r ord j ks) = instances r |` (- set ks)"
    "config (remove_all r ord j ks) = config r"
    "\<And>k e. routes (remove_all r ord j ks) k = Some e \<longleftrightarrow>
       routes r k = Some e \<and> re_ServiceName e \<in> dom (services (remove_all r ord j ks))"
    by blast+
qed

subsection \<open>Expiry\<close>

lemma expired_not_marked: "expired now d i \<Longrightarrow> mark_late now d i = i"
  by (simp add: mark_late_def)

lemma mark_late_sel [simp]:
  "si_ID (mark_late now d i) = si_ID i"
  "si_ServiceName (mark_late now d i) = si_ServiceName i"
  "si_LastHeartbeat (mark_late now d i) = si_LastHeartbeat i"
  "expired now' d' (mark_late now d i) = expired now' d' i"
  by (simp_all add: mark_late_def expired_def)

lemma cleanup_scan_eq:
  "distinct ks \<Longrightarrow>
     cleanup_scan now d ks imap rm =
       ((\<lambda>k. if k \<in> set ks then map_option (mark_late now d) (imap k) else imap k),
        rm @ filter (\<lambda>k. \<exists>i. imap k = Some i \<and> expired now d i) ks)"
proof (induction ks arbitrary: imap rm)
  case (Cons k ks)
  show ?case
  proof (cases "imap k")
    case None
    with Cons show ?thesis by (auto simp: fun_eq_iff)
  next
    case (Some i)
    with Cons show ?thesis
      by (auto simp: Let_def expired_def [symmetric] mark_late_def fun_eq_iff intro!: filter_cong)
  qed
qed auto

lemma cleanup_scan_range:
  assumes "range_order ks imap"
  shows "cleanup_scan now d ks imap [] =
           ((\<lambda>k. map_option (mark_late now d) (imap k)),
            filter (\<lambda>k. \<exists>i. imap k = Some i \<and> expired now d i) ks)"
  using assms by (auto simp: range_order_def cleanup_scan_eq fun_eq_iff dom_def)

lemma reg_inv_map_instances:
  assumes inv: "reg_inv r"
    and same: "\<And>i. si_ID (f i) = si_ID i" "\<And>i. si_ServiceName (f i) = si_ServiceName i"
  shows "reg_inv (r\<lparr>instances := (\<lambda>x. map_option f (instances r x))\<rparr>)"
proof (rule reg_invI)
  let ?r = "r\<lparr>instances := (\<lambda>x. map_option f (instances r x))\<rparr>"
  show "si_ID j = y" if "instances ?r y = Some j" for y j
    using that reg_invD(1) [OF inv] same by auto
  show "distinct (get_slice (services ?r) s) \<and>
      set (get_slice (services ?r) s) = {x. \<exists>i. instances ?r x = Some i \<and> si_ServiceName i = s}" for s
    using reg_inv_slice [OF inv] same by auto
  show "services ?r s \<noteq> Some []" for s
    using reg_inv_nonempty [OF inv] by simp
  show "routes_owned ?r" "finite_maps ?r"
    using inv by (auto simp: reg_inv_def routes_owned_def finite_maps_def dom_def)
qed

lemma cleanup_eq:
  assumes "range_order ks (instances r)"
  shows "cleanup r now ks ord =
     remove_all (r\<lparr>instances := (\<lambda>x. map_option (mark_late now (HeartbeatTTL (config r))) (instances r x))\<rparr>)
       ord 0 (filter (\<lambda>k. \<exists>i. instances r k = Some i \<and> expired now (HeartbeatTTL (config r)) i) ks)"
  by (simp add: cleanup_def cleanup_scan_range [OF assms])

text \<open>
  What the loops over the maps may assume of their visiting orders: the deletion loops visit
  at least the routes still present.
\<close>

definition routes_orders :: "registry \<Rightarrow> (nat \<Rightarrow> string list) \<Rightarrow> bool" where
  "routes_orders r ord \<longleftrightarrow> (\<forall>j. range_order (ord j) (routes r))"

lemma routes_orders_dom: "routes_orders r ord \<Longrightarrow> dom (routes r) \<subseteq> set (ord j)"
  by (auto simp: routes_orders_def range_order_def)

lemma reg_inv_cleanup:
  assumes inv: "reg_inv r" and ks: "range_order ks (instances r)" and ord: "routes_orders r ord"
  shows "reg_inv (cleanup r now ks ord)"
  unfolding cleanup_eq [OF ks] using ord
  by (intro remove_all_spec(1) reg_inv_map_instances [OF inv]) (auto dest: routes_orders_dom)

lemma Register_ok:
  assumes "Register r req ord x now = (r', Inr resp)"
  obtains req' where "Register_check r req ord = Inr req'"
    "r' = fst (Register_commit r req' x now)" "resp = snd (Register_commit r req' x now)"
  using assms by (auto simp: Register_def Let_def case_prod_beta split: sum.splits)

lemma Register_failed: "Register r req ord x now = (r', Inl e) \<Longrightarrow> r' = r"
  by (auto simp: Register_def Let_def case_prod_beta split: sum.splits)

lemma Register_check_ok:
  assumes "Register_check r req ord = Inr req'"
  shows "Validate req = Inr req'"
    and "ValidateRoutes r (rr_ServiceName req') (rr_BasePath req') ord 0 (rr_Routes req') = []"
  using assms by (auto simp: Register_check_def Let_def split: sum.splits if_splits)

lemma reg_inv_Register:
  assumes "reg_inv r" and "instances r x = None"
  shows "reg_inv (fst (Register r req ord x now))"
  using assms reg_inv_commit by (auto simp: Register_def Let_def case_prod_beta split: sum.splits)

lemma reg_inv_Deregister:
  assumes "reg_inv r" and "range_order ks (routes r)"
  shows "reg_inv (fst (Deregister r x ks))"
  using assms by (auto simp: Deregister_eq range_order_def intro: reg_inv_removeInstanceLocked)

subsection \<open>Refinement\<close>

text \<open>
  The write-locked half of a registration adds one live instance and enters its routes; a
  removal drops one instance and, with the last instance of a service, the service's routes;
  a cleanup is one simultaneous marking and removal.  None depends on a visiting order.
\<close>

lemma Register_commit_refines:
  "abs_registry (fst (Register_commit r req x now)) = spec_register req x now (abs_registry r)"
  by (simp add: abs_registry_def spec_register_def register_routes_map)

lemma removeInstanceLocked_refines:
  assumes inv: "reg_inv r" and ks: "dom (routes r) \<subseteq> set ks"
  shows "abs_registry (removeInstanceLocked r x ks) = spec_remove {x} (abs_registry r)"
proof -
  let ?r = "removeInstanceLocked r x ks"
  have "instances ?r = instances r |` (- {x})"
    using removeInstanceLocked_instances [OF inv ks] by (auto simp: restrict_map_def fun_eq_iff)
  moreover have "routes ?r = owned_routes (live_services (instances ?r)) (routes r)"
    using removeInstanceLocked_routes [OF inv ks]
    by (intro owned_routes_eqI)
      (simp add: reg_inv_live_services [OF reg_inv_removeInstanceLocked [OF inv ks]])
  ultimately show ?thesis
    using removeInstanceLocked_instances(2) [OF inv ks]
    by (simp add: abs_registry_def spec_remove_def Let_def)
qed

lemma cleanup_refines_spec:
  assumes inv: "reg_inv r" and ks: "range_order ks (instances r)" and ord: "routes_orders r ord"
  shows "abs_registry (cleanup r now ks ord) = spec_expire now (abs_registry r)"
proof -
  let ?ttl = "HeartbeatTTL (config r)"
  let ?m = "r\<lparr>instances := (\<lambda>x. map_option (mark_late now ?ttl) (instances r x))\<rparr>"
  let ?X = "filter (\<lambda>k. \<exists>i. instances r k = Some i \<and> expired now ?ttl i) ks"
  let ?r = "remove_all ?m ord 0 ?X"
  have m: "reg_inv ?m" by (rule reg_inv_map_instances [OF inv]) simp_all
  have o: "\<And>j. dom (routes ?m) \<subseteq> set (ord j)" using routes_orders_dom [OF ord] by simp
  note spec = remove_all_spec [where r = ?m and ord = ord and j = 0 and ks = ?X, OF m o]
  have X: "{x \<in> set ks. \<exists>i. instances r x = Some i \<and> expired now ?ttl i} =
      {x. \<exists>i. instances r x = Some i \<and> expired now ?ttl i}"
    using ks by (auto simp: range_order_def)
  have "routes ?r = owned_routes (live_services (instances ?r)) (routes r)"
    using spec(4) by (intro owned_routes_eqI) (simp add: reg_inv_live_services [OF spec(1)])
  then show ?thesis
    unfolding cleanup_eq [OF ks]
    by (simp add: abs_registry_def spec_expire_def spec_remove_def Let_def spec(2,3) X)
qed

lemma Heartbeat_refines_spec:
  "abs_registry (fst (Heartbeat r x now)) =
     (if instances r x = None then abs_registry r else spec_touch x now (abs_registry r))"
  by (auto simp: abs_registry_def Heartbeat_def spec_touch_def split: option.splits)

subsection \<open>Queries\<close>

lemma collect_instances_eq: "collect_instances imap ids = List.map_filter imap ids"
  by (induction ids) (auto simp: List.map_filter_simps split: option.splits)

lemma collect_healthy_eq:
  "collect_healthy imap ids = filter IsHealthy (collect_instances imap ids)"
  by (induction ids) (auto simp: IsHealthy_def split: option.splits)

lemma set_collect_instances: "set (collect_instances imap ids) = {i. \<exists>x \<in> set ids. imap x = Some i}"
  by (induction ids) (auto split: option.splits)

lemma distinct_collect_instances:
  assumes "distinct ids" and "\<And>x i. imap x = Some i \<Longrightarrow> si_ID i = x"
  shows "distinct (collect_instances imap ids)"
  using assms(1)
proof (induction ids)
  case (Cons x ids)
  then show ?case
    using assms(2) by (auto simp: set_collect_instances split: option.splits)
qed simp

lemma GetInstances_collect: "GetInstances r s = collect_instances (instances r) (get_slice (services r) s)"
  by (simp add: GetInstances_def Let_def)

lemma GetHealthyInstances_filter: "GetHealthyInstances r s = filter IsHealthy (GetInstances r s)"
  by (simp add: GetHealthyInstances_def GetInstances_def Let_def collect_healthy_eq)

lemma GetInstances_set:
  assumes "reg_inv r"
  shows "set (GetInstances r s) = {i. \<exists>x. instances r x = Some i \<and> si_ServiceName i = s}"
    and "distinct (GetInstances r s)"
  using reg_inv_slice [OF assms] distinct_collect_instances [OF _ reg_invD(1) [OF assms]]
  by (auto simp: GetInstances_collect set_collect_instances)

lemma copy_routes_loop_eq:
  "copy_routes_loop r ks result =
     (\<lambda>k. if k \<in> set ks \<and> routes r k \<noteq> None then routes r k else result k)"
  by (induction ks arbitrary: result) (auto simp: fun_eq_iff split: option.splits)

lemma GetAllRoutes_eq: "range_order ks (routes r) \<Longrightarrow> GetAllRoutes r ks = routes r"
  by (auto simp: GetAllRoutes_def copy_routes_loop_eq fun_eq_iff range_order_def)

lemma all_services_loop_eq:
  "all_services_loop r ks result =
     (\<lambda>s. if s \<in> set ks \<and> GetInstances r s \<noteq> [] then Some (GetInstances r s) else result s)"
  by (induction ks arbitrary: result) (auto simp: fun_eq_iff Let_def GetInstances_collect)

end
