(* ===== verification/Registry_Machine.thy ===== *)
theory Registry_Machine
  imports Registry_Spec
begin

text \<open>
  The registry under concurrent callers.  A \<open>maint_step\<close> is one of the operations that run
  in a single critical section; \<open>reg_step\<close> adds a registration whose two critical sections
  run back to back; \<open>sys_step\<close> is what the mutex really allows, where other callers may run
  between the check of a registration and its commit.  A tick may still come after the stop
  channel was closed, as the select of the cleanup goroutine takes any case that is ready.
\<close>

subsection \<open>Steps\<close>

inductive maint_step :: "registry \<Rightarrow> registry \<Rightarrow> bool" where
  step_deregister:
    "range_order ks (routes r) \<Longrightarrow> Deregister r x ks = (r', res) \<Longrightarrow> maint_step r r'"
| step_heartbeat:
    "Heartbeat r x now = (r', res) \<Longrightarrow> maint_step r r'"
| step_tick:
    "range_order ks (instances r) \<Longrightarrow> routes_orders r ord \<Longrightarrow>
       maint_step r (cleanup r now ks ord)"
| step_stop:
    "Stop r = Ret r' \<Longrightarrow> maint_step r r'"

inductive reg_step :: "registry \<Rightarrow> registry \<Rightarrow> bool" where
  step_maint: "maint_step r r' \<Longrightarrow> reg_step r r'"
| step_register:
    "instances r x = None \<Longrightarrow> routes_orders r ord \<Longrightarrow> Register r req ord x now = (r', res) \<Longrightarrow>
       reg_step r r'"

record reg_sys =
  reg :: registry
  pending :: "nat \<rightharpoonup> register_request"

inductive sys_step :: "reg_sys \<Rightarrow> reg_sys \<Rightarrow> bool" where
  sys_maint: "maint_step (reg s) r' \<Longrightarrow> sys_step s (s\<lparr>reg := r'\<rparr>)"
| sys_check:
    "pending s t = None \<Longrightarrow> routes_orders (reg s) ord \<Longrightarrow> Register_check (reg s) req ord = Inr req' \<Longrightarrow>
       sys_step s (s\<lparr>pending := (pending s)(t \<mapsto> req')\<rparr>)"
| sys_commit:
    "pending s t = Some req \<Longrightarrow> instances (reg s) x = None \<Longrightarrow>
       sys_step s (s\<lparr>reg := fst (Register_commit (reg s) req x now), pending := (pending s)(t := None)\<rparr>)"

inductive_cases maint_stepE: "maint_step r r'"
inductive_cases reg_stepE: "reg_step r r'"
inductive_cases sys_stepE: "sys_step s s'"

subsection \<open>The invariant holds under every interleaving\<close>

lemma Stop_sel: "Stop r = Ret r' \<Longrightarrow> r' = r\<lparr>stopped := True\<rparr>"
  by (simp add: Stop_def split: if_splits)

lemma reg_inv_stopped: "reg_inv (r\<lparr>stopped := b\<rparr>) = reg_inv r"
  by (simp add: reg_inv_defs)

lemma maint_step_inv: "maint_step r r' \<Longrightarrow> reg_inv r \<Longrightarrow> reg_inv r'"
proof (induction rule: maint_step.induct)
  case (step_deregister ks r x r' res)
  then show ?case using reg_inv_Deregister [of r ks x] by simp
next
  case (step_heartbeat r x now r' res)
  then show ?case using reg_inv_Heartbeat [of r x now] by simp
next
  case (step_tick r ks ord now)
  then show ?case by (simp add: reg_inv_cleanup)
next
  case (step_stop r r')
  then show ?case by (auto dest!: Stop_sel simp: reg_inv_stopped)
qed

lemma reg_step_inv: "reg_step r r' \<Longrightarrow> reg_inv r \<Longrightarrow> reg_inv r'"
proof (induction rule: reg_step.induct)
  case (step_register r x ord req now r' res)
  then show ?case using reg_inv_Register [of r x req ord now] by simp
qed (rule maint_step_inv)

lemma sys_step_inv: "sys_step s s' \<Longrightarrow> reg_inv (reg s) \<Longrightarrow> reg_inv (reg s')"
  by (induction rule: sys_step.induct) (auto intro: maint_step_inv reg_inv_commit)

interpretation reg_machine: invariant_system reg_step reg_inv
  by unfold_locales (rule reg_step_inv)

interpretation sys_machine: invariant_system sys_step "\<lambda>s. reg_inv (reg s)"
  by unfold_locales (rule sys_step_inv)

definition new_sys :: "registry_config \<Rightarrow> reg_sys" where
  "new_sys cfg = \<lparr>reg = NewRegistry cfg, pending = Map.empty\<rparr>"

lemma reachable_inv: "sys_step\<^sup>*\<^sup>* (new_sys cfg) s \<Longrightarrow> reg_inv (reg s)"
  using sys_machine.run_keeps [of "new_sys cfg" s] reg_inv_NewRegistry [of cfg]
  by (simp add: new_sys_def)

subsection \<open>Simulation of the specification\<close>

inductive spec_step :: "registry_spec \<Rightarrow> registry_spec \<Rightarrow> bool" where
  spec_idle: "spec_step a a"
| spec_new:
    "live a x = None \<Longrightarrow> valid_request req \<Longrightarrow>
       \<forall>rt \<in> set (rr_Routes req). \<forall>e. table a (Key rt (rr_BasePath req)) = Some e \<longrightarrow>
          re_ServiceName e = rr_ServiceName req \<Longrightarrow>
       spec_step a (spec_register req x now a)"
| spec_drop: "live a x \<noteq> None \<Longrightarrow> spec_step a (spec_remove {x} a)"
| spec_beat: "live a x \<noteq> None \<Longrightarrow> spec_step a (spec_touch x now a)"
| spec_sweep: "spec_step a (spec_expire now a)"

text \<open>An accepted registration collides with no route of another service.\<close>

lemma ValidateRoutes_exact:
  assumes "ValidateRoutes r svc base ord j rts = []" and "rt \<in> set rts"
    and "routes r (Key rt base) = Some e"
  shows "re_ServiceName e = svc"
  using assms
proof (induction rts arbitrary: j)
  case (Cons t rts)
  show ?case
  proof (cases "rt = t")
    case True
    with Cons.prems show ?thesis
      by (auto simp: Let_def checkExactCollision_def Key_def split: option.splits if_splits)
  next
    case False
    with Cons show ?thesis by (auto simp: Let_def split: option.splits if_splits)
  qed
qed simp

lemma Register_check_exact:
  assumes "Register_check r req ord = Inr req'" and "rt \<in> set (rr_Routes req')"
    and "routes r (Key rt (rr_BasePath req')) = Some e"
  shows "re_ServiceName e = rr_ServiceName req'"
  using ValidateRoutes_exact [OF Register_check_ok(2) [OF assms(1)] assms(2,3)] .

lemma maint_step_simulates:
  "maint_step r r' \<Longrightarrow> reg_inv r \<Longrightarrow> spec_step (abs_registry r) (abs_registry r')"
proof (induction rule: maint_step.induct)
  case (step_deregister ks r x r' res)
  show ?case
  proof (cases "instances r x = None")
    case True
    with step_deregister show ?thesis by (auto simp: Deregister_eq intro: spec_idle)
  next
    case False
    with step_deregister have "abs_registry r' = spec_remove {x} (abs_registry r)"
      by (auto simp: Deregister_eq range_order_def removeInstanceLocked_refines)
    with False show ?thesis using spec_drop [of "abs_registry r" x] by (simp add: abs_registry_def)
  qed
next
  case (step_heartbeat r x now r' res)
  then have "abs_registry r' =
      (if instances r x = None then abs_registry r else spec_touch x now (abs_registry r))"
    using Heartbeat_refines_spec [of r x now] by simp
  then show ?case
    using spec_beat [of "abs_registry r" x now] by (auto simp: abs_registry_def intro: spec_idle)
next
  case (step_tick r ks ord now)
  then show ?case by (simp add: cleanup_refines_spec spec_sweep)
next
  case (step_stop r r')
  then show ?case by (auto dest!: Stop_sel simp: abs_registry_def intro: spec_idle)
qed

lemma reg_step_simulates:
  "reg_step r r' \<Longrightarrow> reg_inv r \<Longrightarrow> spec_step (abs_registry r) (abs_registry r')"
proof (induction rule: reg_step.induct)
  case (step_register r x ord req now r' res)
  show ?case
  proof (cases res)
    case (Inl e)
    with step_register show ?thesis by (auto dest!: Register_failed intro: spec_idle)
  next
    case (Inr resp)
    with step_register obtain req' where ok: "Register_check r req ord = Inr req'"
      and r': "r' = fst (Register_commit r req' x now)"
      by (auto elim: Register_ok)
    have "spec_step (abs_registry r) (spec_register req' x now (abs_registry r))"
      using Register_check_exact [OF ok] Validate_Inr [OF Register_check_ok(1) [OF ok]] step_register(1)
      by (intro spec_new) (auto simp: abs_registry_def)
    then show ?thesis by (simp add: r' Register_commit_refines)
  qed
qed (rule maint_step_simulates)

interpretation reg_sim: simulation reg_step reg_inv abs_registry spec_step
  by unfold_locales (rule reg_step_simulates)

end
