(* ===== verification/Registry_Safety.thy ===== *)
theory Registry_Safety
  imports Registry_Machine
begin

text \<open>
  What the registry guarantees to its callers over whole runs: the shape of every reachable
  state, who owns a route, what a cleanup does to each instance, what becomes of an instance
  that was marked late, and where the guarantees stop (two registrations that interleave, a
  TTL whose double overflows).
\<close>

subsection \<open>Steps of the specification\<close>

lemma spec_step_owner:
  assumes "spec_step a a'" and "table a k = Some e"
    and "re_ServiceName e \<in> live_services (live a')"
  shows "\<exists>e'. table a' k = Some e' \<and> re_ServiceName e' = re_ServiceName e"
  using assms
proof (induction rule: spec_step.induct)
  case (spec_new a x req now)
  let ?ps = "rev (map (\<lambda>rt. (Key rt (rr_BasePath req), entry_of req now rt)) (rr_Routes req))"
  show ?case
  proof (cases "map_of ?ps k")
    case None
    with spec_new show ?thesis by (simp add: spec_register_def map_add_def)
  next
    case (Some f)
    then have "(k, f) \<in> set ?ps" by (rule map_of_SomeD)
    then obtain rt where "rt \<in> set (rr_Routes req)" "k = Key rt (rr_BasePath req)" "f = entry_of req now rt"
      by auto
    with Some spec_new show ?thesis by (auto simp: spec_register_def map_add_def)
  qed
qed (auto simp: spec_remove_def spec_expire_def spec_touch_def Let_def owned_routes_Some)

text \<open>What no step changes of an instance, and what it may do to its status.\<close>

lemma spec_step_instance:
  assumes "spec_step a a'" and "live a x = Some i" and "live a' x = Some i'"
  shows "si_ID i' = si_ID i \<and> si_ServiceName i' = si_ServiceName i \<and> si_Host i' = si_Host i \<and>
         si_Port i' = si_Port i \<and>
         (si_Status i' = si_Status i \<or> si_Status i = StatusHealthy \<and> si_Status i' = StatusUnhealthy)"
  using assms
  by (induction rule: spec_step.induct)
     (auto simp: spec_register_def spec_remove_def spec_expire_def spec_touch_def Let_def
        restrict_map_def mark_late_def split: if_splits)

lemma sys_step_maint_or_same:
  assumes "sys_step s s'" and "instances (reg s) x = Some i"
  shows "maint_step (reg s) (reg s') \<or> instances (reg s') x = Some i"
  using assms by (auto elim!: sys_stepE split: if_splits)

lemma sys_step_instance:
  assumes "sys_step s s'" and "reg_inv (reg s)"
    and "instances (reg s) x = Some i" and "instances (reg s') x = Some i'"
  shows "si_ServiceName i' = si_ServiceName i \<and> si_Host i' = si_Host i \<and> si_Port i' = si_Port i \<and>
         (si_Status i' = si_Status i \<or> si_Status i = StatusHealthy \<and> si_Status i' = StatusUnhealthy)"
  using sys_step_maint_or_same [OF assms(1,3)]
proof
  assume "maint_step (reg s) (reg s')"
  from maint_step_simulates [OF this assms(2)] show ?thesis
    using spec_step_instance [of _ _ x i i'] assms(3,4) by (metis abs_registry_sel(2))
next
  assume "instances (reg s') x = Some i"
  with assms(4) show ?thesis by simp
qed

subsection \<open>Expiry in plain arithmetic\<close>

lemma expired_iff:
  assumes "0 \<le> d" and "d < 2 ^ 62"
  shows "expired now d i \<longleftrightarrow> 2 * d < now - si_LastHeartbeat i"
proof -
  have "wrap64 (d * 2) = 2 * d" using assms by (subst wrap64_id) (simp_all add: in_int64_def)
  moreover have "2 * d < saturate64 t \<longleftrightarrow> 2 * d < t" for t
    using assms by (auto simp: saturate64_def)
  ultimately show ?thesis by (simp add: expired_def time_sub_def)
qed

lemma late_iff:
  assumes "0 \<le> d" and "d < 2 ^ 62"
  shows "d < time_sub now t \<longleftrightarrow> d < now - t"
  using assms by (auto simp: time_sub_def saturate64_def)

definition after_cleanup :: "gotime \<Rightarrow> duration \<Rightarrow> service_instance \<Rightarrow> service_instance option" where
  "after_cleanup now d i =
     (let elapsed = now - si_LastHeartbeat i in
      if 2 * d < elapsed then None
      else if d < elapsed \<and> si_Status i = StatusHealthy then Some (i\<lparr>si_Status := StatusUnhealthy\<rparr>)
      else Some i)"

lemma cleanup_instances:
  assumes inv: "reg_inv r" and ks: "range_order ks (instances r)" and ord: "routes_orders r ord"
    and d: "0 \<le> HeartbeatTTL (config r)" "HeartbeatTTL (config r) < 2 ^ 62"
  shows "instances (cleanup r now ks ord) x =
           Option.bind (instances r x) (after_cleanup now (HeartbeatTTL (config r)))"
proof -
  have "instances (cleanup r now ks ord) = live (spec_expire now (abs_registry r))"
    by (simp flip: cleanup_refines_spec [OF inv ks ord])
  then show ?thesis
    by (cases "instances r x")
       (simp_all add: spec_expire_def spec_remove_def Let_def restrict_map_def
          mark_late_def after_cleanup_def expired_iff [OF d] late_iff [OF d])
qed

lemma cleanup_routes:
  assumes inv: "reg_inv r" and ks: "range_order ks (instances r)" and ord: "routes_orders r ord"
  shows "routes (cleanup r now ks ord) =
           owned_routes (live_services (instances (cleanup r now ks ord))) (routes r)"
proof -
  have "live (spec_expire now (abs_registry r)) = instances (cleanup r now ks ord)"
    and "table (spec_expire now (abs_registry r)) = routes (cleanup r now ks ord)"
    by (simp_all flip: cleanup_refines_spec [OF inv ks ord])
  then show ?thesis by (simp add: spec_expire_def spec_remove_def Let_def)
qed

subsection \<open>A concrete registry\<close>

text \<open>One instance of one service, registered at time 0 on an empty registry.\<close>

lemma Register_check_fresh:
  assumes "valid_request req" and "rr_HealthURL req \<noteq> []"
  shows "Register_check (NewRegistry cfg) req (\<lambda>_. []) = Inr req"
proof -
  have "ValidateRoutes (NewRegistry cfg) svc base (\<lambda>_. []) j rts = []" for svc base j rts
    by (induction rts arbitrary: j)
       (simp_all add: Let_def checkExactCollision_def checkPatternCollision_def NewRegistry_def)
  with assms show ?thesis by (simp add: Register_check_def Validate_def valid_request_def)
qed

definition sample_route :: route where
  "sample_route = \<lparr>Method = ''GET'', Path = ''/users'', Public = False, RateLimit = 0, Scopes = []\<rparr>"

definition sample_request :: "string \<Rightarrow> register_request" where
  "sample_request svc =
     \<lparr>rr_ServiceName = svc, rr_Host = ''10.0.0.1'', rr_Port = 8081, rr_HealthURL = ''/health'',
      rr_Version = ''1.0.0'', rr_BasePath = ''/api'', rr_Routes = [sample_route],
      rr_Metadata = Map.empty\<rparr>"

lemma sample_request_sel [simp]:
  "rr_ServiceName (sample_request svc) = svc"
  "rr_Routes (sample_request svc) = [sample_route]"
  "rr_BasePath (sample_request svc) = ''/api''"
  "rr_HealthURL (sample_request svc) = ''/health''"
  by (simp_all add: sample_request_def)

lemma sample_request_valid: "svc \<noteq> [] \<Longrightarrow> valid_request (sample_request svc)"
  by (simp add: valid_request_def sample_request_def)

definition sample_config :: "duration \<Rightarrow> registry_config" where
  "sample_config d =
     \<lparr>HeartbeatTTL = d, HealthCheckInterval = 10 * second,
      AllowSameServiceOverwrite = False, StrictPatternMatching = False\<rparr>"

definition sample_registry :: "registry_config \<Rightarrow> registry" where
  "sample_registry cfg =
     fst (Register_commit (NewRegistry cfg) (sample_request ''svc-a'') ''id-a'' 0)"

abbreviation sample_key :: string where
  "sample_key \<equiv> Key sample_route ''/api''"

abbreviation sample_instance :: service_instance where
  "sample_instance \<equiv> new_instance (sample_request ''svc-a'') ''id-a'' 0"

lemma empty_orders: "routes_orders (NewRegistry cfg) (\<lambda>_. [])"
  by (simp add: routes_orders_def range_order_def NewRegistry_def)

lemma sample_step: "reg_step (NewRegistry cfg) (sample_registry cfg)"
proof -
  have "Register (NewRegistry cfg) (sample_request ''svc-a'') (\<lambda>_. []) ''id-a'' 0 =
      (sample_registry cfg,
       Inr (snd (Register_commit (NewRegistry cfg) (sample_request ''svc-a'') ''id-a'' 0)))"
    by (simp add: Register_def Register_check_fresh sample_request_valid sample_registry_def case_prod_beta)
  then show ?thesis
    using step_register [OF _ empty_orders] by (auto simp: NewRegistry_def)
qed

lemma sample_inv: "reg_inv (sample_registry cfg)"
  using reg_step_inv [OF sample_step reg_inv_NewRegistry] .

lemma sample_registry_sel:
  "instances (sample_registry cfg) = [''id-a'' \<mapsto> sample_instance]"
  "routes (sample_registry cfg) = [sample_key \<mapsto> entry_of (sample_request ''svc-a'') 0 sample_route]"
  "services (sample_registry cfg) = [''svc-a'' \<mapsto> [''id-a'']]"
  "config (sample_registry cfg) = cfg"
  "stopped (sample_registry cfg) = False"
  by (simp_all add: sample_registry_def NewRegistry_def Let_def Key_def entry_of_def
      Register_commit_def new_instance_def)

lemma sample_orders:
  "range_order [''id-a''] (instances (sample_registry cfg))"
  "routes_orders (sample_registry cfg) (\<lambda>_. [sample_key])"
  by (simp_all add: range_order_def routes_orders_def sample_registry_sel)

text \<open>
  The race: two services submit the same route, both checks run on the empty registry, then
  both commits.
\<close>

definition race_before :: "registry_config \<Rightarrow> reg_sys" where
  "race_before cfg =
     \<lparr>reg = fst (Register_commit (NewRegistry cfg) (sample_request ''svc-a'') ''id-a'' 0),
      pending = [1 \<mapsto> sample_request ''svc-b'']\<rparr>"

definition race_after :: "registry_config \<Rightarrow> reg_sys" where
  "race_after cfg =
     \<lparr>reg = fst (Register_commit (reg (race_before cfg)) (sample_request ''svc-b'') ''id-b'' 1),
      pending = Map.empty\<rparr>"

lemma race_run: "sys_step\<^sup>*\<^sup>* (new_sys cfg) (race_before cfg)"
proof -
  let ?qa = "sample_request ''svc-a''" and ?qb = "sample_request ''svc-b''"
  let ?s1 = "(new_sys cfg)\<lparr>pending := [0 \<mapsto> ?qa]\<rparr>"
  let ?s2 = "?s1\<lparr>pending := [0 \<mapsto> ?qa, 1 \<mapsto> ?qb]\<rparr>"
  note orders = empty_orders [of cfg]
  have check: "Register_check (NewRegistry cfg) (sample_request svc) (\<lambda>_. []) = Inr (sample_request svc)"
    if "svc \<noteq> []" for svc
    using that by (simp add: Register_check_fresh sample_request_valid)
  have "sys_step (new_sys cfg) ?s1"
    using sys_check [of "new_sys cfg" 0 "\<lambda>_. []" ?qa ?qa] orders check by (simp add: new_sys_def)
  moreover have "sys_step ?s1 ?s2"
    using sys_check [of ?s1 1 "\<lambda>_. []" ?qb ?qb] orders check by (simp add: new_sys_def)
  moreover have "race_before cfg = ?s2\<lparr>reg := fst (Register_commit (reg ?s2) ?qa ''id-a'' 0),
      pending := (pending ?s2)(0 := None)\<rparr>"
    by (simp add: race_before_def new_sys_def fun_eq_iff)
  then have "sys_step ?s2 (race_before cfg)"
    using sys_commit [of ?s2 0 ?qa "''id-a''" 0] by (simp add: new_sys_def NewRegistry_def)
  ultimately show ?thesis by (auto intro: rtranclp.intros)
qed

lemma race_last: "sys_step (race_before cfg) (race_after cfg)"
proof -
  let ?s = "race_before cfg" and ?qb = "sample_request ''svc-b''"
  have "race_after cfg = ?s\<lparr>reg := fst (Register_commit (reg ?s) ?qb ''id-b'' 1),
      pending := (pending ?s)(1 := None)\<rparr>"
    by (simp add: race_after_def race_before_def)
  then show ?thesis
    using sys_commit [of ?s 1 ?qb "''id-b''" 1] by (simp add: race_before_def NewRegistry_def)
qed

lemma race_routes:
  "routes (reg (race_before cfg)) (Key sample_route ''/api'') =
     Some (entry_of (sample_request ''svc-a'') 0 sample_route)"
  "routes (reg (race_after cfg)) (Key sample_route ''/api'') =
     Some (entry_of (sample_request ''svc-b'') 1 sample_route)"
  by (simp_all add: race_before_def race_after_def Let_def Key_def entry_of_def)

lemma race_live: "''svc-a'' \<in> live_services (instances (reg (race_after cfg)))"
proof -
  have "instances (reg (race_after cfg)) ''id-a'' =
      Some (new_instance (sample_request ''svc-a'') ''id-a'' 0)"
    by (simp add: race_before_def race_after_def)
  then show ?thesis unfolding live_services_iff by fastforce
qed

subsection \<open>Properties\<close>

text \<open>
  C1. Whatever concurrent callers and the cleanup ticker do, and however their critical
  sections interleave, every reachable state is consistent: instances, the service index and
  the route table agree, and no route is left whose service has no live instance.
\<close>

theorem registry_consistent:
  assumes "sys_step\<^sup>*\<^sup>* (new_sys cfg) s"
  shows "reg_inv (reg s) \<and>
    (\<forall>k e. routes (reg s) k = Some e \<longrightarrow> GetInstances (reg s) (re_ServiceName e) \<noteq> [])"
proof -
  have inv: "reg_inv (reg s)" by (rule reachable_inv [OF assms])
  moreover have "GetInstances (reg s) (re_ServiceName e) \<noteq> []" if "routes (reg s) k = Some e" for k e
  proof -
    from reg_invD(5) [OF inv that] obtain x i
      where "instances (reg s) x = Some i" "si_ServiceName i = re_ServiceName e"
      using reg_inv_services_dom [OF inv] by blast
    then have "i \<in> set (GetInstances (reg s) (re_ServiceName e))"
      using GetInstances_set(1) [OF inv] by blast
    then show ?thesis by auto
  qed
  ultimately show ?thesis by blast
qed

theorem registry_consistent_witness:
  "GetInstances (reg (race_before (sample_config (30 * second)))) ''svc-a'' \<noteq> []"
  using registry_consistent [OF race_run] race_routes(1) by (fastforce)

text \<open>
  C2. With registrations atomic, every run of the registry is a run of the specification
  machine, in which a route lives exactly as long as its service has a live instance.
\<close>

theorem registry_refines_spec:
  assumes "reg_step\<^sup>*\<^sup>* (NewRegistry cfg) r"
  shows "spec_step\<^sup>*\<^sup>* \<lparr>ttl = HeartbeatTTL cfg, live = Map.empty, table = Map.empty\<rparr> (abs_registry r)"
  using reg_sim.run_simulates [OF assms reg_inv_NewRegistry]
  by (simp add: abs_registry_def NewRegistry_def)

theorem registry_refines_spec_witness:
  "spec_step\<^sup>*\<^sup>* \<lparr>ttl = 30 * second, live = Map.empty, table = Map.empty\<rparr>
     (abs_registry (sample_registry (sample_config (30 * second))))"
  using registry_refines_spec [of "sample_config (30 * second)", OF r_into_rtranclp, OF sample_step]
  by (simp add: sample_config_def)

text \<open>
  C8. With registrations atomic, a route stays with the service that registered it for as
  long as that service keeps a live instance.
\<close>

theorem route_owner_stable:
  assumes "(\<lambda>r r'. reg_step r r' \<and> svc \<in> live_services (instances r'))\<^sup>*\<^sup>* r r'"
    and "reg_inv r" and "routes r k = Some e" and "re_ServiceName e = svc"
  shows "\<exists>e'. routes r' k = Some e' \<and> re_ServiceName e' = svc"
proof -
  have "reg_inv r' \<and> (\<exists>e'. routes r' k = Some e' \<and> re_ServiceName e' = svc)"
    using assms(1)
  proof (induction rule: rtranclp_induct)
    case base
    then show ?case using assms(2-4) by blast
  next
    case (step r r')
    then obtain e' where e': "routes r k = Some e'" "re_ServiceName e' = svc" and inv: "reg_inv r"
      by blast
    have "\<exists>f. table (abs_registry r') k = Some f \<and> re_ServiceName f = re_ServiceName e'"
      using step.hyps(2) e' reg_step_simulates [OF _ inv]
      by (intro spec_step_owner [of "abs_registry r"]) (auto simp: abs_registry_def)
    with step.hyps(2) e'(2) show ?case
      using reg_step_inv [OF _ inv] by (auto simp: abs_registry_def)
  qed
  then show ?thesis by blast
qed

theorem route_owner_stable_witness:
  "\<exists>e'. routes (fst (Heartbeat (sample_registry (sample_config (30 * second))) ''id-a'' 7)) sample_key = Some e' \<and>
        re_ServiceName e' = ''svc-a''"
proof -
  let ?r = "sample_registry (sample_config (30 * second))"
  let ?r' = "fst (Heartbeat ?r ''id-a'' 7)"
  have "reg_step ?r ?r'"
    by (intro step_maint step_heartbeat [of _ _ _ _ "snd (Heartbeat ?r ''id-a'' 7)"]) simp
  moreover have "''svc-a'' \<in> live_services (instances ?r')"
    by (fastforce simp: live_services_iff Heartbeat_def sample_registry_sel)
  ultimately show ?thesis
    using route_owner_stable [of "''svc-a''" ?r ?r' sample_key, OF r_into_rtranclp _ _ _]
    by (auto simp: sample_inv sample_registry_sel)
qed

text \<open>
  C30. With the critical sections of two registrations interleaved (both check before either
  commits), a second service takes a route over while the first one stays live: the check
  and the commit of \<^verbatim>\<open>Register\<close> are not one atomic operation.
\<close>

theorem concurrent_registrations_take_over:
  "\<exists>s s' k e e'. sys_step\<^sup>*\<^sup>* (new_sys cfg) s \<and> sys_step s s' \<and>
     routes (reg s) k = Some e \<and> routes (reg s') k = Some e' \<and>
     re_ServiceName e' \<noteq> re_ServiceName e \<and>
     re_ServiceName e \<in> live_services (instances (reg s'))"
  using race_run [of cfg] race_last [of cfg] race_routes [of cfg] race_live [of cfg]
  by (intro exI [of _ "race_before cfg"] exI [of _ "race_after cfg"]
      exI [of _ "Key sample_route ''/api''"]) auto

text \<open>
  C31. Nothing makes an unhealthy instance healthy again: once a cleanup has marked it, it
  stays out of rotation for as long as it is registered, whatever heartbeats arrive.
\<close>

theorem unhealthy_never_recovers:
  assumes "(\<lambda>s s'. sys_step s s' \<and> instances (reg s') x \<noteq> None)\<^sup>*\<^sup>* s s'"
    and "reg_inv (reg s)" and "instances (reg s) x = Some i" and "si_Status i = StatusUnhealthy"
  shows "\<exists>i'. instances (reg s') x = Some i' \<and> si_Status i' = StatusUnhealthy \<and>
              i' \<notin> set (GetHealthyInstances (reg s') (si_ServiceName i))"
proof -
  have "reg_inv (reg s') \<and> (\<exists>i'. instances (reg s') x = Some i' \<and> si_Status i' = StatusUnhealthy)"
    using assms(1)
  proof (induction rule: rtranclp_induct)
    case base
    then show ?case using assms(2-4) by blast
  next
    case (step t u)
    then obtain j k where j: "instances (reg t) x = Some j" "si_Status j = StatusUnhealthy"
      and k: "instances (reg u) x = Some k" and inv: "reg_inv (reg t)" by blast
    from sys_step_instance [OF _ inv j(1) k] step.hyps(2) j(2)
    have "si_Status k = StatusUnhealthy" by auto
    with k step.hyps(2) inv show ?case by (blast intro: sys_step_inv)
  qed
  then show ?thesis by (auto simp: GetHealthyInstances_filter IsHealthy_def)
qed

theorem unhealthy_never_recovers_witness:
  "\<exists>i'. instances (fst (Heartbeat (cleanup (sample_registry (sample_config 30)) 45 [''id-a''] (\<lambda>_. [sample_key])) ''id-a'' 46))
          ''id-a'' = Some i' \<and> si_Status i' = StatusUnhealthy"
proof -
  let ?r = "sample_registry (sample_config 30)"
  let ?c = "cleanup ?r 45 [''id-a''] (\<lambda>_. [sample_key])"
  let ?h = "fst (Heartbeat ?c ''id-a'' 46)"
  let ?s = "\<lparr>reg = ?c, pending = Map.empty\<rparr>" and ?t = "\<lparr>reg = ?h, pending = Map.empty\<rparr>"
  have c: "instances ?c ''id-a'' = Some (sample_instance\<lparr>si_Status := StatusUnhealthy\<rparr>)"
    using cleanup_instances [OF sample_inv sample_orders, of "sample_config 30" 45 "''id-a''"]
    by (simp add: sample_registry_sel sample_config_def after_cleanup_def)
  have "sys_step ?s (?s\<lparr>reg := ?h\<rparr>)"
    by (intro sys_maint step_heartbeat [of _ _ _ _ "snd (Heartbeat ?c ''id-a'' 46)"]) simp
  then have "sys_step ?s ?t" by simp
  moreover have "instances ?h ''id-a'' \<noteq> None" by (simp add: Heartbeat_def c)
  moreover have "reg_inv ?c" by (rule reg_inv_cleanup [OF sample_inv sample_orders])
  ultimately show ?thesis
    using unhealthy_never_recovers [of "''id-a''" ?s ?t, OF r_into_rtranclp] c by auto
qed

text \<open>
  C9. What a cleanup does to each instance (no overflow: a TTL below 146 years): gone after
  twice the TTL without a heartbeat, marked unhealthy after once the TTL, else unchanged; and
  the routes that remain are those whose service kept an instance.
\<close>

theorem cleanup_effect:
  assumes "reg_inv r" and "range_order ks (instances r)" and "routes_orders r ord"
    and "0 \<le> HeartbeatTTL (config r)" and "HeartbeatTTL (config r) < 2 ^ 62"
  shows "instances (cleanup r now ks ord) x =
           Option.bind (instances r x) (after_cleanup now (HeartbeatTTL (config r))) \<and>
         (routes (cleanup r now ks ord) k = Some e \<longleftrightarrow>
           routes r k = Some e \<and>
           (\<exists>y i. instances (cleanup r now ks ord) y = Some i \<and> si_ServiceName i = re_ServiceName e))"
  unfolding cleanup_routes [OF assms(1-3)] owned_routes_Some live_services_iff
  using cleanup_instances [OF assms] by blast

theorem cleanup_effect_witness:
  "instances (cleanup (sample_registry (sample_config 30)) 61 [''id-a''] (\<lambda>_. [sample_key])) ''id-a'' = None \<and>
   routes (cleanup (sample_registry (sample_config 30)) 61 [''id-a''] (\<lambda>_. [sample_key])) sample_key \<noteq>
     Some (entry_of (sample_request ''svc-a'') 0 sample_route)"
proof -
  let ?c = "cleanup (sample_registry (sample_config 30)) 61 [''id-a''] (\<lambda>_. [sample_key])"
  have gone: "instances ?c x = None" for x
    using cleanup_effect [OF sample_inv sample_orders, of "sample_config 30" 61 x]
    by (simp add: sample_registry_sel sample_config_def after_cleanup_def)
  then show ?thesis
    using cleanup_effect [OF sample_inv sample_orders, of "sample_config 30" 61]
    by (simp add: sample_registry_sel sample_config_def)
qed

text \<open>
  The doubled TTL wraps at 64 bits: from \<open>2 ^ 62\<close> ns on, one cleanup removes every
  instance, fresh heartbeats included.
\<close>

lemma cleanup_overflow_removes_all:
  assumes "reg_inv r" and "range_order ks (instances r)" and "routes_orders r ord"
    and "HeartbeatTTL (config r) = 2 ^ 62"
    and "\<And>x i. instances r x = Some i \<Longrightarrow> si_LastHeartbeat i \<le> now"
  shows "instances (cleanup r now ks ord) = Map.empty"
proof -
  have "expired now (2 ^ 62) i" if "instances r x = Some i" for x i
    using assms(5) [OF that] by (simp add: expired_def wrap64_def time_sub_def saturate64_def)
  moreover have "instances (cleanup r now ks ord) = live (spec_expire now (abs_registry r))"
    by (simp flip: cleanup_refines_spec [OF assms(1-3)])
  ultimately show ?thesis
    using assms(4)
    by (auto simp: spec_expire_def spec_remove_def Let_def restrict_map_def fun_eq_iff)
qed

end
