(* ===== verification/Registry_Props.thy ===== *)
theory Registry_Props
  imports Registry_Safety
begin

text \<open>
  The single operations of the registry seen from a caller: what a registration answers and
  what can be looked up after it, when it is refused and with which collisions, strict or not, what
  a deregistration leaves, and what the queries return.
\<close>

subsection \<open>Supporting facts\<close>

lemma ValidateRoutes_exact_only:
  "\<not> StrictPatternMatching (config r) \<Longrightarrow>
     ValidateRoutes r svc base ord j rts =
       List.map_filter (\<lambda>rt. checkExactCollision r svc (Method rt) (FullPath rt base)) rts"
  by (induction rts arbitrary: j) (auto simp: Let_def List.map_filter_simps split: option.splits)

lemma GetRoute_Key: "GetRoute r (Method rt) (FullPath rt b) = routes r (Key rt b)"
  by (simp add: GetRoute_def Key_def)

lemma Validate_same_request:
  assumes "Validate req = Inr req'"
  shows "rr_ServiceName req' = rr_ServiceName req \<and> rr_BasePath req' = rr_BasePath req \<and>
         rr_Routes req' = rr_Routes req \<and> rr_Host req' = rr_Host req \<and> rr_Port req' = rr_Port req"
  using Validate_frame [OF assms] by simp

lemma Validate_error: "\<not> valid_request req \<Longrightarrow> \<exists>msg. Validate req = Inl msg"
  by (auto simp: Validate_def valid_request_def)

lemma after_commit_healthy:
  assumes "reg_inv r" and "instances r x = None"
  shows "new_instance req x now \<in>
           set (GetHealthyInstances (fst (Register_commit r req x now)) (rr_ServiceName req))"
  using GetInstances_set(1) [OF reg_inv_commit [OF assms, of req now], of "rr_ServiceName req"]
  by (auto simp: GetHealthyInstances_filter IsHealthy_def)

lemma GetInstances_empty_iff:
  assumes "reg_inv r"
  shows "GetInstances r s = [] \<longleftrightarrow> (\<forall>x i. instances r x = Some i \<longrightarrow> si_ServiceName i \<noteq> s)"
proof -
  have "GetInstances r s = [] \<longleftrightarrow> set (GetInstances r s) = {}" by simp
  then show ?thesis unfolding GetInstances_set(1) [OF assms] by blast
qed

text \<open>
  What stands in the way of a registration: a route of another service with the same key, or, with
  strict matching and only when there is none, one of the same method whose pattern overlaps.
\<close>

definition collision_of :: "route \<Rightarrow> string \<Rightarrow> collision_type \<Rightarrow> route_entry \<Rightarrow> route_collision" where
  "collision_of rt base kind e =
     \<lparr>rc_Method = Method rt, rc_Path = FullPath rt base, rc_CollisionType = kind,
      rc_RegisteredBy = re_ServiceName e, rc_RegisteredAt = re_RegisteredAt e\<rparr>"

definition taken :: "registry \<Rightarrow> string \<Rightarrow> string \<Rightarrow> route_entry \<Rightarrow> bool" where
  "taken r svc key e \<longleftrightarrow> routes r key = Some e \<and> re_ServiceName e \<noteq> svc"

definition pattern_conflict ::
    "registry \<Rightarrow> string \<Rightarrow> string \<Rightarrow> route \<Rightarrow> string \<Rightarrow> route_collision \<Rightarrow> bool" where
  "pattern_conflict r svc base rt key c \<longleftrightarrow>
     (\<exists>pat e. taken r svc key e \<and> SplitN2 (CHR '':'') key = [Method rt, pat] \<and>
        pathsOverlap (normalizePath (FullPath rt base)) (normalizePath pat) \<and>
        c = collision_of rt base PatternCollision e)"

definition route_conflict :: "registry \<Rightarrow> string \<Rightarrow> string \<Rightarrow> route \<Rightarrow> route_collision \<Rightarrow> bool" where
  "route_conflict r svc base rt c \<longleftrightarrow>
     (if \<exists>e. taken r svc (Key rt base) e
      then \<exists>e. taken r svc (Key rt base) e \<and> c = collision_of rt base ExactCollision e
      else StrictPatternMatching (config r) \<and> (\<exists>key. pattern_conflict r svc base rt key c))"

definition conflict :: "registry \<Rightarrow> string \<Rightarrow> string \<Rightarrow> route list \<Rightarrow> route_collision \<Rightarrow> bool" where
  "conflict r svc base rts c \<longleftrightarrow> (\<exists>rt \<in> set rts. route_conflict r svc base rt c)"

lemma checkExactCollision_Key:
  "checkExactCollision r svc (Method rt) (FullPath rt base) =
     (case routes r (Key rt base) of
        Some e \<Rightarrow> if re_ServiceName e = svc then None else Some (collision_of rt base ExactCollision e)
      | None \<Rightarrow> None)"
  by (simp add: checkExactCollision_def Key_def collision_of_def split: option.split)

lemma pattern_collisions:
  "c \<in> set (pattern_collision_loop r svc (Method rt) (FullPath rt base) ks) \<longleftrightarrow>
     (\<exists>key \<in> set ks. pattern_conflict r svc base rt key c)"
proof (induction ks)
  case (Cons k ks)
  have "c \<in> set (pattern_collision_loop r svc (Method rt) (FullPath rt base) (k # ks)) \<longleftrightarrow>
      pattern_conflict r svc base rt k c \<or>
      c \<in> set (pattern_collision_loop r svc (Method rt) (FullPath rt base) ks)"
    by (auto simp: pattern_conflict_def taken_def collision_of_def Let_def split: option.splits list.splits if_splits)
  with Cons show ?case by (simp only: list.set bex_simps)
qed simp

lemma ValidateRoutes_conflicts:
  assumes "routes_orders r ord"
  shows "c \<in> set (ValidateRoutes r svc base ord j rts) \<longleftrightarrow> conflict r svc base rts c"
proof (induction rts arbitrary: j)
  case Nil
  then show ?case by (simp add: conflict_def)
next
  case (Cons rt rts)
  have dom: "(\<exists>key \<in> set (ord j). pattern_conflict r svc base rt key c) \<longleftrightarrow>
      (\<exists>key. pattern_conflict r svc base rt key c)"
    using routes_orders_dom [OF assms, of j] by (auto simp: pattern_conflict_def taken_def)
  have "c \<in> set (ValidateRoutes r svc base ord j (rt # rts)) \<longleftrightarrow>
      route_conflict r svc base rt c \<or> c \<in> set (ValidateRoutes r svc base ord (Suc j) rts)"
  proof (cases "\<exists>e. taken r svc (Key rt base) e")
    case True
    then show ?thesis by (auto simp: route_conflict_def taken_def checkExactCollision_Key Let_def)
  next
    case False
    then have "checkExactCollision r svc (Method rt) (FullPath rt base) = None"
      by (auto simp: checkExactCollision_Key taken_def split: option.split)
    with False show ?thesis
      by (simp add: route_conflict_def checkPatternCollision_def pattern_collisions dom Let_def)
  qed
  with Cons show ?case by (simp add: conflict_def)
qed

lemma distinct_singleton: "distinct xs \<Longrightarrow> set xs = {a} \<Longrightarrow> xs = [a]"
  by (cases xs) (auto simp: subset_singleton_iff)

definition strict_sample :: registry_config where
  "strict_sample = (sample_config 30)\<lparr>StrictPatternMatching := True\<rparr>"

subsection \<open>Properties\<close>

text \<open>
  C22. An accepted registration answers with the new instance id, the TTL in seconds and the keys of
  its routes.  Afterwards each of its routes is looked up with exactly the data of the request --
  service, base path, the route itself with its scopes and its visibility, the time; where the
  request lists a route twice the last one counts --; its instance is found by its id and in
  rotation, with every field of the request (\<^verbatim>\<open>/health\<close> for a missing health URL), healthy, of
  weight one; and no other instance and no other route has changed.
\<close>

theorem register_then_lookup:
  assumes "reg_inv r" and "instances r x = None"
    and "Register r req ord x now = (r', Inr resp)"
  shows "valid_request req \<and> InstanceID resp = x \<and>
    HeartbeatInterval resp = int_Seconds (HeartbeatTTL (config r)) \<and>
    RegisteredRoutes resp = map (\<lambda>rt. Key rt (rr_BasePath req)) (rr_Routes req) \<and>
    (\<forall>rt \<in> set (rr_Routes req).
       GetRoute r' (Method rt) (FullPath rt (rr_BasePath req)) =
         Some \<lparr>re_ServiceName = rr_ServiceName req, re_BasePath = rr_BasePath req,
               re_Route = last (filter (\<lambda>rt'. Key rt' (rr_BasePath req) = Key rt (rr_BasePath req)) (rr_Routes req)),
               re_RegisteredAt = now\<rparr>) \<and>
    (\<exists>i \<in> set (GetHealthyInstances r' (rr_ServiceName req)). GetInstance r' x = Some i \<and>
       i = \<lparr>si_ID = x, si_ServiceName = rr_ServiceName req, si_Host = rr_Host req, si_Port = rr_Port req,
            si_HealthURL = (if rr_HealthURL req = [] then ''/health'' else rr_HealthURL req),
            si_Version = rr_Version req, si_Status = StatusHealthy, si_Weight = 1,
            si_Metadata = rr_Metadata req, si_RegisteredAt = now, si_LastHeartbeat = now\<rparr>) \<and>
    (\<forall>y. y \<noteq> x \<longrightarrow> GetInstance r' y = GetInstance r y) \<and>
    (\<forall>k. k \<notin> set (RegisteredRoutes resp) \<longrightarrow> routes r' k = routes r k)"
proof -
  from assms(3) obtain req' where ok: "Register_check r req ord = Inr req'"
    and r': "r' = fst (Register_commit r req' x now)"
    and resp: "resp = snd (Register_commit r req' x now)"
    by (rule Register_ok)
  note valid = Validate_Inr [OF Register_check_ok(1) [OF ok]]
  then have req': "req' = req\<lparr>rr_HealthURL := (if rr_HealthURL req = [] then ''/health'' else rr_HealthURL req)\<rparr>"
    by blast
  have hit: "GetRoute r' (Method rt) (FullPath rt (rr_BasePath req)) =
      Some (entry_of req' now (last (filter (\<lambda>rt'. Key rt' (rr_BasePath req) = Key rt (rr_BasePath req)) (rr_Routes req))))"
    if "rt \<in> set (rr_Routes req)" for rt
    using register_routes_last [of rt "rr_Routes req'" req' now "routes r" "[]"] that
    by (simp add: GetRoute_Key r' req')
  have inst: "new_instance req' x now \<in> set (GetHealthyInstances r' (rr_ServiceName req))"
    "GetInstance r' x = Some (new_instance req' x now)"
    using after_commit_healthy [OF assms(1,2), of req' now] by (simp_all add: r' req' GetInstance_def)
  have "routes r' k = routes r k" if "k \<notin> set (RegisteredRoutes resp)" for k
    using that by (auto simp: r' resp req' intro: register_routes_miss)
  with valid hit inst show ?thesis
    by (auto simp: r' resp req' GetInstance_def entry_of_def new_instance_def)
qed

theorem register_then_lookup_witness:
  "GetRoute (sample_registry (sample_config 30)) ''GET'' ''/api/users'' =
     Some \<lparr>re_ServiceName = ''svc-a'', re_BasePath = ''/api'', re_Route = sample_route, re_RegisteredAt = 0\<rparr>"
proof -
  let ?reg = "Register (NewRegistry (sample_config 30)) (sample_request ''svc-a'') (\<lambda>_. []) ''id-a'' 0"
  have "?reg = (sample_registry (sample_config 30),
       Inr (snd (Register_commit (NewRegistry (sample_config 30)) (sample_request ''svc-a'') ''id-a'' 0)))"
    by (simp add: Register_def Register_check_fresh sample_request_valid sample_registry_def case_prod_beta)
  from register_then_lookup [OF reg_inv_NewRegistry _ this]
  show ?thesis by (simp add: NewRegistry_def sample_route_def FullPath_def)
qed

text \<open>
  C23. A registration is refused exactly when its request is invalid or one of its routes is
  taken: registered by another service under the same key, or -- with strict matching -- under
  an overlapping pattern of the same method.  The error then reports exactly these conflicts,
  whatever the order in which the routes are visited, an exact one first and then without the
  patterns of the same route; without strict matching one per taken route in the order of the
  request.  A refused registration changes nothing.
\<close>

theorem register_refusals:
  assumes "routes_orders r ord"
  shows "if \<not> valid_request req then
      (\<exists>msg. Register r req ord x now = (r, Inl (ValidationError msg)))
    else if \<exists>c. conflict r (rr_ServiceName req) (rr_BasePath req) (rr_Routes req) c then
      (\<exists>cs. Register r req ord x now = (r, Inl (CollisionError cs)) \<and>
         set cs = {c. conflict r (rr_ServiceName req) (rr_BasePath req) (rr_Routes req) c} \<and>
         (\<not> StrictPatternMatching (config r) \<longrightarrow>
            cs = List.map_filter (\<lambda>rt. checkExactCollision r (rr_ServiceName req) (Method rt)
                   (FullPath rt (rr_BasePath req))) (rr_Routes req)))
    else (\<exists>r' resp. Register r req ord x now = (r', Inr resp))"
proof (cases "valid_request req")
  case False
  then obtain msg where "Validate req = Inl msg" using Validate_error by blast
  with False show ?thesis by (simp add: Register_def Register_check_def)
next
  case True
  let ?cs = "ValidateRoutes r (rr_ServiceName req) (rr_BasePath req) ord 0 (rr_Routes req)"
  from True obtain req' where v: "Validate req = Inr req'" using Validate_accepts by blast
  have run: "Register r req ord x now =
      (if ?cs \<noteq> [] then (r, Inl (CollisionError ?cs))
       else (let (r', resp) = Register_commit r req' x now in (r', Inr resp)))"
    using v Validate_same_request [OF v] by (simp add: Register_def Register_check_def)
  have set: "set ?cs = {c. conflict r (rr_ServiceName req) (rr_BasePath req) (rr_Routes req) c}"
    using ValidateRoutes_conflicts [OF assms] by blast
  then have some: "?cs \<noteq> [] \<longleftrightarrow> (\<exists>c. conflict r (rr_ServiceName req) (rr_BasePath req) (rr_Routes req) c)"
    using set_empty [of ?cs] by auto
  show ?thesis
    using True set ValidateRoutes_exact_only [of r "rr_ServiceName req" "rr_BasePath req" ord 0 "rr_Routes req"]
    by (auto simp: run some case_prod_beta)
qed

text \<open>A second service registers the same path, and one that a pattern of the first covers.\<close>

theorem register_refusals_witness:
  "(\<exists>c. snd (Register (sample_registry (sample_config 30)) (sample_request ''svc-b'') (\<lambda>_. [sample_key]) ''id-b'' 9) =
       Inl (CollisionError [c]) \<and> rc_RegisteredBy c = ''svc-a'') \<and>
   (\<exists>cs c. snd (Register (sample_registry strict_sample) ((sample_request ''svc-b'')
          \<lparr>rr_Routes := [sample_route\<lparr>Path := ''/:id''\<rparr>]\<rparr>) (\<lambda>_. [sample_key]) ''id-b'' 9) =
       Inl (CollisionError cs) \<and> c \<in> set cs \<and> rc_CollisionType c = PatternCollision)"
proof
  let ?r = "sample_registry (sample_config 30)" and ?req = "sample_request ''svc-b''"
  have orders: "routes_orders (sample_registry cfg) (\<lambda>_. [sample_key])" for cfg
    by (simp add: routes_orders_def range_order_def sample_registry_sel)
  have key: "''GET:/api/users'' = sample_key" by (simp add: Key_def sample_route_def FullPath_def)
  have exact: "checkExactCollision ?r ''svc-b'' (Method sample_route) (FullPath sample_route ''/api'') =
      Some (collision_of sample_route ''/api'' ExactCollision (entry_of (sample_request ''svc-a'') 0 sample_route))"
    by (simp add: checkExactCollision_Key sample_registry_sel)
  have "conflict ?r ''svc-b'' ''/api'' [sample_route]
      (collision_of sample_route ''/api'' ExactCollision (entry_of (sample_request ''svc-a'') 0 sample_route))"
    by (simp add: conflict_def route_conflict_def taken_def sample_registry_sel entry_of_def)
  then show "\<exists>c. snd (Register ?r ?req (\<lambda>_. [sample_key]) ''id-b'' 9) = Inl (CollisionError [c]) \<and>
      rc_RegisteredBy c = ''svc-a''"
    using register_refusals [OF orders, of ?req "sample_config 30" "''id-b''" 9] exact
    by (auto simp: sample_registry_sel sample_config_def sample_request_valid List.map_filter_simps collision_of_def
        split: if_splits)
  let ?s = "sample_registry strict_sample" and ?rt = "sample_route\<lparr>Path := ''/:id''\<rparr>"
  let ?req2 = "(sample_request ''svc-b'')\<lparr>rr_Routes := [?rt]\<rparr>"
  let ?c = "collision_of ?rt ''/api'' PatternCollision (entry_of (sample_request ''svc-a'') 0 sample_route)"
  have valid: "valid_request ?req2" by (simp add: valid_request_def sample_request_def)
  have split: "SplitN2 (CHR '':'') sample_key = [''GET'', ''/api/users'']"
    "pathsOverlap (normalizePath (FullPath ?rt ''/api'')) (normalizePath ''/api/users'')"
    "Key ?rt ''/api'' \<noteq> sample_key"
    unfolding key [symmetric] by (simp_all add: FullPath_def sample_route_def Key_def) code_simp+
  have "conflict ?s ''svc-b'' ''/api'' [?rt] ?c"
    using split by (simp add: conflict_def route_conflict_def pattern_conflict_def taken_def sample_registry_sel
        strict_sample_def entry_of_def) (simp add: sample_route_def)
  then have "\<exists>cs. snd (Register ?s ?req2 (\<lambda>_. [sample_key]) ''id-b'' 9) = Inl (CollisionError cs) \<and> ?c \<in> set cs"
    using register_refusals [OF orders, of ?req2 strict_sample "''id-b''" 9] valid
    by (auto split: if_splits)
  moreover have "rc_CollisionType ?c = PatternCollision" by (simp add: collision_of_def)
  ultimately show "\<exists>cs c. snd (Register ?s ?req2 (\<lambda>_. [sample_key]) ''id-b'' 9) = Inl (CollisionError cs) \<and>
      c \<in> set cs \<and> rc_CollisionType c = PatternCollision" by blast
qed

text \<open>
  C24. A deregistration of an unknown id is an error and changes nothing; otherwise exactly
  that instance is gone, and the routes of its service are gone exactly when it was the last.
\<close>

theorem deregister_effect:
  assumes "reg_inv r" and "range_order ks (routes r)"
  shows "case instances r x of
      None \<Rightarrow> Deregister r x ks = (r, Some ErrInstanceNotFound)
    | Some i \<Rightarrow> \<exists>r'. Deregister r x ks = (r', None) \<and>
        instances r' = (instances r)(x := None) \<and>
        routes r' = (if GetInstances r' (si_ServiceName i) = []
                     then drop_service (si_ServiceName i) (routes r) else routes r)"
proof (cases "instances r x")
  case None
  then show ?thesis by (simp add: Deregister_eq)
next
  case (Some i)
  let ?r = "removeInstanceLocked r x ks" and ?s = "si_ServiceName i"
  have ks: "dom (routes r) \<subseteq> set ks" using assms(2) by (simp add: range_order_def)
  note sel = removeInstanceLocked_sel [OF assms(1) Some ks]
  have "GetInstances ?r ?s = [] \<longleftrightarrow> remove1 x (get_slice (services r) ?s) = []"
    unfolding GetInstances_empty_iff [OF reg_inv_removeInstanceLocked [OF assms(1) ks]]
      rest_empty_iff [OF assms(1) Some] sel(1) ..
  with Some show ?thesis by (simp add: Deregister_eq sel)
qed

theorem deregister_effect_witness:
  "\<exists>r'. Deregister (sample_registry (sample_config 30)) ''id-a'' [sample_key] = (r', None) \<and> instances r' = Map.empty"
  using deregister_effect [of "sample_registry (sample_config 30)" "[sample_key]" "''id-a''"]
  by (auto simp: sample_inv range_order_def sample_registry_sel)

text \<open>
  C36. The queries are exact on every consistent registry, for every order in which the maps are
  visited: the list of a service holds each of its registered instances once and nothing else,
  and the healthy list those of them that are healthy, in the same order; the services listing
  has one entry per service with an instance, its list; and the listing of the routes is the
  route table.
\<close>

theorem queries_exact:
  assumes "reg_inv r" and "range_order ks (services r)" and "range_order rs (routes r)"
  shows "set (GetInstances r s) = {i. \<exists>x. GetInstance r x = Some i \<and> si_ServiceName i = s} \<and>
         distinct (GetInstances r s) \<and>
         GetHealthyInstances r s = filter IsHealthy (GetInstances r s) \<and>
         GetAllServices r ks s = (if s \<in> dom (services r) then Some (GetInstances r s) else None) \<and>
         (s \<in> dom (services r) \<longleftrightarrow> (\<exists>x i. GetInstance r x = Some i \<and> si_ServiceName i = s)) \<and>
         GetAllRoutes r rs = routes r \<and>
         (\<forall>m p. GetRoute r m p = GetAllRoutes r rs (m @ '':'' @ p))"
proof -
  note insts = GetInstances_set [OF assms(1), of s]
  have live: "s \<in> dom (services r) \<longleftrightarrow> (\<exists>x i. GetInstance r x = Some i \<and> si_ServiceName i = s)"
    unfolding GetInstance_def by (rule reg_inv_services_dom [OF assms(1)])
  have "GetInstances r s \<noteq> []" if "s \<in> dom (services r)"
    using that unfolding live GetInstance_def GetInstances_empty_iff [OF assms(1)] by blast
  then have "GetAllServices r ks s = (if s \<in> dom (services r) then Some (GetInstances r s) else None)"
    using assms(2) by (simp add: GetAllServices_def all_services_loop_eq range_order_def)
  moreover have "GetAllRoutes r rs = routes r" by (rule GetAllRoutes_eq [OF assms(3)])
  moreover from this have "\<forall>m p. GetRoute r m p = GetAllRoutes r rs (m @ '':'' @ p)"
    by (simp add: GetRoute_def)
  ultimately show ?thesis
    using insts live by (simp add: GetHealthyInstances_filter GetInstance_def)
qed

theorem queries_exact_witness:
  "GetInstances (sample_registry (sample_config 30)) ''svc-a'' = [sample_instance] \<and>
   GetAllRoutes (sample_registry (sample_config 30)) [sample_key] = routes (sample_registry (sample_config 30))"
proof -
  let ?r = "sample_registry (sample_config 30)"
  have "range_order [''svc-a''] (services ?r)" "range_order [sample_key] (routes ?r)"
    by (simp_all add: range_order_def sample_registry_sel)
  from queries_exact [OF sample_inv this, of "''svc-a''"] have
    set: "set (GetInstances ?r ''svc-a'') = {i. \<exists>x. GetInstance ?r x = Some i \<and> si_ServiceName i = ''svc-a''}"
    and dist: "distinct (GetInstances ?r ''svc-a'')" and rts: "GetAllRoutes ?r [sample_key] = routes ?r"
    by blast+
  have "set (GetInstances ?r ''svc-a'') = {sample_instance}"
    unfolding set by (auto simp: GetInstance_def sample_registry_sel)
  from dist this have "GetInstances ?r ''svc-a'' = [sample_instance]"
    by (rule distinct_singleton)
  with rts show ?thesis by blast
qed

end
