(* ===== verification/Matcher.thy ===== *)
theory Matcher
  imports Registry_Safety
begin

text \<open>
  The route matcher of \<^verbatim>\<open>internal/infrastructure/proxy/matcher.go\<close>: how a registered pattern
  is matched against the path of a request, and how the route of a request is looked up in the
  registry's table.  The slice expression and the index expression of the matching loop may
  panic, so the loop returns an \<open>outcome\<close>.
\<close>

subsection \<open>Matching one pattern\<close>

fun match_loop ::
    "string list \<Rightarrow> nat \<Rightarrow> string list \<Rightarrow> (string \<rightharpoonup> string) \<Rightarrow> (string \<rightharpoonup> string) option outcome" where
  "match_loop pathSegments i [] params = Ret (Some params)"
| "match_loop pathSegments i (patternSeg # rest) params =
     (if patternSeg = ''*'' then
        (if i \<le> length pathSegments
         then Ret (Some (params(''*'' \<mapsto> Join ''/'' (drop i pathSegments))))
         else Panic)
      else if i \<ge> length pathSegments then Ret None
      else
        (let pathSeg = pathSegments ! i in
         if HasPrefix patternSeg '':'' then
           match_loop pathSegments (Suc i) rest (params(drop 1 patternSeg \<mapsto> pathSeg))
         else if patternSeg \<noteq> pathSeg then Ret None
         else match_loop pathSegments (Suc i) rest params))"

definition matchPathWithParams :: "string \<Rightarrow> string \<Rightarrow> (string \<rightharpoonup> string) option outcome" where
  "matchPathWithParams pattern path =
     (let patternSegments = path_segments pattern; pathSegments = path_segments path in
      if length patternSegments \<noteq> length pathSegments then
        (if length patternSegments > 0 \<and> last patternSegments = ''*'' then
           (if length pathSegments < length patternSegments - 1 then Ret None
            else match_loop pathSegments 0 patternSegments Map.empty)
         else Ret None)
      else match_loop pathSegments 0 patternSegments Map.empty)"

text \<open>
  What the loop computes: the literal and parameter segments before the first star must fit
  the first segments of the path one by one; a star takes the rest of the path, and ends the
  match.
\<close>

definition is_param :: "string \<Rightarrow> bool" where
  "is_param p \<longleftrightarrow> HasPrefix p '':''"

definition seg_matches :: "string \<Rightarrow> string \<Rightarrow> bool" where
  "seg_matches p s \<longleftrightarrow> is_param p \<or> p = s"

definition fixed_part :: "string list \<Rightarrow> string list" where
  "fixed_part ps = takeWhile (\<lambda>p. p \<noteq> ''*'') ps"

definition bind_params :: "string list \<Rightarrow> string list \<Rightarrow> (string \<rightharpoonup> string) \<Rightarrow> (string \<rightharpoonup> string)" where
  "bind_params ps segs params =
     params ++ map_of (rev (map (\<lambda>(p, s). (drop 1 p, s)) (filter (is_param \<circ> fst) (zip ps segs))))"

definition path_matches :: "string list \<Rightarrow> string list \<Rightarrow> bool" where
  "path_matches ps segs \<longleftrightarrow>
     (let fixed = fixed_part ps in
      length fixed \<le> length segs \<and> list_all2 seg_matches fixed (take (length fixed) segs) \<and>
      (length ps = length segs \<or> last ps = ''*'' \<and> length ps - 1 \<le> length segs))"

definition path_bindings :: "string list \<Rightarrow> string list \<Rightarrow> (string \<rightharpoonup> string)" where
  "path_bindings ps segs =
     (let fixed = fixed_part ps; params = bind_params fixed segs Map.empty in
      if ''*'' \<in> set ps then params(''*'' \<mapsto> Join ''/'' (drop (length fixed) segs)) else params)"

lemma fixed_part_simps [simp]:
  "fixed_part [] = []"
  "fixed_part (''*'' # ps) = []"
  "p \<noteq> ''*'' \<Longrightarrow> fixed_part (p # ps) = p # fixed_part ps"
  by (simp_all add: fixed_part_def)

lemma fixed_part_no_star: "''*'' \<notin> set ps \<Longrightarrow> fixed_part ps = ps"
  by (simp add: fixed_part_def takeWhile_eq_all_conv) blast

lemma bind_params_Nil [simp]: "bind_params [] segs m = m" "bind_params ps [] m = m"
  by (simp_all add: bind_params_def)

lemma bind_params_Cons [simp]:
  "bind_params (p # ps) (s # ss) m =
     (if is_param p then bind_params ps ss (m(drop 1 p \<mapsto> s)) else bind_params ps ss m)"
  by (auto simp: bind_params_def map_add_def fun_eq_iff split: option.splits)

lemma match_loop_spec:
  assumes "i \<le> length segs"
  shows "match_loop segs i ps m =
    Ret (let fixed = fixed_part ps; rest = drop i segs in
         if length fixed \<le> length rest \<and> list_all2 seg_matches fixed (take (length fixed) rest)
         then Some (let b = bind_params fixed rest m in
                    if ''*'' \<in> set ps then b(''*'' \<mapsto> Join ''/'' (drop (length fixed) rest)) else b)
         else None)"
  using assms
proof (induction segs i ps m rule: match_loop.induct)
  case (2 segs i p rest m)
  show ?case
  proof (cases "p = ''*'' \<or> i = length segs")
    case True
    with "2.prems" show ?thesis by (auto simp: Let_def)
  next
    case False
    with "2.prems" have less: "i < length segs" and star: "p \<noteq> ''*''" by auto
    from less have dr: "drop i segs = segs ! i # drop (Suc i) segs" by (simp add: Cons_nth_drop_Suc)
    consider "HasPrefix p '':''" | "\<not> HasPrefix p '':''" "p \<noteq> segs ! i" | "\<not> HasPrefix p '':''" "p = segs ! i"
      by blast
    then show ?thesis
    proof cases
      case 1
      have "\<not> length segs \<le> i" "Suc i \<le> length segs" using less by simp_all
      note ih = "2.IH"(1) [OF star this(1) refl 1 this(2)]
      from 1 less star show ?thesis
        by (simp add: ih dr Let_def seg_matches_def is_param_def del: One_nat_def)
    next
      case 2
      with less star show ?thesis by (simp add: dr Let_def seg_matches_def is_param_def)
    next
      case 3
      have "\<not> length segs \<le> i" "\<not> p \<noteq> segs ! i" "Suc i \<le> length segs" using less 3 by simp_all
      note ih = "2.IH"(2) [OF star this(1) refl 3(1) this(2,3)]
      from 3 less star show ?thesis
        by (simp add: ih dr Let_def seg_matches_def is_param_def)
    qed
  qed
qed simp

lemma matchPathWithParams_eq:
  "matchPathWithParams pattern path =
     Ret (if path_matches (path_segments pattern) (path_segments path)
          then Some (path_bindings (path_segments pattern) (path_segments path)) else None)"
  by (auto simp: matchPathWithParams_def Let_def match_loop_spec path_matches_def path_bindings_def)

text \<open>A pattern without a star fits a path segment by segment.\<close>

lemma path_matches_no_star:
  "''*'' \<notin> set ps \<Longrightarrow> ps \<noteq> [] \<Longrightarrow> path_matches ps segs \<longleftrightarrow> list_all2 seg_matches ps segs"
proof -
  assume "''*'' \<notin> set ps" and "ps \<noteq> []"
  then have "last ps \<noteq> ''*''" by (metis last_in_set)
  with \<open>''*'' \<notin> set ps\<close> show ?thesis
    by (cases "length ps = length segs")
       (auto simp: path_matches_def fixed_part_no_star Let_def dest: list_all2_lengthD)
qed

subsection \<open>Looking up the route of a request\<close>

record match_result =
  mr_Entry :: route_entry
  mr_Params :: "(string \<rightharpoonup> string) option"

text \<open>
  A nil map of parameters is \<open>None\<close>; \<open>ks\<close> is the order in which the range over the copied
  table visits the keys.
\<close>

fun match_routes_loop ::
    "string \<Rightarrow> string \<Rightarrow> (string \<rightharpoonup> route_entry) \<Rightarrow> string list \<Rightarrow> match_result option outcome" where
  "match_routes_loop method path tbl [] = Ret None"
| "match_routes_loop method path tbl (key # ks) =
     (case tbl key of
        None \<Rightarrow> match_routes_loop method path tbl ks
      | Some entry \<Rightarrow>
          (case SplitN2 (CHR '':'') key of
             [routeMethod, routePath] \<Rightarrow>
               if routeMethod \<noteq> method then match_routes_loop method path tbl ks
               else (case matchPathWithParams routePath path of
                       Panic \<Rightarrow> Panic
                     | Ret None \<Rightarrow> match_routes_loop method path tbl ks
                     | Ret (Some params) \<Rightarrow>
                         Ret (Some \<lparr>mr_Entry = entry, mr_Params = Some params\<rparr>))
           | _ \<Rightarrow> match_routes_loop method path tbl ks))"

definition MatchRoute ::
    "registry \<Rightarrow> string \<Rightarrow> string \<Rightarrow> string list \<Rightarrow> string list \<Rightarrow> match_result option outcome" where
  "MatchRoute r method path copy_order ks =
     (let tbl = GetAllRoutes r copy_order in
      case tbl (method @ '':'' @ path) of
        Some entry \<Rightarrow> Ret (Some \<lparr>mr_Entry = entry, mr_Params = None\<rparr>)
      | None \<Rightarrow> match_routes_loop method path tbl ks)"

text \<open>The routes that match a request, whatever the order.\<close>

definition candidate :: "registry \<Rightarrow> string \<Rightarrow> string \<Rightarrow> string \<Rightarrow> route_entry \<Rightarrow> bool" where
  "candidate r method path pat e \<longleftrightarrow>
     CHR '':'' \<notin> set method \<and> routes r (method @ '':'' @ pat) = Some e \<and>
     path_matches (path_segments pat) (path_segments path)"

definition found_by ::
    "(string \<rightharpoonup> route_entry) \<Rightarrow> string \<Rightarrow> string \<Rightarrow> string \<Rightarrow> match_result \<Rightarrow> bool" where
  "found_by tbl method path key mr \<longleftrightarrow>
     (\<exists>e pat. tbl key = Some e \<and> SplitN2 (CHR '':'') key = [method, pat] \<and>
        path_matches (path_segments pat) (path_segments path) \<and>
        mr = \<lparr>mr_Entry = e,
              mr_Params = Some (path_bindings (path_segments pat) (path_segments path))\<rparr>)"

lemma match_routes_loop_step:
  "match_routes_loop method path tbl (key # ks) =
     (if \<exists>mr. found_by tbl method path key mr
      then Ret (Some (THE mr. found_by tbl method path key mr))
      else match_routes_loop method path tbl ks)"
  by (auto simp: found_by_def matchPathWithParams_eq split: option.splits list.splits)

lemma match_routes_loop_sound:
  "match_routes_loop method path tbl ks = Ret (Some mr) \<Longrightarrow>
     \<exists>key \<in> set ks. found_by tbl method path key mr"
proof (induction ks)
  case (Cons key ks)
  then show ?case
    by (auto simp: match_routes_loop_step found_by_def simp del: match_routes_loop.simps(2)
        split: if_splits)
qed simp

lemma match_routes_loop_complete:
  "(\<exists>res. match_routes_loop method path tbl ks = Ret res \<and>
      (res = None \<longleftrightarrow> (\<forall>key \<in> set ks. \<not> (\<exists>mr. found_by tbl method path key mr))))"
  by (induction ks) (auto simp: match_routes_loop_step simp del: match_routes_loop.simps(2))

lemma found_by_candidate:
  "(\<exists>key mr. found_by (routes r) method path key mr) \<longleftrightarrow> (\<exists>pat e. candidate r method path pat e)"
  (is "?l \<longleftrightarrow> ?r")
proof
  assume ?l
  then show ?r unfolding found_by_def candidate_def by (metis SplitN2_rejoin append_Cons append_Nil)
next
  assume ?r
  then show ?l unfolding found_by_def candidate_def by (metis SplitN2_key append_Cons append_Nil)
qed

lemma MatchRoute_found:
  assumes "range_order copy_order (routes r)" and "range_order ks (routes r)"
  shows "\<exists>res. MatchRoute r method path copy_order ks = Ret res \<and>
    (case routes r (method @ '':'' @ path) of
       Some e \<Rightarrow> res = Some \<lparr>mr_Entry = e, mr_Params = None\<rparr>
     | None \<Rightarrow>
         (case res of
            None \<Rightarrow> \<not> (\<exists>pat e. candidate r method path pat e)
          | Some mr \<Rightarrow> \<exists>pat. candidate r method path pat (mr_Entry mr) \<and>
              mr_Params mr = Some (path_bindings (path_segments pat) (path_segments path))))"
proof (cases "routes r (method @ '':'' @ path)")
  case (Some e)
  then show ?thesis by (simp add: MatchRoute_def GetAllRoutes_eq [OF assms(1)])
next
  case None
  obtain res where res: "match_routes_loop method path (routes r) ks = Ret res"
    and none: "res = None \<longleftrightarrow> (\<forall>key \<in> set ks. \<not> (\<exists>mr. found_by (routes r) method path key mr))"
    using match_routes_loop_complete by blast
  show ?thesis
  proof (cases res)
    case None': None
    have "key \<in> set ks" if "found_by (routes r) method path key mr" for key mr
      using that assms(2) by (auto simp: found_by_def range_order_def)
    with none None' have "\<not> (\<exists>pat e. candidate r method path pat e)"
      unfolding found_by_candidate [symmetric] by blast
    with None None' res show ?thesis by (simp add: MatchRoute_def GetAllRoutes_eq [OF assms(1)])
  next
    case (Some mr)
    with res obtain key where "found_by (routes r) method path key mr"
      using match_routes_loop_sound by metis
    then obtain e pat where e: "routes r key = Some e" "SplitN2 (CHR '':'') key = [method, pat]"
      "path_matches (path_segments pat) (path_segments path)"
      "mr = \<lparr>mr_Entry = e, mr_Params = Some (path_bindings (path_segments pat) (path_segments path))\<rparr>"
      unfolding found_by_def by blast
    with SplitN2_rejoin [OF e(2)] have "candidate r method path pat (mr_Entry mr)"
      by (simp add: candidate_def)
    with None Some e(4) res show ?thesis
      by (auto simp: MatchRoute_def GetAllRoutes_eq [OF assms(1)])
  qed
qed

subsection \<open>Properties\<close>

text \<open>
  C10. The matcher never panics, and computes what the pattern says: literal segments must be
  equal, a parameter segment binds any one segment, and a star binds the rest of the path.
  A pattern without a star fits exactly the paths that it fits segment by segment.
\<close>

theorem match_path_spec:
  "matchPathWithParams pattern path =
     Ret (if path_matches (path_segments pattern) (path_segments path)
          then Some (path_bindings (path_segments pattern) (path_segments path)) else None) \<and>
   (''*'' \<in> set (path_segments pattern) \<or>
    (path_matches (path_segments pattern) (path_segments path) \<longleftrightarrow>
     list_all2 seg_matches (path_segments pattern) (path_segments path)))"
  using path_matches_no_star [of "path_segments pattern" "path_segments path"]
  by (cases "''*'' \<in> set (path_segments pattern)") (simp_all add: matchPathWithParams_eq)

text \<open>
  C11. Looking up a request never panics, for any two visiting orders; the route registered
  under the very path wins; otherwise the answer is a registered route of the same method
  whose pattern fits, with its bindings; and there is no answer exactly when no route fits.
\<close>

theorem MatchRoute_spec:
  assumes "range_order copy_order (routes r)" and "range_order ks (routes r)"
  shows "\<exists>res. MatchRoute r method path copy_order ks = Ret res \<and>
    (case routes r (method @ '':'' @ path) of
       Some e \<Rightarrow> res = Some \<lparr>mr_Entry = e, mr_Params = None\<rparr>
     | None \<Rightarrow>
         (case res of
            None \<Rightarrow> \<not> (\<exists>pat e. candidate r method path pat e)
          | Some mr \<Rightarrow> \<exists>pat. candidate r method path pat (mr_Entry mr) \<and>
              mr_Params mr = Some (path_bindings (path_segments pat) (path_segments path))))"
  using MatchRoute_found [OF assms] .

theorem MatchRoute_spec_witness:
  "\<exists>res. MatchRoute (sample_registry (sample_config 30)) ''GET'' ''/api/users/'' [sample_key] [sample_key] = Ret res \<and>
     (case res of
        None \<Rightarrow> \<not> (\<exists>pat e. candidate (sample_registry (sample_config 30)) ''GET'' ''/api/users/'' pat e)
      | Some mr \<Rightarrow> \<exists>pat. candidate (sample_registry (sample_config 30)) ''GET'' ''/api/users/'' pat (mr_Entry mr) \<and>
          mr_Params mr = Some (path_bindings (path_segments pat) (path_segments ''/api/users/'')))"
proof -
  have "range_order [sample_key] (routes (sample_registry (sample_config 30)))"
    by (simp add: range_order_def sample_registry_sel)
  moreover have "routes (sample_registry (sample_config 30)) (''GET'' @ '':'' @ ''/api/users/'') = None"
    by (simp add: sample_registry_sel sample_route_def Key_def FullPath_def)
  ultimately show ?thesis
    using MatchRoute_spec [of "[sample_key]" "sample_registry (sample_config 30)" "[sample_key]" "''GET''" "''/api/users/''"]
    by (simp only: option.case)
qed

text \<open>
  A parameter written in braces is a parameter for the collision check only: the pattern
  is normalised to a star, but the matcher takes the braces literally.
\<close>

lemma brace_parameter_is_literal:
  "normalizePath ''/users/{id}'' = normalizePath ''/users/:id'' \<and>
   (\<forall>path. (\<exists>b. matchPathWithParams ''/users/{id}'' path = Ret (Some b)) \<longleftrightarrow>
      path_segments path = [''users'', ''{id}'']) \<and>
   (\<forall>path. (\<exists>b. matchPathWithParams ''/users/:id'' path = Ret (Some b)) \<longleftrightarrow>
      (\<exists>s. path_segments path = [''users'', s]))"
proof -
  have p: "path_segments ''/users/{id}'' = [''users'', ''{id}'']"
    "path_segments ''/users/:id'' = [''users'', '':id'']" by code_simp+
  have n: "normalizePath ''/users/{id}'' = normalizePath ''/users/:id''" by code_simp
  have m: "seg_matches ''users'' s \<longleftrightarrow> s = ''users''" "seg_matches ''{id}'' s \<longleftrightarrow> s = ''{id}''"
    "seg_matches '':id'' s" for s
    by (auto simp: seg_matches_def is_param_def HasPrefix_def)
  show ?thesis
    by (auto simp: n matchPathWithParams_eq p path_matches_no_star list_all2_Cons1 m)
qed

end
