(* ===== verification/Routing.thy ===== *)
theory Routing
  imports Matcher
begin

text \<open>
  The collision check and the matcher together.  Two routes of different services that the
  strict pattern check lets coexist can never both fit a request, so with strict matching the
  service of a request does not depend on the visiting order of the route table; without it,
  or with star segments, it does.
\<close>

subsection \<open>The patterns the check understands\<close>

text \<open>
  A pattern the check and the matcher read alike: no brace parameter (a literal for the
  matcher), no star segment (one segment for the check, any number for the matcher), no
  parameter without a name (a literal for the check).
\<close>

definition plain_pattern :: "string \<Rightarrow> bool" where
  "plain_pattern p \<longleftrightarrow>
     CHR ''{'' \<notin> set p \<and> ''*'' \<notin> set (path_segments p) \<and> '':'' \<notin> set (path_segments p)"

lemma normalize_matching_segment:
  assumes "seg_matches p s" and "p \<noteq> '':''" and "CHR ''/'' \<notin> set p"
  shows "normalizePath p = ''*'' \<or> p = s"
proof (cases "is_param p")
  case True
  then obtain q where "p = CHR '':'' # q" by (cases p) (auto simp: is_param_def HasPrefix_def)
  with assms(2,3) show ?thesis by (auto simp: normalizePath_param)
next
  case False
  with assms(1) show ?thesis by (simp add: seg_matches_def)
qed

text \<open>Completeness of the check: two plain patterns that fit one path overlap.\<close>

lemma overlap_of_common_path:
  assumes p: "plain_pattern p" "path_matches (path_segments p) (path_segments path)"
    and q: "plain_pattern q" "path_matches (path_segments q) (path_segments path)"
  shows "pathsOverlap (normalizePath p) (normalizePath q)"
proof -
  let ?p = "path_segments p" and ?q = "path_segments q" and ?s = "path_segments path"
  have mp: "list_all2 seg_matches ?p ?s" and mq: "list_all2 seg_matches ?q ?s"
    using p q by (simp_all add: plain_pattern_def path_matches_no_star)
  have "seg_compat (normalizePath (?p ! i)) (normalizePath (?q ! i))" if i: "i < length ?p" for i
  proof -
    have len: "i < length ?q" "i < length ?s"
      using i list_all2_lengthD [OF mp] list_all2_lengthD [OF mq] by linarith+
    have a: "seg_matches (?p ! i) (?s ! i)" and b: "seg_matches (?q ! i) (?s ! i)"
      using mp mq i len by (simp_all add: list_all2_conv_all_nth)
    have "?p ! i \<noteq> '':''" "?q ! i \<noteq> '':''"
      using p(1) q(1) i len unfolding plain_pattern_def by (metis nth_mem)+
    moreover have "CHR ''/'' \<notin> set (?p ! i)" "CHR ''/'' \<notin> set (?q ! i)"
      using i len path_segments_slash_free [OF nth_mem] by simp_all
    ultimately show ?thesis
      using normalize_matching_segment [OF a] normalize_matching_segment [OF b]
      unfolding seg_compat_def by metis
  qed
  moreover have "length ?p = length ?q"
    using list_all2_lengthD [OF mp] list_all2_lengthD [OF mq] by linarith
  ultimately have "list_all2 seg_compat (map normalizePath ?p) (map normalizePath ?q)"
    by (simp add: list_all2_conv_all_nth)
  then show ?thesis
    using p(1) q(1) by (simp add: pathsOverlap_iff path_segments_normalizePath plain_pattern_def)
qed

subsection \<open>Tables without overlaps\<close>

text \<open>Methods are HTTP tokens, which contain no colon, and the patterns are plain.\<close>

definition clean_table :: "registry \<Rightarrow> bool" where
  "clean_table r \<longleftrightarrow> (\<forall>k e. routes r k = Some e \<longrightarrow>
     CHR '':'' \<notin> set (Method (re_Route e)) \<and> plain_pattern (FullPath (re_Route e) (re_BasePath e)))"

definition entries_overlap :: "route_entry \<Rightarrow> route_entry \<Rightarrow> bool" where
  "entries_overlap d e \<longleftrightarrow>
     Method (re_Route d) = Method (re_Route e) \<and>
     pathsOverlap (normalizePath (FullPath (re_Route d) (re_BasePath d)))
                  (normalizePath (FullPath (re_Route e) (re_BasePath e)))"

definition disjoint_table :: "registry \<Rightarrow> bool" where
  "disjoint_table r \<longleftrightarrow> (\<forall>j k d e. routes r j = Some d \<longrightarrow> routes r k = Some e \<longrightarrow>
     re_ServiceName d \<noteq> re_ServiceName e \<longrightarrow> \<not> entries_overlap d e)"

lemma entries_overlap_sym: "entries_overlap d e \<longleftrightarrow> entries_overlap e d"
  by (auto simp: entries_overlap_def pathsOverlap_sym)

lemma disjoint_table_mono: "disjoint_table r \<Longrightarrow> routes r' \<subseteq>\<^sub>m routes r \<Longrightarrow> disjoint_table r'"
  unfolding disjoint_table_def map_le_def by (metis domI)

subsection \<open>The strict check keeps the table free of overlaps\<close>

lemma pattern_collision_loop_none:
  assumes "pattern_collision_loop r svc m p ks = []" and "key \<in> set ks"
    and "routes r key = Some e" and "SplitN2 (CHR '':'') key = [m, q]"
    and "re_ServiceName e \<noteq> svc"
  shows "\<not> pathsOverlap (normalizePath p) (normalizePath q)"
  using assms by (induction ks) (auto simp: Let_def split: option.splits if_splits list.splits)

lemma ValidateRoutes_strict:
  assumes "ValidateRoutes r svc base ord j rts = []" and "rt \<in> set rts"
    and "StrictPatternMatching (config r)"
  shows "\<exists>i. checkPatternCollision r svc (Method rt) (FullPath rt base) (ord i) = []"
  using assms
proof (induction rts arbitrary: j)
  case (Cons t rts)
  then show ?case by (cases "rt = t") (auto simp: Let_def split: option.splits)
qed simp

lemma accepted_route_disjoint:
  assumes inv: "reg_inv r" and clean: "clean_table r" and strict: "StrictPatternMatching (config r)"
    and ord: "routes_orders r ord" and ok: "Register_check r req ord = Inr req'"
    and rt: "rt \<in> set (rr_Routes req')" and e: "routes r k = Some e"
    and other: "re_ServiceName e \<noteq> rr_ServiceName req'"
  shows "\<not> entries_overlap (entry_of req' now rt) e"
proof
  assume ov: "entries_overlap (entry_of req' now rt) e"
  let ?q = "FullPath (re_Route e) (re_BasePath e)"
  from ov have m: "Method rt = Method (re_Route e)"
    and pq: "pathsOverlap (normalizePath (FullPath rt (rr_BasePath req'))) (normalizePath ?q)"
    by (simp_all add: entries_overlap_def)
  obtain i where none: "pattern_collision_loop r (rr_ServiceName req') (Method rt)
      (FullPath rt (rr_BasePath req')) (ord i) = []"
    using ValidateRoutes_strict [OF Register_check_ok(2) [OF ok] rt strict]
    by (auto simp: checkPatternCollision_def)
  have mem: "k \<in> set (ord i)"
    using ord e by (auto simp: routes_orders_def intro: range_order_someD)
  have "SplitN2 (CHR '':'') k = [Method rt, ?q]"
    using reg_invD(6) [OF inv e] clean e SplitN2_Key m by (metis clean_table_def)
  from pattern_collision_loop_none [OF none mem e this other] pq show False by blast
qed

lemma maint_step_frame:
  assumes "maint_step r r'" and inv: "reg_inv r"
  shows "routes r' \<subseteq>\<^sub>m routes r \<and> config r' = config r"
  using assms(1)
proof cases
  case (step_deregister ks x res)
  then show ?thesis
    using removeInstanceLocked_routes [OF inv] removeInstanceLocked_instances(2) [OF inv]
    by (auto simp: Deregister_eq map_le_def range_order_def split: if_splits)
next
  case (step_heartbeat x now res)
  then show ?thesis by (auto simp: Heartbeat_def map_le_def split: option.splits)
next
  case (step_tick ks ord now)
  let ?m = "r\<lparr>instances := (\<lambda>x. map_option (mark_late now (HeartbeatTTL (config r))) (instances r x))\<rparr>"
  have m: "reg_inv ?m" by (rule reg_inv_map_instances [OF inv]) simp_all
  have o: "\<And>j. dom (routes ?m) \<subseteq> set (ord j)" using routes_orders_dom [OF step_tick(3)] by simp
  show ?thesis
    using remove_all_spec(3,4) [where r = ?m and ord = ord and j = 0, OF m o]
    unfolding step_tick(1) cleanup_eq [OF step_tick(2)] by (auto simp: map_le_def)
next
  case step_stop
  then show ?thesis by (auto dest!: Stop_sel)
qed

lemma register_disjoint:
  assumes inv: "reg_inv r" and clean: "clean_table r" and strict: "StrictPatternMatching (config r)"
    and disj: "disjoint_table r" and ord: "routes_orders r ord"
    and reg: "Register r req ord x now = (r', res)"
  shows "disjoint_table r'"
proof (cases res)
  case (Inl e)
  with reg Register_failed disj show ?thesis by blast
next
  case (Inr resp)
  with reg obtain req' where ok: "Register_check r req ord = Inr req'"
    and r': "r' = fst (Register_commit r req' x now)"
    by (auto elim: Register_ok)
  have new_or_old: "(\<exists>rt \<in> set (rr_Routes req'). e = entry_of req' now rt) \<or> routes r k = Some e"
    if "routes r' k = Some e" for k e
    using register_routes_cases [of req' now "rr_Routes req'" "routes r" "[]" k e] that
    by (auto simp: r')
  show ?thesis unfolding disjoint_table_def
  proof (intro allI impI)
    fix j k d e
    assume d: "routes r' j = Some d" and e: "routes r' k = Some e"
      and ne: "re_ServiceName d \<noteq> re_ServiceName e"
    from new_or_old [OF d] new_or_old [OF e] show "\<not> entries_overlap d e"
      using ne accepted_route_disjoint [OF inv clean strict ord ok] disj
        entries_overlap_sym disjoint_table_def
      by (metis entry_of_sel(1))
  qed
qed

text \<open>One atomic operation of the registry that leaves a clean table.\<close>

definition clean_step :: "registry \<Rightarrow> registry \<Rightarrow> bool" where
  "clean_step r r' \<longleftrightarrow> reg_step r r' \<and> clean_table r'"

definition strict_inv :: "registry \<Rightarrow> bool" where
  "strict_inv r \<longleftrightarrow>
     reg_inv r \<and> clean_table r \<and> disjoint_table r \<and> StrictPatternMatching (config r)"

lemma Register_config: "Register r req ord x now = (r', res) \<Longrightarrow> config r' = config r"
  by (auto simp: Register_def Let_def case_prod_beta split: sum.splits)

lemma clean_step_inv:
  assumes "clean_step r r'" and "strict_inv r"
  shows "strict_inv r'"
proof -
  from assms have step: "reg_step r r'" and inv: "reg_inv r"
    by (simp_all add: clean_step_def strict_inv_def)
  from step have "disjoint_table r' \<and> config r' = config r"
  proof cases
    case step_maint
    from maint_step_frame [OF this inv] assms(2) show ?thesis
      using disjoint_table_mono by (auto simp: strict_inv_def)
  next
    case (step_register x ord req now res)
    with assms(2) show ?thesis
      using register_disjoint Register_config by (simp add: strict_inv_def) blast
  qed
  with assms reg_step_inv [OF step inv] show ?thesis
    by (simp add: clean_step_def strict_inv_def)
qed

interpretation strict_machine: invariant_system clean_step strict_inv
  by unfold_locales (rule clean_step_inv)

lemma strict_inv_new: "StrictPatternMatching cfg \<Longrightarrow> strict_inv (NewRegistry cfg)"
  using reg_inv_NewRegistry [of cfg]
  by (simp add: strict_inv_def clean_table_def disjoint_table_def NewRegistry_def)

subsection \<open>Two services side by side\<close>

definition path_request :: "string \<Rightarrow> string \<Rightarrow> register_request" where
  "path_request svc p = (sample_request svc)\<lparr>rr_Routes := [sample_route\<lparr>Path := p\<rparr>]\<rparr>"

definition path_entry :: "string \<Rightarrow> string \<Rightarrow> gotime \<Rightarrow> route_entry" where
  "path_entry svc p now = entry_of (path_request svc p) now (sample_route\<lparr>Path := p\<rparr>)"

definition first_service :: "registry_config \<Rightarrow> string \<Rightarrow> registry" where
  "first_service cfg p =
     fst (Register_commit (NewRegistry cfg) (path_request ''svc-a'' p) ''id-a'' 0)"

definition two_services :: "registry_config \<Rightarrow> string \<Rightarrow> string \<Rightarrow> registry" where
  "two_services cfg p q =
     fst (Register_commit (first_service cfg p) (path_request ''svc-b'' q) ''id-b'' 1)"

lemma path_request_sel [simp]:
  "rr_ServiceName (path_request svc p) = svc"
  "rr_Routes (path_request svc p) = [sample_route\<lparr>Path := p\<rparr>]"
  "rr_BasePath (path_request svc p) = ''/api''"
  "rr_HealthURL (path_request svc p) = ''/health''"
  by (simp_all add: path_request_def)

lemma path_request_valid: "svc \<noteq> [] \<Longrightarrow> valid_request (path_request svc p)"
  by (simp add: valid_request_def path_request_def sample_request_def)

lemma path_key: "Key (sample_route\<lparr>Path := p\<rparr>) ''/api'' = ''GET:/api'' @ p"
  by (simp add: Key_def FullPath_append sample_route_def)

lemma first_service_sel [simp]:
  "routes (first_service cfg p) = [''GET:/api'' @ p \<mapsto> path_entry ''svc-a'' p 0]"
  "config (first_service cfg p) = cfg"
  "instances (first_service cfg p) = [''id-a'' \<mapsto> new_instance (path_request ''svc-a'' p) ''id-a'' 0]"
  by (simp_all add: first_service_def NewRegistry_def path_entry_def Let_def FullPath_append
      sample_route_def entry_of_def)

lemma two_services_routes:
  "routes (two_services cfg p q) =
     [''GET:/api'' @ p \<mapsto> path_entry ''svc-a'' p 0, ''GET:/api'' @ q \<mapsto> path_entry ''svc-b'' q 1]"
  by (simp add: two_services_def path_entry_def Let_def FullPath_append sample_route_def entry_of_def)

lemma path_entry_sel [simp]: "re_ServiceName (path_entry svc p now) = svc"
  by (simp add: path_entry_def)

lemma two_services_run:
  assumes "p \<noteq> q"
    and "StrictPatternMatching cfg \<Longrightarrow>
           \<not> pathsOverlap (normalizePath (''/api'' @ q)) (normalizePath (''/api'' @ p))"
  shows "reg_step\<^sup>*\<^sup>* (NewRegistry cfg) (two_services cfg p q)"
proof -
  let ?a = "path_request ''svc-a'' p" and ?b = "path_request ''svc-b'' q"
  let ?r = "first_service cfg p"
  have "Register (NewRegistry cfg) ?a (\<lambda>_. []) ''id-a'' 0 =
      (?r, Inr (snd (Register_commit (NewRegistry cfg) ?a ''id-a'' 0)))"
    by (simp add: Register_def Register_check_fresh path_request_valid case_prod_beta first_service_def)
  then have first: "reg_step (NewRegistry cfg) ?r"
    using step_register [OF _ empty_orders] by (auto simp: NewRegistry_def)
  let ?k = "''GET:/api'' @ p"
  have key: "SplitN2 (CHR '':'') ?k = [''GET'', ''/api'' @ p]"
    using SplitN2_key [of "CHR '':''" "''GET''" "''/api'' @ p"] by simp
  have "checkExactCollision ?r ''svc-b'' ''GET'' (''/api'' @ q) = None"
    using assms(1) by (simp add: checkExactCollision_def)
  moreover have "StrictPatternMatching cfg \<Longrightarrow>
      checkPatternCollision ?r ''svc-b'' ''GET'' (''/api'' @ q) [?k] = []"
    using assms(2) key by (simp add: checkPatternCollision_def Let_def)
  ultimately have "Register_check ?r ?b (\<lambda>_. [?k]) = Inr ?b"
    using path_request_valid [of "''svc-b''" q]
    by (simp add: Register_check_def Validate_def valid_request_def FullPath_append Let_def
        sample_route_def)
  then have "Register ?r ?b (\<lambda>_. [?k]) ''id-b'' 1 =
      (two_services cfg p q, Inr (snd (Register_commit ?r ?b ''id-b'' 1)))"
    by (simp add: Register_def two_services_def case_prod_beta)
  moreover have "routes_orders ?r (\<lambda>_. [?k])"
    by (simp add: routes_orders_def range_order_def)
  ultimately have "reg_step ?r (two_services cfg p q)"
    using step_register [of ?r "''id-b''" "\<lambda>_. [?k]"] by simp
  with first show ?thesis by (meson r_into_rtranclp rtranclp.rtrancl_into_rtrancl)
qed

lemma two_services_orders:
  assumes "p \<noteq> q"
  shows "range_order [''GET:/api'' @ p, ''GET:/api'' @ q] (routes (two_services cfg p q))"
    and "range_order [''GET:/api'' @ q, ''GET:/api'' @ p] (routes (two_services cfg p q))"
  using assms by (auto simp: range_order_def two_services_routes)

lemma two_services_match:
  assumes "p \<noteq> q" and "path \<noteq> ''/api'' @ p" and "path \<noteq> ''/api'' @ q"
    and p: "path_matches (path_segments (''/api'' @ p)) (path_segments path)"
    and q: "path_matches (path_segments (''/api'' @ q)) (path_segments path)"
  shows "\<exists>bp bq.
     MatchRoute (two_services cfg p q) ''GET'' path
       [''GET:/api'' @ p, ''GET:/api'' @ q] [''GET:/api'' @ p, ''GET:/api'' @ q] =
       Ret (Some \<lparr>mr_Entry = path_entry ''svc-a'' p 0, mr_Params = Some bp\<rparr>) \<and>
     MatchRoute (two_services cfg p q) ''GET'' path
       [''GET:/api'' @ p, ''GET:/api'' @ q] [''GET:/api'' @ q, ''GET:/api'' @ p] =
       Ret (Some \<lparr>mr_Entry = path_entry ''svc-b'' q 1, mr_Params = Some bq\<rparr>)"
proof -
  have key: "SplitN2 (CHR '':'') (CHR ''G'' # CHR ''E'' # CHR ''T'' # CHR '':'' # s) = [''GET'', s]" for s
    using SplitN2_key [of "CHR '':''" "''GET''" s] by simp
  show ?thesis
    using assms two_services_orders(1) [OF assms(1)]
    by (simp add: MatchRoute_def GetAllRoutes_eq two_services_routes key matchPathWithParams_eq)
qed

lemma two_services_ambiguous:
  assumes "p \<noteq> q" and "path \<noteq> ''/api'' @ p" and "path \<noteq> ''/api'' @ q"
    and "path_matches (path_segments (''/api'' @ p)) (path_segments path)"
    and "path_matches (path_segments (''/api'' @ q)) (path_segments path)"
  shows "\<exists>c k1 k2 m1 m2. range_order c (routes (two_services cfg p q)) \<and>
      range_order k1 (routes (two_services cfg p q)) \<and> range_order k2 (routes (two_services cfg p q)) \<and>
      MatchRoute (two_services cfg p q) ''GET'' path c k1 = Ret (Some m1) \<and>
      re_ServiceName (mr_Entry m1) = ''svc-a'' \<and>
      MatchRoute (two_services cfg p q) ''GET'' path c k2 = Ret (Some m2) \<and>
      re_ServiceName (mr_Entry m2) = ''svc-b''"
proof -
  from two_services_match [OF assms, of cfg] obtain bp bq where
    "MatchRoute (two_services cfg p q) ''GET'' path
       [''GET:/api'' @ p, ''GET:/api'' @ q] [''GET:/api'' @ p, ''GET:/api'' @ q] =
       Ret (Some \<lparr>mr_Entry = path_entry ''svc-a'' p 0, mr_Params = Some bp\<rparr>)"
    "MatchRoute (two_services cfg p q) ''GET'' path
       [''GET:/api'' @ p, ''GET:/api'' @ q] [''GET:/api'' @ q, ''GET:/api'' @ p] =
       Ret (Some \<lparr>mr_Entry = path_entry ''svc-b'' q 1, mr_Params = Some bq\<rparr>)" by blast
  moreover note two_services_orders [OF assms(1), of cfg]
  ultimately show ?thesis by (metis match_result.select_convs(1) path_entry_sel)
qed

definition strict_config :: registry_config where
  "strict_config = (sample_config (30 * second))\<lparr>StrictPatternMatching := True\<rparr>"

subsection \<open>Which service a request reaches\<close>

text \<open>What \<open>MatchRoute\<close> may answer, in terms of the table alone.\<close>

definition routed :: "registry \<Rightarrow> string \<Rightarrow> string \<Rightarrow> match_result option \<Rightarrow> bool" where
  "routed r method path res \<longleftrightarrow>
    (case routes r (method @ '':'' @ path) of
       Some e \<Rightarrow> res = Some \<lparr>mr_Entry = e, mr_Params = None\<rparr>
     | None \<Rightarrow>
         (case res of
            None \<Rightarrow> \<not> (\<exists>pat e. candidate r method path pat e)
          | Some mr \<Rightarrow> \<exists>pat. candidate r method path pat (mr_Entry mr)))"

lemma MatchRoute_routed:
  assumes "range_order c (routes r)" and "range_order ks (routes r)"
  shows "\<exists>res. MatchRoute r method path c ks = Ret res \<and> routed r method path res"
  using MatchRoute_found [OF assms, of "method" "path"] by (fastforce simp: routed_def split: option.splits)

lemma candidates_overlap:
  assumes inv: "strict_inv r"
    and p: "candidate r method path p d" and q: "candidate r method path q e"
  shows "re_ServiceName d = re_ServiceName e"
proof (rule ccontr)
  assume ne: "re_ServiceName d \<noteq> re_ServiceName e"
  have pat: "Method (re_Route f) = method \<and> FullPath (re_Route f) (re_BasePath f) = pat \<and> plain_pattern pat"
    if "candidate r method path pat f" for pat f
  proof -
    from that have f: "routes r (method @ '':'' @ pat) = Some f" and m: "CHR '':'' \<notin> set method"
      by (simp_all add: candidate_def)
    from inv have clean: "clean_table r" and "reg_inv r" by (simp_all add: strict_inv_def)
    have "method @ '':'' @ pat = Key (re_Route f) (re_BasePath f)"
      using reg_invD(6) [OF \<open>reg_inv r\<close> f] .
    moreover have m': "CHR '':'' \<notin> set (Method (re_Route f))"
      and plain: "plain_pattern (FullPath (re_Route f) (re_BasePath f))"
      using clean f by (auto simp: clean_table_def)
    ultimately have "method = Method (re_Route f) \<and> pat = FullPath (re_Route f) (re_BasePath f)"
      unfolding Key_def key_inject [OF m m'] by blast
    with plain show ?thesis by simp
  qed
  from p q have "path_matches (path_segments p) (path_segments path)"
    "path_matches (path_segments q) (path_segments path)" by (simp_all add: candidate_def)
  with pat [OF p] pat [OF q] have "entries_overlap d e"
    by (simp add: entries_overlap_def overlap_of_common_path)
  moreover have "\<not> entries_overlap d e"
    using inv p q ne unfolding strict_inv_def disjoint_table_def candidate_def by metis
  ultimately show False by blast
qed

lemma routed_unique:
  assumes inv: "strict_inv r" and s1: "routed r method path m1" and s2: "routed r method path m2"
  shows "map_option (re_ServiceName \<circ> mr_Entry) m1 = map_option (re_ServiceName \<circ> mr_Entry) m2"
proof (cases "routes r (method @ '':'' @ path)")
  case (Some e)
  with s1 s2 show ?thesis by (simp add: routed_def)
next
  case None
  with s1 s2 show ?thesis
    by (cases m1; cases m2) (auto simp: routed_def dest: candidates_overlap [OF inv])
qed

subsection \<open>Properties\<close>

text \<open>
  C26. With strict pattern matching, atomic registrations and plain patterns, the service a
  request is routed to does not depend on the order in which the matcher visits the table:
  any two look-ups agree on whether there is a route and on its service.
\<close>

theorem strict_routing_deterministic:
  assumes "StrictPatternMatching cfg" and "clean_step\<^sup>*\<^sup>* (NewRegistry cfg) r"
    and "range_order c1 (routes r)" "range_order k1 (routes r)"
    and "range_order c2 (routes r)" "range_order k2 (routes r)"
  shows "\<exists>m1 m2. MatchRoute r method path c1 k1 = Ret m1 \<and> MatchRoute r method path c2 k2 = Ret m2 \<and>
    map_option (re_ServiceName \<circ> mr_Entry) m1 = map_option (re_ServiceName \<circ> mr_Entry) m2"
proof -
  have inv: "strict_inv r"
    using strict_machine.run_keeps [OF assms(2) strict_inv_new [OF assms(1)]] .
  obtain m1 where m1: "MatchRoute r method path c1 k1 = Ret m1" and s1: "routed r method path m1"
    using MatchRoute_routed [OF assms(3,4)] by blast
  obtain m2 where m2: "MatchRoute r method path c2 k2 = Ret m2" and s2: "routed r method path m2"
    using MatchRoute_routed [OF assms(5,6)] by blast
  from routed_unique [OF inv s1 s2] m1 m2 show ?thesis by blast
qed

theorem strict_routing_deterministic_witness:
  "\<exists>m1 m2. MatchRoute (sample_registry strict_config) ''GET'' ''/api/users'' [sample_key] [sample_key] = Ret m1 \<and>
     MatchRoute (sample_registry strict_config) ''GET'' ''/api/users'' [sample_key] [sample_key] = Ret m2 \<and>
     map_option (re_ServiceName \<circ> mr_Entry) m1 = map_option (re_ServiceName \<circ> mr_Entry) m2"
proof -
  have "plain_pattern ''/api/users''" by code_simp
  then have "clean_table (sample_registry strict_config)"
    by (simp add: clean_table_def sample_registry_sel sample_route_def FullPath_def)
  with sample_step [of strict_config]
  have run: "clean_step\<^sup>*\<^sup>* (NewRegistry strict_config) (sample_registry strict_config)"
    by (simp add: clean_step_def r_into_rtranclp)
  have ord: "range_order [sample_key] (routes (sample_registry strict_config))"
    by (simp add: range_order_def sample_registry_sel)
  show ?thesis
    using strict_routing_deterministic [OF _ run ord ord ord ord, of "''GET''" "''/api/users''"]
    by (simp add: strict_config_def)
qed

text \<open>
  The server never turns strict matching on; then two services may register patterns that
  fit one path, and which of them gets a request is decided by the order in which a map is
  visited: the same registry, reached by two accepted registrations, routes the same request
  to either.
\<close>

lemma lenient_routing_ambiguous:
  "let r = two_services (sample_config d) ''/users/:id'' ''/:kind/1'' in
   reg_step\<^sup>*\<^sup>* (NewRegistry (sample_config d)) r \<and>
   (\<exists>c k1 k2 m1 m2. range_order c (routes r) \<and> range_order k1 (routes r) \<and> range_order k2 (routes r) \<and>
      MatchRoute r ''GET'' ''/api/users/1'' c k1 = Ret (Some m1) \<and>
      re_ServiceName (mr_Entry m1) = ''svc-a'' \<and>
      MatchRoute r ''GET'' ''/api/users/1'' c k2 = Ret (Some m2) \<and>
      re_ServiceName (mr_Entry m2) = ''svc-b'')"
proof -
  have "path_matches (path_segments ''/api/users/:id'') (path_segments ''/api/users/1'')"
    "path_matches (path_segments ''/api/:kind/1'') (path_segments ''/api/users/1'')" by code_simp+
  then have m: "path_matches (path_segments (''/api'' @ ''/users/:id'')) (path_segments ''/api/users/1'')"
    "path_matches (path_segments (''/api'' @ ''/:kind/1'')) (path_segments ''/api/users/1'')" by simp_all
  have run: "reg_step\<^sup>*\<^sup>* (NewRegistry (sample_config d)) (two_services (sample_config d) ''/users/:id'' ''/:kind/1'')"
    by (rule two_services_run) (simp_all add: sample_config_def)
  have ne: "''/users/:id'' \<noteq> ''/:kind/1''" "''/api/users/1'' \<noteq> ''/api'' @ ''/users/:id''"
    "''/api/users/1'' \<noteq> ''/api'' @ ''/:kind/1''" by simp_all
  show ?thesis unfolding Let_def
    by (rule conjI [OF run two_services_ambiguous [OF ne m]])
qed

text \<open>
  Strict matching does not see that a star takes several segments: a static tree and a
  two-segment pattern under it are both accepted, and a path that fits both is routed by the
  visiting order.
\<close>

lemma strict_misses_wildcards:
  "let r = two_services strict_config ''/static/*'' ''/static/:a/:b'' in
   reg_step\<^sup>*\<^sup>* (NewRegistry strict_config) r \<and>
   (\<exists>c k1 k2 m1 m2. range_order c (routes r) \<and> range_order k1 (routes r) \<and> range_order k2 (routes r) \<and>
      MatchRoute r ''GET'' ''/api/static/x/y'' c k1 = Ret (Some m1) \<and>
      re_ServiceName (mr_Entry m1) = ''svc-a'' \<and>
      MatchRoute r ''GET'' ''/api/static/x/y'' c k2 = Ret (Some m2) \<and>
      re_ServiceName (mr_Entry m2) = ''svc-b'')"
proof -
  have "path_matches (path_segments ''/api/static/*'') (path_segments ''/api/static/x/y'')"
    "path_matches (path_segments ''/api/static/:a/:b'') (path_segments ''/api/static/x/y'')"
    by code_simp+
  then have m: "path_matches (path_segments (''/api'' @ ''/static/*'')) (path_segments ''/api/static/x/y'')"
    "path_matches (path_segments (''/api'' @ ''/static/:a/:b'')) (path_segments ''/api/static/x/y'')"
    by simp_all
  have "\<not> pathsOverlap (normalizePath ''/api/static/:a/:b'') (normalizePath ''/api/static/*'')"
    by code_simp
  then have run: "reg_step\<^sup>*\<^sup>* (NewRegistry strict_config) (two_services strict_config ''/static/*'' ''/static/:a/:b'')"
    by (intro two_services_run) simp_all
  have ne: "''/static/*'' \<noteq> ''/static/:a/:b''" "''/api/static/x/y'' \<noteq> ''/api'' @ ''/static/*''"
    "''/api/static/x/y'' \<noteq> ''/api'' @ ''/static/:a/:b''" by simp_all
  show ?thesis unfolding Let_def
    by (rule conjI [OF run two_services_ambiguous [OF ne m]])
qed

end
