(* ===== verification/Http.thy ===== *)
theory Http
  imports Go_Strings Complex_Main
begin

text \<open>
  The parts of \<^verbatim>\<open>net/http\<close>, \<^verbatim>\<open>encoding/json\<close> and the gin context that the handlers use:
  header maps with canonical keys, JSON values, the request a handler reads, and the calls it
  makes on its context.  What gin does with those calls is not modelled: a handler is a
  function from what it reads to the list of calls it makes, in order.
\<close>

subsection \<open>JSON\<close>

datatype json =
    JNull
  | JBool bool
  | JNumber rat
  | JString string
  | JArray "json list"
  | JObject "(string \<times> json) list"

definition json_strings :: "string list \<Rightarrow> json" where
  "json_strings xs = JArray (map JString xs)"

text \<open>
  \<^verbatim>\<open>int64(f)\<close> truncates; out of range the language leaves the result open and the common
  targets return the least \<^verbatim>\<open>int64\<close>.
\<close>

definition int64_of_float :: "rat \<Rightarrow> int" where
  "int64_of_float f =
     (let n = (if f < 0 then - \<lfloor>- f\<rfloor> else \<lfloor>f\<rfloor>) in if in_int64 n then n else - (2 ^ 63))"

lemma int64_of_float_int: "in_int64 n \<Longrightarrow> int64_of_float (of_int n) = n"
proof -
  assume n: "in_int64 n"
  have "\<lfloor>- (of_int n :: rat)\<rfloor> = - n" using floor_of_int [of "- n", where 'a = rat] by simp
  with n show ?thesis by (simp add: int64_of_float_def Let_def)
qed

subsection \<open>Header maps\<close>

definition char_code :: "char \<Rightarrow> nat" where
  "char_code c = of_char c"

definition upper_char :: "char \<Rightarrow> char" where
  "upper_char c = (if 97 \<le> char_code c \<and> char_code c \<le> 122 then char_of (char_code c - 32) else c)"

definition lower_char :: "char \<Rightarrow> char" where
  "lower_char c = (if 65 \<le> char_code c \<and> char_code c \<le> 90 then char_of (char_code c + 32) else c)"

definition token_char :: "char \<Rightarrow> bool" where
  "token_char c \<longleftrightarrow>
     48 \<le> char_code c \<and> char_code c \<le> 57 \<or> 65 \<le> char_code c \<and> char_code c \<le> 90 \<or>
     97 \<le> char_code c \<and> char_code c \<le> 122 \<or> c \<in> set ''!#$%&*+-.^_|~'' \<or>
     char_code c = 39 \<or> char_code c = 96"

primrec canonical_chars :: "bool \<Rightarrow> string \<Rightarrow> string" where
  "canonical_chars upper [] = []"
| "canonical_chars upper (c # cs) =
     (if upper then upper_char c else lower_char c) # canonical_chars (c = CHR ''-'') cs"

text \<open>\<^verbatim>\<open>textproto.CanonicalMIMEHeaderKey\<close>\<close>

definition canonical_key :: "string \<Rightarrow> string" where
  "canonical_key s = (if list_all token_char s then canonical_chars True s else s)"

type_synonym headers = "string \<rightharpoonup> string list"

definition header_get :: "headers \<Rightarrow> string \<Rightarrow> string" where
  "header_get h k = (case get_slice h (canonical_key k) of [] \<Rightarrow> [] | v # _ \<Rightarrow> v)"

definition header_set :: "headers \<Rightarrow> string \<Rightarrow> string \<Rightarrow> headers" where
  "header_set h k v = h(canonical_key k \<mapsto> [v])"

definition header_del :: "headers \<Rightarrow> string \<Rightarrow> headers" where
  "header_del h k = h(canonical_key k := None)"

lemma header_get_set:
  "header_get (header_set h k v) j = (if canonical_key j = canonical_key k then v else header_get h j)"
  by (simp add: header_get_def header_set_def get_slice_upd)

lemma header_get_del:
  "header_get (header_del h k) j = (if canonical_key j = canonical_key k then [] else header_get h j)"
  by (simp add: header_get_def header_del_def get_slice_del)

lemmas header_simps = header_get_set header_get_del

text \<open>The letters keep their case class, so canonicalisation is idempotent.\<close>

lemma char_code_of: "n < 256 \<Longrightarrow> char_code (char_of n) = n"
  by (simp add: char_code_def)

lemma char_code_upper:
  "char_code (upper_char c) =
     (if 97 \<le> char_code c \<and> char_code c \<le> 122 then char_code c - 32 else char_code c)"
  by (cases "97 \<le> char_code c \<and> char_code c \<le> 122") (auto simp: upper_char_def intro!: char_code_of)

lemma char_code_lower:
  "char_code (lower_char c) =
     (if 65 \<le> char_code c \<and> char_code c \<le> 90 then char_code c + 32 else char_code c)"
  by (cases "65 \<le> char_code c \<and> char_code c \<le> 90") (auto simp: lower_char_def intro!: char_code_of)

lemma upper_lower_dash: "upper_char c = CHR ''-'' \<longleftrightarrow> c = CHR ''-''" "lower_char c = CHR ''-'' \<longleftrightarrow> c = CHR ''-''"
proof -
  have code: "char_code (CHR ''-'') = 45" by (simp add: char_code_def)
  have inj: "d = e \<longleftrightarrow> char_code d = char_code e" for d e
    unfolding char_code_def by (rule of_char_eq_iff [symmetric])
  have dash: "d = CHR ''-'' \<longleftrightarrow> char_code d = 45" for d using inj code by metis
  show "upper_char c = CHR ''-'' \<longleftrightarrow> c = CHR ''-''" "lower_char c = CHR ''-'' \<longleftrightarrow> c = CHR ''-''"
    unfolding dash char_code_upper char_code_lower by auto
qed

lemma upper_upper [simp]: "upper_char (upper_char c) = upper_char c"
  unfolding upper_char_def [of "upper_char c"] char_code_upper by auto

lemma lower_lower [simp]: "lower_char (lower_char c) = lower_char c"
  unfolding lower_char_def [of "lower_char c"] char_code_lower by auto

lemma canonical_chars_idem:
  "canonical_chars u (canonical_chars u s) = canonical_chars u s"
  by (induction s arbitrary: u) (auto simp: upper_lower_dash)

subsection \<open>The gin context\<close>

text \<open>
  A value of the key store: a string, or something else, of which only the rendering by the
  verb \<^verbatim>\<open>%v\<close> matters.
\<close>

datatype ctx_value = VString string | VOther string

record gin_context =
  rq_Method :: string
  rq_Path :: string
  rq_RawQuery :: string
  rq_Host :: string
  rq_TLS :: bool
  rq_Header :: headers
  ctx_Keys :: "string \<rightharpoonup> ctx_value"
  ctx_ClientIP :: string
  ctx_FullPath :: string

definition GetHeader :: "gin_context \<Rightarrow> string \<Rightarrow> string" where
  "GetHeader c k = header_get (rq_Header c) k"

definition GetString :: "gin_context \<Rightarrow> string \<Rightarrow> string" where
  "GetString c k = (case ctx_Keys c k of Some (VString s) \<Rightarrow> s | _ \<Rightarrow> [])"

datatype gin_call =
    Next
  | SetKey string ctx_value
  | Header string string
  | SetRequestHeader string string
  | JSON nat json
  | AbortWithStatusJSON nat json
  | AbortWithStatus nat

text \<open>A handler lets the request pass when it reaches its \<^verbatim>\<open>c.Next()\<close>.\<close>

definition passes :: "gin_call list \<Rightarrow> bool" where
  "passes calls \<longleftrightarrow> Next \<in> set calls"

fun status_of :: "gin_call \<Rightarrow> nat option" where
  "status_of (JSON n b) = Some n"
| "status_of (AbortWithStatusJSON n b) = Some n"
| "status_of (AbortWithStatus n) = Some n"
| "status_of _ = None"

definition responses :: "gin_call list \<Rightarrow> nat list" where
  "responses calls = List.map_filter status_of calls"

definition response_headers :: "gin_call list \<Rightarrow> (string \<times> string) list" where
  "response_headers calls =
     List.map_filter (\<lambda>c. case c of Header k v \<Rightarrow> Some (k, v) | _ \<Rightarrow> None) calls"

lemma call_views [simp]:
  "passes [] = False" "passes (c # cs) = (c = Next \<or> passes cs)"
  "responses [] = []"
  "responses (c # cs) = (case status_of c of None \<Rightarrow> responses cs | Some n \<Rightarrow> n # responses cs)"
  by (auto simp: passes_def responses_def List.map_filter_simps split: option.splits)

text \<open>The request headers as the handlers further down see them.\<close>

fun apply_request_headers :: "headers \<Rightarrow> gin_call list \<Rightarrow> headers" where
  "apply_request_headers h [] = h"
| "apply_request_headers h (SetRequestHeader k v # cs) = apply_request_headers (header_set h k v) cs"
| "apply_request_headers h (_ # cs) = apply_request_headers h cs"

lemma apply_request_headers_append:
  "apply_request_headers h (cs @ ds) = apply_request_headers (apply_request_headers h cs) ds"
  by (induction h cs rule: apply_request_headers.induct) simp_all

text \<open>The key store as the handlers further down see it.\<close>

fun apply_keys :: "(string \<rightharpoonup> ctx_value) \<Rightarrow> gin_call list \<Rightarrow> (string \<rightharpoonup> ctx_value)" where
  "apply_keys m [] = m"
| "apply_keys m (SetKey k v # cs) = apply_keys (m(k \<mapsto> v)) cs"
| "apply_keys m (_ # cs) = apply_keys m cs"

definition error_body :: "string \<Rightarrow> string \<Rightarrow> json" where
  "error_body err msg = JObject [(''error'', JString err), (''message'', JString msg)]"

end
