(* ===== verification/Token.thy ===== *)
theory Token
  imports Http
begin

text \<open>
  The claims of the tokens (\<^verbatim>\<open>internal/domain/token.go\<close>, \<^verbatim>\<open>pkg/auth/claims.go\<close>) with their
  checks, the reading of claims out of a parsed token, and the interface of the JWT library,
  which is a parameter with its documented behaviour as named laws.
\<close>

subsection \<open>Errors and claims\<close>

datatype token_error =
    ErrTokenExpired
  | ErrTokenNotYetValid
  | ErrTokenInvalidSubject
  | ErrTokenInvalidIssuer
  | ErrTokenInvalidAudience
  | ErrTokenAudienceMismatch string string
  | ErrTokenIssuerNotAllowed string
  | ErrTokenInvalidSignature
  | ErrTokenMalformed string
  | ErrPublicKeyNotSet
  | ErrPrivateKeyNotSet
  | ErrSigning string

fun token_error_text :: "token_error \<Rightarrow> string" where
  "token_error_text ErrTokenExpired = ''token has expired''"
| "token_error_text ErrTokenNotYetValid = ''token is not yet valid''"
| "token_error_text ErrTokenInvalidSubject = ''token has invalid subject''"
| "token_error_text ErrTokenInvalidIssuer = ''token has invalid issuer''"
| "token_error_text ErrTokenInvalidAudience = ''token has invalid audience''"
| "token_error_text (ErrTokenAudienceMismatch e g) =
     ''token audience mismatch: expected '' @ e @ '', got '' @ g"
| "token_error_text (ErrTokenIssuerNotAllowed i) =
     ''token issuer not allowed: '' @ i @ '' not in allowed list''"
| "token_error_text ErrTokenInvalidSignature = ''token has invalid signature''"
| "token_error_text (ErrTokenMalformed m) =
     (if m = [] then ''token is malformed'' else ''token is malformed: '' @ m)"
| "token_error_text ErrPublicKeyNotSet = ''public key not configured''"
| "token_error_text ErrPrivateKeyNotSet = ''private key not configured''"
| "token_error_text (ErrSigning m) = m"

record external_claims =
  ec_Subject :: string
  ec_Email :: string
  ec_Scopes :: "string list"
  ec_Issuer :: string
  ec_Audience :: string
  ec_IssuedAt :: int
  ec_ExpiresAt :: int
  ec_NotBefore :: int

text \<open>
  \<^verbatim>\<open>domain.InternalClaims\<close> and \<^verbatim>\<open>auth.Claims\<close> are the same type written twice, with the same
  methods; one definition models both.
\<close>

record internal_claims =
  ic_Subject :: string
  ic_Email :: string
  ic_Scopes :: "string list"
  ic_Issuer :: string
  ic_Audience :: string
  ic_Trace :: "string list"
  ic_OriginalIssuer :: string
  ic_IssuedAt :: int
  ic_ExpiresAt :: int

definition unix :: "gotime \<Rightarrow> int" where
  "unix t = t div second"

definition external_Valid :: "external_claims \<Rightarrow> gotime \<Rightarrow> token_error option" where
  "external_Valid c t =
     (let now = unix t in
      if ec_ExpiresAt c \<noteq> 0 \<and> now > ec_ExpiresAt c then Some ErrTokenExpired
      else if ec_NotBefore c \<noteq> 0 \<and> now < ec_NotBefore c then Some ErrTokenNotYetValid
      else if ec_Subject c = [] then Some ErrTokenInvalidSubject
      else None)"

definition internal_Valid :: "internal_claims \<Rightarrow> gotime \<Rightarrow> token_error option" where
  "internal_Valid c t =
     (let now = unix t in
      if ic_ExpiresAt c \<noteq> 0 \<and> now > ic_ExpiresAt c then Some ErrTokenExpired
      else if ic_Subject c = [] then Some ErrTokenInvalidSubject
      else if ic_Issuer c = [] then Some ErrTokenInvalidIssuer
      else if ic_Audience c = [] then Some ErrTokenInvalidAudience
      else None)"

definition ValidateAudience :: "internal_claims \<Rightarrow> string \<Rightarrow> token_error option" where
  "ValidateAudience c expected =
     (if ic_Audience c \<noteq> expected then Some (ErrTokenAudienceMismatch expected (ic_Audience c)) else None)"

fun issuer_loop :: "string \<Rightarrow> string list \<Rightarrow> bool" where
  "issuer_loop iss [] = False"
| "issuer_loop iss (allowed # rest) = (if iss = allowed then True else issuer_loop iss rest)"

definition ValidateIssuer :: "internal_claims \<Rightarrow> string list \<Rightarrow> token_error option" where
  "ValidateIssuer c allowedIssuers =
     (if issuer_loop (ic_Issuer c) allowedIssuers then None
      else Some (ErrTokenIssuerNotAllowed (ic_Issuer c)))"

definition AddToTrace :: "internal_claims \<Rightarrow> string \<Rightarrow> internal_claims" where
  "AddToTrace c service = c\<lparr>ic_Trace := ic_Trace c @ [service]\<rparr>"

fun scope_loop :: "string \<Rightarrow> string list \<Rightarrow> bool" where
  "scope_loop scope [] = False"
| "scope_loop scope (s # rest) = (if s = scope then True else scope_loop scope rest)"

definition HasScope :: "internal_claims \<Rightarrow> string \<Rightarrow> bool" where
  "HasScope c scope = scope_loop scope (ic_Scopes c)"

fun HasAllScopes :: "internal_claims \<Rightarrow> string list \<Rightarrow> bool" where
  "HasAllScopes c [] = True"
| "HasAllScopes c (required # rest) = (if \<not> HasScope c required then False else HasAllScopes c rest)"

lemma issuer_loop_iff: "issuer_loop iss allowed \<longleftrightarrow> iss \<in> set allowed"
  by (induction allowed) auto

lemma scope_loop_iff: "scope_loop s ss \<longleftrightarrow> s \<in> set ss"
  by (induction ss) auto

lemma HasAllScopes_iff: "HasAllScopes c required \<longleftrightarrow> set required \<subseteq> set (ic_Scopes c)"
  by (induction required) (auto simp: HasScope_def scope_loop_iff)

subsection \<open>Reading claims\<close>

type_synonym map_claims = "string \<rightharpoonup> json"

definition getStringClaim :: "map_claims \<Rightarrow> string \<Rightarrow> string" where
  "getStringClaim claims key = (case claims key of Some (JString val) \<Rightarrow> val | _ \<Rightarrow> [])"

fun string_elems :: "json list \<Rightarrow> string list" where
  "string_elems [] = []"
| "string_elems (JString s # vs) = s # string_elems vs"
| "string_elems (_ # vs) = string_elems vs"

definition getStringSliceClaim :: "map_claims \<Rightarrow> string \<Rightarrow> string list" where
  "getStringSliceClaim claims key = (case claims key of Some (JArray vs) \<Rightarrow> string_elems vs | _ \<Rightarrow> [])"

definition getTimeClaim :: "map_claims \<Rightarrow> string \<Rightarrow> int" where
  "getTimeClaim claims key = (case claims key of Some (JNumber f) \<Rightarrow> int64_of_float f | _ \<Rightarrow> 0)"

lemma string_elems_strings [simp]: "string_elems (map JString ss) = ss"
  by (induction ss) simp_all

definition external_of :: "map_claims \<Rightarrow> external_claims" where
  "external_of m =
     \<lparr>ec_Subject = getStringClaim m ''sub'', ec_Email = getStringClaim m ''email'',
      ec_Scopes = getStringSliceClaim m ''scopes'', ec_Issuer = getStringClaim m ''iss'',
      ec_Audience = getStringClaim m ''aud'', ec_IssuedAt = getTimeClaim m ''iat'',
      ec_ExpiresAt = getTimeClaim m ''exp'', ec_NotBefore = getTimeClaim m ''nbf''\<rparr>"

definition internal_of :: "map_claims \<Rightarrow> internal_claims" where
  "internal_of m =
     \<lparr>ic_Subject = getStringClaim m ''sub'', ic_Email = getStringClaim m ''email'',
      ic_Scopes = getStringSliceClaim m ''scopes'', ic_Issuer = getStringClaim m ''iss'',
      ic_Audience = getStringClaim m ''aud'', ic_Trace = getStringSliceClaim m ''trace'',
      ic_OriginalIssuer = getStringClaim m ''original_iss'',
      ic_IssuedAt = getTimeClaim m ''iat'', ic_ExpiresAt = getTimeClaim m ''exp''\<rparr>"

subsection \<open>The JWT library\<close>

text \<open>
  \<^verbatim>\<open>jwt.Parse\<close> takes the token, a function that chooses the key from the token's header, and
  reads the clock; it answers an error, of which the callers distinguish three kinds with
  \<^verbatim>\<open>errors.Is\<close>, or a token with its validity flag and its claims (\<open>None\<close> when they are not a
  claims map).  \<^verbatim>\<open>SignedString\<close> signs the claims with RS256.
\<close>

record jwt_header =
  jh_RSA :: bool
  jh_alg :: string

datatype jwt_kind = JwtExpired | JwtNotValidYet | JwtSignatureInvalid

record jwt_error =
  je_kinds :: "jwt_kind list"
  je_text :: string

record jwt_token =
  jt_Valid :: bool
  jt_Claims :: "map_claims option"

record ('pub, 'priv) jwt_lib =
  jwt_Parse :: "string \<Rightarrow> (jwt_header \<Rightarrow> token_error + 'pub) \<Rightarrow> gotime \<Rightarrow> jwt_error + jwt_token"
  jwt_Sign :: "map_claims \<Rightarrow> 'priv \<Rightarrow> string + string"
  PublicKey :: "'priv \<Rightarrow> 'pub"

text \<open>The key function all callers pass: any RSA method is accepted, with the one public key.\<close>

definition rsa_keyfunc :: "'pub \<Rightarrow> jwt_header \<Rightarrow> token_error + 'pub" where
  "rsa_keyfunc pub h =
     (if jh_RSA h then Inr pub else Inl (ErrTokenMalformed (''unexpected signing method '' @ jh_alg h)))"

definition rs256 :: jwt_header where
  "rs256 = \<lparr>jh_RSA = True, jh_alg = ''RS256''\<rparr>"

text \<open>
  The library's check of the expiry: a missing \<^verbatim>\<open>exp\<close> and the number zero mean no expiry, a
  fractional one is cut to the second, and anything but a number is an error.
\<close>

definition unexpired :: "map_claims \<Rightarrow> gotime \<Rightarrow> bool" where
  "unexpired m now \<longleftrightarrow>
     (case m ''exp'' of
        None \<Rightarrow> True
      | Some (JNumber e) \<Rightarrow> e = 0 \<or> in_int64 \<lfloor>e\<rfloor> \<and> now < \<lfloor>e\<rfloor> * second
      | Some _ \<Rightarrow> False)"

text \<open>
  The documented behaviour the program relies on, for a predicate \<open>verifies h tok pub m\<close>: the
  token has the header \<open>h\<close>, carries the claims \<open>m\<close>, and its signature is good for \<open>pub\<close> by the method
  of its header.  Signing produces an RS256 token that verifies under the matching public key;
  parsing asks the key function with the token's own header, and accepts only tokens that verify
  under the key it gave and that have not expired; it accepts a token whose header the key
  function answers, that verifies under the answer, is unexpired and has no \<^verbatim>\<open>nbf\<close> claim; and a
  token determines its header and its claims.
\<close>

definition jwt_laws ::
    "('pub, 'priv) jwt_lib \<Rightarrow> (jwt_header \<Rightarrow> string \<Rightarrow> 'pub \<Rightarrow> map_claims \<Rightarrow> bool) \<Rightarrow> bool" where
  "jwt_laws lib verifies \<longleftrightarrow>
     (\<forall>m priv tok. jwt_Sign lib m priv = Inr tok \<longrightarrow> verifies rs256 tok (PublicKey lib priv) m) \<and>
     (\<forall>tok kf now t m. jwt_Parse lib tok kf now = Inr t \<longrightarrow> jt_Claims t = Some m \<longrightarrow>
        (\<exists>h pub. kf h = Inr pub \<and> verifies h tok pub m) \<and> unexpired m now) \<and>
     (\<forall>h tok kf pub now m. verifies h tok pub m \<longrightarrow> kf h = Inr pub \<longrightarrow> unexpired m now \<longrightarrow> m ''nbf'' = None \<longrightarrow>
        jwt_Parse lib tok kf now = Inr \<lparr>jt_Valid = True, jt_Claims = Some m\<rparr>) \<and>
     (\<forall>h h' tok pub pub' m m'. verifies h tok pub m \<longrightarrow> verifies h' tok pub' m' \<longrightarrow> h = h' \<and> m = m')"

lemma jwt_lawsD:
  assumes "jwt_laws lib verifies"
  shows "jwt_Sign lib m priv = Inr tok \<Longrightarrow> verifies rs256 tok (PublicKey lib priv) m"
    and "jwt_Parse lib tok kf now = Inr t \<Longrightarrow> jt_Claims t = Some m \<Longrightarrow>
           \<exists>h pub. kf h = Inr pub \<and> verifies h tok pub m"
    and "jwt_Parse lib tok kf now = Inr t \<Longrightarrow> jt_Claims t = Some m \<Longrightarrow> unexpired m now"
    and "verifies h tok pub m \<Longrightarrow> kf h = Inr pub \<Longrightarrow> unexpired m now \<Longrightarrow> m ''nbf'' = None \<Longrightarrow>
           jwt_Parse lib tok kf now = Inr \<lparr>jt_Valid = True, jt_Claims = Some m\<rparr>"
    and "verifies h tok pub m \<Longrightarrow> verifies h' tok pub' m' \<Longrightarrow> h = h'"
    and "verifies h tok pub m \<Longrightarrow> verifies h' tok pub' m' \<Longrightarrow> m = m'"
  using assms unfolding jwt_laws_def by (blast | metis)+

lemma rsa_keyfunc_key: "rsa_keyfunc pub h = Inr k \<Longrightarrow> k = pub \<and> jh_RSA h"
  by (simp add: rsa_keyfunc_def split: if_splits)

end
