(* ===== verification/Jwt.thy ===== *)
theory Jwt
  imports Token
begin

text \<open>
  The token service of \<^verbatim>\<open>internal/infrastructure/jwt/jwt.go\<close> and the SDK of \<^verbatim>\<open>pkg/auth\<close>: key
  loading, validation of external, internal and service tokens, and the generation of
  internal tokens.  The JWT library and the PEM/X.509 parsers are parameters.
\<close>

subsection \<open>Keys\<close>

datatype 'k x509_key = RSAKey 'k | OtherKey

record ('pub, 'priv) key_lib =
  pem_Decode :: "string \<Rightarrow> string option"
  ParsePKIXPublicKey :: "string \<Rightarrow> string + 'pub x509_key"
  ParsePKCS1PublicKey :: "string \<Rightarrow> string + 'pub"
  ParsePKCS8PrivateKey :: "string \<Rightarrow> string + 'priv x509_key"
  ParsePKCS1PrivateKey :: "string \<Rightarrow> string + 'priv"

text \<open>
  \<^verbatim>\<open>normalizePEM\<close> puts the line breaks back into a key given on one line.  Its two regular
  expressions, \<^verbatim>\<open>(?i)(-----BEGIN [A-Z ]+-----)\<close> and the same with \<^verbatim>\<open>END\<close>, match at a place
  exactly when the marker is followed by a non-empty run of letters and blanks and then five
  dashes; \<open>pem_match\<close> is the length of that match.
\<close>

definition newline :: char where
  "newline = CHR 0x0A"

definition pem_letter :: "char \<Rightarrow> bool" where
  "pem_letter c \<longleftrightarrow> c = CHR '' '' \<or> 65 \<le> char_code (upper_char c) \<and> char_code (upper_char c) \<le> 90"

definition pem_match :: "string \<Rightarrow> string \<Rightarrow> nat option" where
  "pem_match word s =
     (let mark = ''-----'' @ word @ '' '';
          rest = drop (length mark) s;
          run = takeWhile pem_letter rest
      in if map upper_char (take (length mark) s) = mark \<and> run \<noteq> [] \<and>
            HasPrefix (drop (length run) rest) ''-----''
         then Some (length mark + length run + 5) else None)"

text \<open>\<^verbatim>\<open>ReplaceAllString\<close> with the match between two inserted texts.\<close>

function replace_marks :: "string \<Rightarrow> string \<Rightarrow> string \<Rightarrow> string \<Rightarrow> string" where
  "replace_marks word pre post s =
     (case s of
        [] \<Rightarrow> []
      | c # cs \<Rightarrow>
          (case pem_match word s of
             None \<Rightarrow> c # replace_marks word pre post cs
           | Some n \<Rightarrow> pre @ take n s @ post @ replace_marks word pre post (drop n s)))"
  by pat_completeness auto
termination
  by (relation "measure (\<lambda>(_, _, _, s). length s)")
     (auto simp: pem_match_def Let_def split: if_splits)

declare replace_marks.simps [simp del]

definition space_char :: "char \<Rightarrow> bool" where
  "space_char c \<longleftrightarrow> c = CHR '' '' \<or> 9 \<le> char_code c \<and> char_code c \<le> 13"

definition TrimSpace :: "string \<Rightarrow> string" where
  "TrimSpace s = rev (dropWhile space_char (rev (dropWhile space_char s)))"

definition replace_char :: "char \<Rightarrow> char \<Rightarrow> string \<Rightarrow> string" where
  "replace_char a b s = map (\<lambda>c. if c = a then b else c) s"

definition normalizePEM :: "string \<Rightarrow> string" where
  "normalizePEM s =
     (if newline \<in> set s then s
      else
        (let t = TrimSpace (replace_marks ''END'' [newline] [] (replace_marks ''BEGIN'' [] [newline] s)) in
         case SplitN2 newline t of
           [header, rest] \<Rightarrow>
             (case SplitN2 newline rest of
                [body, footer] \<Rightarrow>
                  header @ [newline] @ replace_char CHR '' '' newline body @ [newline] @ footer @ [newline]
              | _ \<Rightarrow> t)
         | _ \<Rightarrow> t))"

definition parseRSAPublicKey :: "('pub, 'priv) key_lib \<Rightarrow> string \<Rightarrow> string + 'pub" where
  "parseRSAPublicKey kl pemStr =
     (case pem_Decode kl (normalizePEM pemStr) of
        None \<Rightarrow> Inl ''failed to decode PEM block''
      | Some block \<Rightarrow>
          (case ParsePKIXPublicKey kl block of
             Inl err \<Rightarrow> ParsePKCS1PublicKey kl block
           | Inr (RSAKey k) \<Rightarrow> Inr k
           | Inr OtherKey \<Rightarrow> Inl ''not an RSA public key''))"

definition parseRSAPrivateKey :: "('pub, 'priv) key_lib \<Rightarrow> string \<Rightarrow> string + 'priv" where
  "parseRSAPrivateKey kl pemStr =
     (case pem_Decode kl (normalizePEM pemStr) of
        None \<Rightarrow> Inl ''failed to decode PEM block''
      | Some block \<Rightarrow>
          (case ParsePKCS8PrivateKey kl block of
             Inr (RSAKey k) \<Rightarrow> Inr k
           | Inr OtherKey \<Rightarrow> Inl ''not an RSA private key''
           | Inl err \<Rightarrow> ParsePKCS1PrivateKey kl block))"

subsection \<open>The service\<close>

record ('pub, 'priv) jwt_service =
  publicKey :: "'pub option"
  privateKey :: "'priv option"
  issuer :: string
  internalTTL :: duration
  allowedIssuers :: "string list"

record jwt_config =
  JWTPublicKey :: string
  JWTPrivateKey :: string
  JWTIssuer :: string
  JWTInternalTTL :: duration
  JWTAllowedIssuers :: "string list"

definition NewService ::
    "('pub, 'priv) jwt_lib \<Rightarrow> ('pub, 'priv) key_lib \<Rightarrow> jwt_config \<Rightarrow>
     string + ('pub, 'priv) jwt_service" where
  "NewService lib kl cfg =
     (let s = \<lparr>publicKey = None, privateKey = None, issuer = JWTIssuer cfg,
               internalTTL = JWTInternalTTL cfg, allowedIssuers = JWTAllowedIssuers cfg\<rparr>;
          with_pub =
            (if JWTPublicKey cfg \<noteq> [] then
               (case parseRSAPublicKey kl (JWTPublicKey cfg) of
                  Inl err \<Rightarrow> Inl (''failed to parse public key: '' @ err)
                | Inr k \<Rightarrow> Inr (s\<lparr>publicKey := Some k\<rparr>))
             else Inr s)
      in case with_pub of
           Inl err \<Rightarrow> Inl err
         | Inr s1 \<Rightarrow>
             (if JWTPrivateKey cfg \<noteq> [] then
                (case parseRSAPrivateKey kl (JWTPrivateKey cfg) of
                   Inl err \<Rightarrow> Inl (''failed to parse private key: '' @ err)
                 | Inr k \<Rightarrow>
                     Inr (s1\<lparr>privateKey := Some k,
                             publicKey := (case publicKey s1 of None \<Rightarrow> Some (PublicKey lib k)
                                           | Some p \<Rightarrow> Some p)\<rparr>))
              else Inr s1))"

definition NewServiceWithKeys ::
    "'priv option \<Rightarrow> 'pub option \<Rightarrow> string \<Rightarrow> duration \<Rightarrow> string list \<Rightarrow> ('pub, 'priv) jwt_service" where
  "NewServiceWithKeys priv pub iss ttl allowed =
     \<lparr>publicKey = pub, privateKey = priv, issuer = iss, internalTTL = ttl, allowedIssuers = allowed\<rparr>"

text \<open>
  Parsing and the translation of the library's errors; \<open>nbf\<close> says whether the caller also
  distinguishes a token that is not valid yet, which only the external validation does.
\<close>

definition parsed_claims ::
    "('pub, 'priv) jwt_lib \<Rightarrow> bool \<Rightarrow> 'pub \<Rightarrow> string \<Rightarrow> gotime \<Rightarrow> token_error + map_claims" where
  "parsed_claims lib nbf pub tok now =
     (case jwt_Parse lib tok (rsa_keyfunc pub) now of
        Inl err \<Rightarrow>
          Inl (if JwtExpired \<in> set (je_kinds err) then ErrTokenExpired
               else if nbf \<and> JwtNotValidYet \<in> set (je_kinds err) then ErrTokenNotYetValid
               else if JwtSignatureInvalid \<in> set (je_kinds err) then ErrTokenInvalidSignature
               else ErrTokenMalformed (je_text err))
      | Inr t \<Rightarrow>
          (if \<not> jt_Valid t then Inl (ErrTokenMalformed [])
           else (case jt_Claims t of None \<Rightarrow> Inl (ErrTokenMalformed []) | Some m \<Rightarrow> Inr m)))"

definition ValidateExternalToken ::
    "('pub, 'priv) jwt_lib \<Rightarrow> ('pub, 'priv) jwt_service \<Rightarrow> string \<Rightarrow> gotime \<Rightarrow> token_error + external_claims" where
  "ValidateExternalToken lib s tok now =
     (case publicKey s of
        None \<Rightarrow> Inl ErrPublicKeyNotSet
      | Some pub \<Rightarrow>
          (case parsed_claims lib True pub tok now of
             Inl err \<Rightarrow> Inl err
           | Inr m \<Rightarrow>
               (let claims = external_of m in
                case external_Valid claims now of Some err \<Rightarrow> Inl err | None \<Rightarrow> Inr claims)))"

definition internal_map ::
    "string \<Rightarrow> string \<Rightarrow> string list \<Rightarrow> string \<Rightarrow> string \<Rightarrow> string \<Rightarrow> string list \<Rightarrow> gotime \<Rightarrow> duration \<Rightarrow> map_claims" where
  "internal_map sub email scopes iss aud orig trace now ttl =
     [''sub'' \<mapsto> JString sub, ''email'' \<mapsto> JString email, ''scopes'' \<mapsto> json_strings scopes,
      ''iss'' \<mapsto> JString iss, ''aud'' \<mapsto> JString aud, ''original_iss'' \<mapsto> JString orig,
      ''trace'' \<mapsto> json_strings trace, ''iat'' \<mapsto> JNumber (of_int (unix now)),
      ''exp'' \<mapsto> JNumber (of_int (unix (now + ttl)))]"

definition sign_claims ::
    "('pub, 'priv) jwt_lib \<Rightarrow> map_claims \<Rightarrow> 'priv \<Rightarrow> token_error + string" where
  "sign_claims lib m priv = (case jwt_Sign lib m priv of Inl err \<Rightarrow> Inl (ErrSigning err) | Inr tok \<Rightarrow> Inr tok)"

definition GenerateInternalToken ::
    "('pub, 'priv) jwt_lib \<Rightarrow> ('pub, 'priv) jwt_service \<Rightarrow> external_claims \<Rightarrow> string \<Rightarrow> gotime \<Rightarrow> token_error + string" where
  "GenerateInternalToken lib s ext aud now =
     (case privateKey s of
        None \<Rightarrow> Inl ErrPrivateKeyNotSet
      | Some priv \<Rightarrow>
          sign_claims lib
            (internal_map (ec_Subject ext) (ec_Email ext) (ec_Scopes ext) (issuer s) aud (ec_Issuer ext)
               [issuer s] now (internalTTL s)) priv)"

definition GenerateServiceToken ::
    "('pub, 'priv) jwt_lib \<Rightarrow> ('pub, 'priv) jwt_service \<Rightarrow> internal_claims \<Rightarrow> string \<Rightarrow> gotime \<Rightarrow> token_error + string" where
  "GenerateServiceToken lib s ic aud now =
     (case privateKey s of
        None \<Rightarrow> Inl ErrPrivateKeyNotSet
      | Some priv \<Rightarrow>
          sign_claims lib
            (internal_map (ic_Subject ic) (ic_Email ic) (ic_Scopes ic) (issuer s) aud (ic_OriginalIssuer ic)
               (ic_Trace ic @ [issuer s]) now (internalTTL s)) priv)"

definition ValidateInternalToken ::
    "('pub, 'priv) jwt_lib \<Rightarrow> ('pub, 'priv) jwt_service \<Rightarrow> string \<Rightarrow> string \<Rightarrow> gotime \<Rightarrow> token_error + internal_claims" where
  "ValidateInternalToken lib s tok expected now =
     (case publicKey s of
        None \<Rightarrow> Inl ErrPublicKeyNotSet
      | Some pub \<Rightarrow>
          (case parsed_claims lib False pub tok now of
             Inl err \<Rightarrow> Inl err
           | Inr m \<Rightarrow>
               (let claims = internal_of m in
                case internal_Valid claims now of
                  Some err \<Rightarrow> Inl err
                | None \<Rightarrow>
                    (case ValidateAudience claims expected of
                       Some err \<Rightarrow> Inl err
                     | None \<Rightarrow>
                         (case ValidateIssuer claims (allowedIssuers s) of
                            Some err \<Rightarrow> Inl err
                          | None \<Rightarrow> Inr claims)))))"

definition ValidateServiceToken ::
    "('pub, 'priv) jwt_lib \<Rightarrow> ('pub, 'priv) jwt_service \<Rightarrow> string \<Rightarrow> gotime \<Rightarrow> token_error + string" where
  "ValidateServiceToken lib s tok now =
     (case publicKey s of
        None \<Rightarrow> Inl ErrPublicKeyNotSet
      | Some pub \<Rightarrow>
          (case parsed_claims lib False pub tok now of
             Inl err \<Rightarrow> Inl err
           | Inr m \<Rightarrow>
               (let aud = getStringClaim m ''aud''; sub = getStringClaim m ''sub'' in
                if aud \<noteq> ''api-gateway'' then
                  Inl (ErrTokenMalformed (''invalid audience '' @ CHR 0x22 # aud @ [CHR 0x22]))
                else if sub = [] then Inl (ErrTokenMalformed ''missing subject claim'')
                else Inr sub)))"

subsection \<open>The SDK\<close>

text \<open>
  The SDK parses keys without normalising them first: a key given on one line, which the
  gateway accepts, is handed to \<^verbatim>\<open>pem.Decode\<close> as it is.
\<close>

definition ParseRSAPublicKey :: "('pub, 'priv) key_lib \<Rightarrow> string \<Rightarrow> string + 'pub" where
  "ParseRSAPublicKey kl pemStr =
     (case pem_Decode kl pemStr of
        None \<Rightarrow> Inl ''failed to decode PEM block''
      | Some block \<Rightarrow>
          (case ParsePKIXPublicKey kl block of
             Inl err \<Rightarrow> ParsePKCS1PublicKey kl block
           | Inr (RSAKey k) \<Rightarrow> Inr k
           | Inr OtherKey \<Rightarrow> Inl ''not an RSA public key''))"

definition ParseRSAPrivateKey :: "('pub, 'priv) key_lib \<Rightarrow> string \<Rightarrow> string + 'priv" where
  "ParseRSAPrivateKey kl pemStr =
     (case pem_Decode kl pemStr of
        None \<Rightarrow> Inl ''failed to decode PEM block''
      | Some block \<Rightarrow>
          (case ParsePKCS8PrivateKey kl block of
             Inr (RSAKey k) \<Rightarrow> Inr k
           | Inr OtherKey \<Rightarrow> Inl ''not an RSA private key''
           | Inl err \<Rightarrow> ParsePKCS1PrivateKey kl block))"

lemma parse_normalized:
  "parseRSAPublicKey kl s = ParseRSAPublicKey kl (normalizePEM s)"
  "parseRSAPrivateKey kl s = ParseRSAPrivateKey kl (normalizePEM s)"
  by (simp_all add: parseRSAPublicKey_def ParseRSAPublicKey_def parseRSAPrivateKey_def ParseRSAPrivateKey_def)

text \<open>
  \<^verbatim>\<open>auth.Claims\<close> is \<^verbatim>\<open>domain.InternalClaims\<close> written a second time, with its methods.  The
  methods are modelled from the SDK's text, and the bundle \<open>sdk_claims\<close> says that they are the
  gateway's.
\<close>

type_synonym auth_claims = internal_claims

definition Claims_Valid :: "auth_claims \<Rightarrow> gotime \<Rightarrow> token_error option" where
  "Claims_Valid c t =
     (let now = unix t in
      if ic_ExpiresAt c \<noteq> 0 \<and> now > ic_ExpiresAt c then Some ErrTokenExpired
      else if ic_Subject c = [] then Some ErrTokenInvalidSubject
      else if ic_Issuer c = [] then Some ErrTokenInvalidIssuer
      else if ic_Audience c = [] then Some ErrTokenInvalidAudience
      else None)"

definition Claims_ValidateAudience :: "auth_claims \<Rightarrow> string \<Rightarrow> token_error option" where
  "Claims_ValidateAudience c expected =
     (if ic_Audience c \<noteq> expected then Some (ErrTokenAudienceMismatch expected (ic_Audience c)) else None)"

primrec Claims_issuer_loop :: "auth_claims \<Rightarrow> string list \<Rightarrow> token_error option" where
  "Claims_issuer_loop c [] = Some (ErrTokenIssuerNotAllowed (ic_Issuer c))"
| "Claims_issuer_loop c (allowed # rest) =
     (if ic_Issuer c = allowed then None else Claims_issuer_loop c rest)"

definition Claims_ValidateIssuer :: "auth_claims \<Rightarrow> string list \<Rightarrow> token_error option" where
  "Claims_ValidateIssuer c allowed = Claims_issuer_loop c allowed"

primrec Claims_scope_loop :: "string \<Rightarrow> string list \<Rightarrow> bool" where
  "Claims_scope_loop scope [] = False"
| "Claims_scope_loop scope (s # rest) = (if s = scope then True else Claims_scope_loop scope rest)"

definition Claims_HasScope :: "auth_claims \<Rightarrow> string \<Rightarrow> bool" where
  "Claims_HasScope c scope = Claims_scope_loop scope (ic_Scopes c)"

primrec Claims_HasAllScopes :: "auth_claims \<Rightarrow> string list \<Rightarrow> bool" where
  "Claims_HasAllScopes c [] = True"
| "Claims_HasAllScopes c (required # rest) =
     (if \<not> Claims_HasScope c required then False else Claims_HasAllScopes c rest)"

lemma Claims_Valid_eq: "Claims_Valid c t = internal_Valid c t"
  by (simp add: Claims_Valid_def internal_Valid_def)

lemma Claims_ValidateAudience_eq: "Claims_ValidateAudience c a = ValidateAudience c a"
  by (simp add: Claims_ValidateAudience_def ValidateAudience_def)

lemma Claims_ValidateIssuer_eq: "Claims_ValidateIssuer c iss = ValidateIssuer c iss"
  by (induction iss) (simp_all add: Claims_ValidateIssuer_def ValidateIssuer_def)

lemma Claims_HasScope_iff: "Claims_HasScope c s \<longleftrightarrow> s \<in> set (ic_Scopes c)"
proof -
  have "Claims_scope_loop s xs \<longleftrightarrow> s \<in> set xs" for xs by (induction xs) auto
  then show ?thesis by (simp add: Claims_HasScope_def)
qed

lemma Claims_HasAllScopes_eq: "Claims_HasAllScopes c ss = HasAllScopes c ss"
  by (induction ss) (simp_all add: Claims_HasScope_iff HasScope_def scope_loop_iff)

lemmas sdk_claims [simp] =
  Claims_Valid_eq Claims_ValidateAudience_eq Claims_ValidateIssuer_eq Claims_HasAllScopes_eq

text \<open>
  The options of \<^verbatim>\<open>NewValidator\<close> and \<^verbatim>\<open>NewGenerator\<close> are functions applied in order; each is
  a constructor here, and the constructors fold over them, stopping at the first error.
\<close>

record 'k validator =
  v_publicKey :: 'k
  v_allowedIssuers :: "string list"

datatype 'pub validator_option =
    WithPublicKey string
  | WithPublicKeyRSA "'pub option"
  | WithAllowedIssuers "string list"

datatype auth_error = OptionFailed string | KeyNotSet token_error | IssuerRequired

fun apply_validator_option ::
    "('pub, 'priv) key_lib \<Rightarrow> 'pub validator_option \<Rightarrow> 'pub option validator \<Rightarrow>
     auth_error + 'pub option validator" where
  "apply_validator_option kl (WithPublicKey pem) v =
     (case ParseRSAPublicKey kl pem of
        Inl err \<Rightarrow> Inl (OptionFailed (''failed to parse public key: '' @ err))
      | Inr k \<Rightarrow> Inr (v\<lparr>v_publicKey := Some k\<rparr>))"
| "apply_validator_option kl (WithPublicKeyRSA k) v = Inr (v\<lparr>v_publicKey := k\<rparr>)"
| "apply_validator_option kl (WithAllowedIssuers iss) v = Inr (v\<lparr>v_allowedIssuers := iss\<rparr>)"

fun validator_options ::
    "('pub, 'priv) key_lib \<Rightarrow> 'pub validator_option list \<Rightarrow> 'pub option validator \<Rightarrow>
     auth_error + 'pub option validator" where
  "validator_options kl [] v = Inr v"
| "validator_options kl (opt # opts) v =
     (case apply_validator_option kl opt v of Inl err \<Rightarrow> Inl err | Inr v' \<Rightarrow> validator_options kl opts v')"

definition NewValidator ::
    "('pub, 'priv) key_lib \<Rightarrow> 'pub validator_option list \<Rightarrow> auth_error + 'pub validator" where
  "NewValidator kl opts =
     (case validator_options kl opts \<lparr>v_publicKey = None, v_allowedIssuers = []\<rparr> of
        Inl err \<Rightarrow> Inl err
      | Inr v \<Rightarrow>
          (case v_publicKey v of
             None \<Rightarrow> Inl (KeyNotSet ErrPublicKeyNotSet)
           | Some k \<Rightarrow> Inr \<lparr>v_publicKey = k, v_allowedIssuers = v_allowedIssuers v\<rparr>))"

definition Validator_ValidateInternalToken ::
    "('pub, 'priv) jwt_lib \<Rightarrow> 'pub validator \<Rightarrow> string \<Rightarrow> string \<Rightarrow> gotime \<Rightarrow> token_error + internal_claims" where
  "Validator_ValidateInternalToken lib v tok expected now =
     (case parsed_claims lib False (v_publicKey v) tok now of
        Inl err \<Rightarrow> Inl err
      | Inr m \<Rightarrow>
          (let claims = internal_of m in
           case Claims_Valid claims now of
             Some err \<Rightarrow> Inl err
           | None \<Rightarrow>
               (case Claims_ValidateAudience claims expected of
                  Some err \<Rightarrow> Inl err
                | None \<Rightarrow>
                    (if length (v_allowedIssuers v) > 0 then
                       (case Claims_ValidateIssuer claims (v_allowedIssuers v) of
                          Some err \<Rightarrow> Inl err
                        | None \<Rightarrow> Inr claims)
                     else Inr claims))))"

record 'k generator =
  g_privateKey :: 'k
  g_issuer :: string
  g_defaultTTL :: duration

datatype 'priv generator_option =
    WithPrivateKey string
  | WithPrivateKeyRSA "'priv option"
  | WithIssuer string
  | WithDefaultTTL duration

fun apply_generator_option ::
    "('pub, 'priv) key_lib \<Rightarrow> 'priv generator_option \<Rightarrow> 'priv option generator \<Rightarrow>
     auth_error + 'priv option generator" where
  "apply_generator_option kl (WithPrivateKey pem) g =
     (case ParseRSAPrivateKey kl pem of
        Inl err \<Rightarrow> Inl (OptionFailed (''failed to parse private key: '' @ err))
      | Inr k \<Rightarrow> Inr (g\<lparr>g_privateKey := Some k\<rparr>))"
| "apply_generator_option kl (WithPrivateKeyRSA k) g = Inr (g\<lparr>g_privateKey := k\<rparr>)"
| "apply_generator_option kl (WithIssuer iss) g = Inr (g\<lparr>g_issuer := iss\<rparr>)"
| "apply_generator_option kl (WithDefaultTTL d) g = Inr (g\<lparr>g_defaultTTL := d\<rparr>)"

fun generator_options ::
    "('pub, 'priv) key_lib \<Rightarrow> 'priv generator_option list \<Rightarrow> 'priv option generator \<Rightarrow>
     auth_error + 'priv option generator" where
  "generator_options kl [] g = Inr g"
| "generator_options kl (opt # opts) g =
     (case apply_generator_option kl opt g of Inl err \<Rightarrow> Inl err | Inr g' \<Rightarrow> generator_options kl opts g')"

definition NewGenerator ::
    "('pub, 'priv) key_lib \<Rightarrow> 'priv generator_option list \<Rightarrow> auth_error + 'priv generator" where
  "NewGenerator kl opts =
     (case generator_options kl opts \<lparr>g_privateKey = None, g_issuer = [], g_defaultTTL = 5 * minute\<rparr> of
        Inl err \<Rightarrow> Inl err
      | Inr g \<Rightarrow>
          (case g_privateKey g of
             None \<Rightarrow> Inl (KeyNotSet ErrPrivateKeyNotSet)
           | Some k \<Rightarrow>
               if g_issuer g = [] then Inl IssuerRequired
               else Inr \<lparr>g_privateKey = k, g_issuer = g_issuer g, g_defaultTTL = g_defaultTTL g\<rparr>))"

definition GenerateServiceTokenWithTTL ::
    "('pub, 'priv) jwt_lib \<Rightarrow> 'priv generator \<Rightarrow> internal_claims \<Rightarrow> string \<Rightarrow> duration \<Rightarrow> gotime \<Rightarrow>
     token_error + string" where
  "GenerateServiceTokenWithTTL lib g ic aud ttl now =
     sign_claims lib
       (internal_map (ic_Subject ic) (ic_Email ic) (ic_Scopes ic) (g_issuer g) aud (ic_OriginalIssuer ic)
          (ic_Trace ic @ [g_issuer g]) now ttl) (g_privateKey g)"

definition Generator_GenerateServiceToken ::
    "('pub, 'priv) jwt_lib \<Rightarrow> 'priv generator \<Rightarrow> internal_claims \<Rightarrow> string \<Rightarrow> gotime \<Rightarrow> token_error + string" where
  "Generator_GenerateServiceToken lib g ic aud now =
     GenerateServiceTokenWithTTL lib g ic aud (g_defaultTTL g) now"

text \<open>\<^verbatim>\<open>auth.Client\<close> embeds both.\<close>

definition NewClient ::
    "('pub, 'priv) key_lib \<Rightarrow> 'pub validator_option list \<Rightarrow> 'priv generator_option list \<Rightarrow>
     auth_error + 'pub validator \<times> 'priv generator" where
  "NewClient kl vopts gopts =
     (case NewValidator kl vopts of
        Inl err \<Rightarrow> Inl err
      | Inr v \<Rightarrow> (case NewGenerator kl gopts of Inl err \<Rightarrow> Inl err | Inr g \<Rightarrow> Inr (v, g)))"

end
