(* ===== verification/Jwt_Props.thy ===== *)
theory Jwt_Props
  imports Jwt
begin

text \<open>
  What the tokens guarantee: an accepted token was signed by the configured key and is in
  time; the tokens the gateway issues are accepted by the SDK for their audience, and for no
  other; a chain of services keeps the identity and extends the trace; and how the three
  validations of the gateway relate to each other.
\<close>

subsection \<open>The interface of a token validator\<close>

text \<open>
  What a service relies on, whichever of the two validators it uses: accepted claims name a
  subject and an issuer, are addressed to the service, and are not past their expiry.
\<close>

locale token_validator =
  fixes validate :: "string \<Rightarrow> string \<Rightarrow> gotime \<Rightarrow> token_error + internal_claims"
  assumes accepted_claims: "validate tok aud now = Inr c \<Longrightarrow> internal_Valid c now = None"
    and accepted_audience: "validate tok aud now = Inr c \<Longrightarrow> ic_Audience c = aud"
begin

lemma accepted_fields:
  "validate tok aud now = Inr c \<Longrightarrow> ic_Subject c \<noteq> [] \<and> ic_Issuer c \<noteq> [] \<and> ic_Audience c \<noteq> []"
  by (drule accepted_claims) (simp add: internal_Valid_def Let_def split: if_splits)

lemma accepted_in_time:
  "validate tok aud now = Inr c \<Longrightarrow> ic_ExpiresAt c = 0 \<or> unix now \<le> ic_ExpiresAt c"
  by (drule accepted_claims) (auto simp: internal_Valid_def Let_def not_less split: if_splits)

lemma one_audience:
  "validate tok aud now = Inr c \<Longrightarrow> validate tok' aud' now' = Inr c' \<Longrightarrow> aud \<noteq> aud' \<Longrightarrow> c \<noteq> c'"
  using accepted_audience by metis

end

lemma ValidateInternalToken_ok:
  assumes "ValidateInternalToken lib s tok aud now = Inr c"
  shows "\<exists>pub m. publicKey s = Some pub \<and> parsed_claims lib False pub tok now = Inr m \<and>
    c = internal_of m \<and> internal_Valid c now = None \<and> ic_Audience c = aud \<and>
    ic_Issuer c \<in> set (allowedIssuers s)"
  using assms
  by (auto simp: ValidateInternalToken_def Let_def ValidateAudience_def ValidateIssuer_def issuer_loop_iff
      split: option.splits sum.splits if_splits)

lemma Validator_ok:
  assumes "Validator_ValidateInternalToken lib v tok aud now = Inr c"
  shows "\<exists>m. parsed_claims lib False (v_publicKey v) tok now = Inr m \<and>
    c = internal_of m \<and> internal_Valid c now = None \<and> ic_Audience c = aud \<and>
    (v_allowedIssuers v = [] \<or> ic_Issuer c \<in> set (v_allowedIssuers v))"
  using assms
  by (auto simp: Validator_ValidateInternalToken_def Let_def ValidateAudience_def ValidateIssuer_def
      issuer_loop_iff split: option.splits sum.splits if_splits)

interpretation gateway_validator: token_validator "ValidateInternalToken lib s"
  by unfold_locales (auto dest: ValidateInternalToken_ok)

interpretation sdk_validator: token_validator "Validator_ValidateInternalToken lib v"
  by unfold_locales (auto dest: Validator_ok)

subsection \<open>Signing and parsing\<close>

lemma parsed_claims_sound:
  assumes laws: "jwt_laws lib verifies" and ok: "parsed_claims lib b pub tok now = Inr m"
  shows "\<exists>h. jh_RSA h \<and> verifies h tok pub m \<and> unexpired m now"
proof -
  from ok obtain t where t: "jwt_Parse lib tok (rsa_keyfunc pub) now = Inr t" "jt_Claims t = Some m"
    by (auto simp: parsed_claims_def split: sum.splits option.splits if_splits)
  from jwt_lawsD(2) [OF laws t] obtain h k where "rsa_keyfunc pub h = Inr k" "verifies h tok k m" by blast
  with rsa_keyfunc_key jwt_lawsD(3) [OF laws t] show ?thesis by metis
qed

lemma parsed_claims_complete:
  assumes laws: "jwt_laws lib verifies" and "verifies h tok pub m" and "jh_RSA h"
    and "unexpired m now" and "m ''nbf'' = None"
  shows "parsed_claims lib b pub tok now = Inr m"
proof -
  have "rsa_keyfunc pub h = Inr pub" using assms(3) by (simp add: rsa_keyfunc_def)
  from jwt_lawsD(4) [where kf = "rsa_keyfunc pub", OF laws assms(2) this assms(4,5)] show ?thesis by (simp add: parsed_claims_def)
qed

lemma rs256_RSA: "jh_RSA rs256"
  by (simp add: rs256_def)

lemma internal_map_claims:
  "internal_map sub email scopes iss aud orig trace now ttl ''nbf'' = None"
  "in_int64 (unix now) \<Longrightarrow> in_int64 (unix (now + ttl)) \<Longrightarrow>
     internal_of (internal_map sub email scopes iss aud orig trace now ttl) =
       \<lparr>ic_Subject = sub, ic_Email = email, ic_Scopes = scopes, ic_Issuer = iss, ic_Audience = aud,
        ic_Trace = trace, ic_OriginalIssuer = orig, ic_IssuedAt = unix now,
        ic_ExpiresAt = unix (now + ttl)\<rparr>"
  by (simp_all add: internal_map_def internal_of_def getStringClaim_def getStringSliceClaim_def
      getTimeClaim_def json_strings_def int64_of_float_int)

lemma external_of_internal_map:
  "in_int64 (unix now) \<Longrightarrow> in_int64 (unix (now + ttl)) \<Longrightarrow>
     external_of (internal_map sub email scopes iss aud orig trace now ttl) =
       \<lparr>ec_Subject = sub, ec_Email = email, ec_Scopes = scopes, ec_Issuer = iss, ec_Audience = aud,
        ec_IssuedAt = unix now, ec_ExpiresAt = unix (now + ttl), ec_NotBefore = 0\<rparr>"
  by (simp add: internal_map_def external_of_def getStringClaim_def getStringSliceClaim_def
      getTimeClaim_def json_strings_def int64_of_float_int)

lemma unexpired_internal_map:
  "unexpired (internal_map sub email scopes iss aud orig trace now ttl) t \<longleftrightarrow>
     unix (now + ttl) = 0 \<or> in_int64 (unix (now + ttl)) \<and> t < unix (now + ttl) * second"
  by (simp add: unexpired_def internal_map_def)

lemma unix_before: "t < e * second \<Longrightarrow> unix t \<le> e"
  unfolding unix_def second_def by linarith

lemma GenerateInternalToken_ok:
  assumes laws: "jwt_laws lib verifies" and "GenerateInternalToken lib s ext aud t0 = Inr tok"
  shows "\<exists>priv. privateKey s = Some priv \<and> verifies rs256 tok (PublicKey lib priv)
    (internal_map (ec_Subject ext) (ec_Email ext) (ec_Scopes ext) (issuer s) aud (ec_Issuer ext)
       [issuer s] t0 (internalTTL s))"
  using assms(2) jwt_lawsD(1) [OF laws]
  by (auto simp: GenerateInternalToken_def sign_claims_def split: option.splits sum.splits)

lemma Generator_ok:
  assumes laws: "jwt_laws lib verifies" and "Generator_GenerateServiceToken lib g ic aud t0 = Inr tok"
  shows "verifies rs256 tok (PublicKey lib (g_privateKey g))
    (internal_map (ic_Subject ic) (ic_Email ic) (ic_Scopes ic) (g_issuer g) aud (ic_OriginalIssuer ic)
       (ic_Trace ic @ [g_issuer g]) t0 (g_defaultTTL g))"
  using assms(2) jwt_lawsD(1) [OF laws]
  by (auto simp: Generator_GenerateServiceToken_def GenerateServiceTokenWithTTL_def sign_claims_def
      split: sum.splits)

text \<open>What a token says of the user it stands for.\<close>

definition carries ::
    "(jwt_header \<Rightarrow> string \<Rightarrow> 'pub \<Rightarrow> map_claims \<Rightarrow> bool) \<Rightarrow> string \<Rightarrow> external_claims \<Rightarrow> string list \<Rightarrow> bool" where
  "carries verifies tok ext trace \<longleftrightarrow>
     (\<forall>h pub m. verifies h tok pub m \<longrightarrow>
        (let c = internal_of m in
         ic_Subject c = ec_Subject ext \<and> ic_Email c = ec_Email ext \<and> ic_Scopes c = ec_Scopes ext \<and>
         ic_OriginalIssuer c = ec_Issuer ext \<and> ic_Trace c = trace))"

lemma internal_map_identity:
  "let c = internal_of (internal_map sub email scopes iss aud orig trace now ttl) in
   ic_Subject c = sub \<and> ic_Email c = email \<and> ic_Scopes c = scopes \<and> ic_OriginalIssuer c = orig \<and>
   ic_Trace c = trace \<and> ic_Issuer c = iss \<and> ic_Audience c = aud"
  by (simp add: internal_map_def internal_of_def getStringClaim_def getStringSliceClaim_def json_strings_def)

text \<open>
  A chain of services: each validates the token it received, for its own name, and calls the
  next service with a token of its own.
\<close>

record ('pub, 'priv) hop =
  h_validator :: "'pub validator"
  h_generator :: "'priv generator"
  h_name :: string
  h_next :: string
  h_now :: gotime

fun relay :: "('pub, 'priv) jwt_lib \<Rightarrow> string \<Rightarrow> ('pub, 'priv) hop list \<Rightarrow> token_error + string" where
  "relay lib tok [] = Inr tok"
| "relay lib tok (h # hs) =
     (case Validator_ValidateInternalToken lib (h_validator h) tok (h_name h) (h_now h) of
        Inl err \<Rightarrow> Inl err
      | Inr c \<Rightarrow>
          (case Generator_GenerateServiceToken lib (h_generator h) c (h_next h) (h_now h) of
             Inl err \<Rightarrow> Inl err
           | Inr tok' \<Rightarrow> relay lib tok' hs))"

lemma carries_sdk:
  assumes laws: "jwt_laws lib verifies" and car: "carries verifies tok ext trace"
    and ok: "Validator_ValidateInternalToken lib v tok aud now = Inr c"
  shows "ic_Subject c = ec_Subject ext \<and> ic_Email c = ec_Email ext \<and> ic_Scopes c = ec_Scopes ext \<and>
    ic_OriginalIssuer c = ec_Issuer ext \<and> ic_Trace c = trace"
proof -
  from Validator_ok [OF ok] obtain m where m: "parsed_claims lib False (v_publicKey v) tok now = Inr m"
    and c: "c = internal_of m" by blast
  with parsed_claims_sound [OF laws m] car show ?thesis unfolding carries_def by (metis c)
qed

lemma carries_relay:
  assumes laws: "jwt_laws lib verifies"
  shows "carries verifies tok ext trace \<Longrightarrow> relay lib tok hs = Inr tok' \<Longrightarrow>
    carries verifies tok' ext (trace @ map (g_issuer \<circ> h_generator) hs)"
proof (induction hs arbitrary: tok trace)
  case (Cons h hs)
  from Cons.prems(2) obtain c tk where
    c: "Validator_ValidateInternalToken lib (h_validator h) tok (h_name h) (h_now h) = Inr c" and
    tk: "Generator_GenerateServiceToken lib (h_generator h) c (h_next h) (h_now h) = Inr tk" and
    rest: "relay lib tk hs = Inr tok'"
    by (auto split: sum.splits)
  have "carries verifies tk ext (trace @ [g_issuer (h_generator h)])"
    unfolding carries_def
  proof (intro allI impI)
    fix k pub m assume "verifies k tk pub m"
    from jwt_lawsD(6) [OF laws this Generator_ok [OF laws tk]] carries_sdk [OF laws Cons.prems(1) c]
    show "let c = internal_of m in
         ic_Subject c = ec_Subject ext \<and> ic_Email c = ec_Email ext \<and> ic_Scopes c = ec_Scopes ext \<and>
         ic_OriginalIssuer c = ec_Issuer ext \<and> ic_Trace c = trace @ [g_issuer (h_generator h)]"
      using internal_map_identity by metis
  qed
  from Cons.IH [OF this rest] show ?case by simp
qed simp

lemma carries_internal:
  assumes laws: "jwt_laws lib verifies" and gen: "GenerateInternalToken lib s ext aud t0 = Inr tok"
  shows "carries verifies tok ext [issuer s]"
  unfolding carries_def
proof (intro allI impI)
  fix h pub m assume "verifies h tok pub m"
  with GenerateInternalToken_ok [OF laws gen] jwt_lawsD(6) [OF laws]
  have "m = internal_map (ec_Subject ext) (ec_Email ext) (ec_Scopes ext) (issuer s) aud (ec_Issuer ext)
       [issuer s] t0 (internalTTL s)" by blast
  then show "let c = internal_of m in
         ic_Subject c = ec_Subject ext \<and> ic_Email c = ec_Email ext \<and> ic_Scopes c = ec_Scopes ext \<and>
         ic_OriginalIssuer c = ec_Issuer ext \<and> ic_Trace c = [issuer s]"
    using internal_map_identity by metis
qed

subsection \<open>A concrete library\<close>

text \<open>
  One key pair (a number), one signer that knows a fixed list of claims.  The token \<^verbatim>\<open>t5\<close> is
  signed with the same key, but by another method.
\<close>

definition sample_header :: "string \<Rightarrow> jwt_header" where
  "sample_header tok = (if tok = ''t5'' then \<lparr>jh_RSA = False, jh_alg = ''PS256''\<rparr> else rs256)"

definition sample_tokens :: "(string \<times> map_claims) list \<Rightarrow> (nat, nat) jwt_lib" where
  "sample_tokens tokens =
     \<lparr>jwt_Parse = (\<lambda>tok kf now.
        (case map_of tokens tok of
           None \<Rightarrow> Inl \<lparr>je_kinds = [], je_text = ''token is malformed''\<rparr>
         | Some m \<Rightarrow>
             (case kf (sample_header tok) of
                Inl err \<Rightarrow> Inl \<lparr>je_kinds = [], je_text = token_error_text err\<rparr>
              | Inr k \<Rightarrow>
                  if k \<noteq> 7 then Inl \<lparr>je_kinds = [JwtSignatureInvalid], je_text = []\<rparr>
                  else if \<not> unexpired m now then Inl \<lparr>je_kinds = [JwtExpired], je_text = []\<rparr>
                  else Inr \<lparr>jt_Valid = True, jt_Claims = Some m\<rparr>))),
      jwt_Sign = (\<lambda>m priv.
        (case filter (\<lambda>(tok, m'). m' = m \<and> priv = 7 \<and> sample_header tok = rs256) tokens of
           [] \<Rightarrow> Inl ''key is invalid''
         | (tok, m') # _ \<Rightarrow> Inr tok)),
      PublicKey = (\<lambda>priv. priv)\<rparr>"

lemma sample_header_simps [simp]:
  "tok \<noteq> ''t5'' \<Longrightarrow> sample_header tok = rs256" "sample_header ''t5'' \<noteq> rs256" "\<not> jh_RSA (sample_header ''t5'')"
  by (simp_all add: sample_header_def rs256_def)

definition sample_verifies ::
    "(string \<times> map_claims) list \<Rightarrow> jwt_header \<Rightarrow> string \<Rightarrow> nat \<Rightarrow> map_claims \<Rightarrow> bool" where
  "sample_verifies tokens h tok pub m \<longleftrightarrow> h = sample_header tok \<and> map_of tokens tok = Some m \<and> pub = 7"

lemma sample_tokens_laws:
  assumes "distinct (map fst tokens)"
  shows "jwt_laws (sample_tokens tokens) (sample_verifies tokens)"
proof -
  have sign: "sample_verifies tokens rs256 tok (PublicKey (sample_tokens tokens) priv) m"
    if "jwt_Sign (sample_tokens tokens) m priv = Inr tok" for m priv tok
  proof -
    let ?hits = "filter (\<lambda>(tok, m'). m' = m \<and> priv = 7 \<and> sample_header tok = rs256) tokens"
    from that obtain m' rest where "?hits = (tok, m') # rest"
      by (auto simp: sample_tokens_def split: list.splits)
    then have "(tok, m') \<in> set ?hits" by (metis list.set_intros(1))
    then have "(tok, m) \<in> set tokens" "priv = 7" "sample_header tok = rs256" by auto
    with assms show ?thesis by (auto simp: sample_verifies_def sample_tokens_def)
  qed
  show ?thesis unfolding jwt_laws_def
  proof (intro conjI allI impI)
    show "sample_verifies tokens rs256 tok (PublicKey (sample_tokens tokens) priv) m"
      if "jwt_Sign (sample_tokens tokens) m priv = Inr tok" for m priv tok using sign [OF that] .
  qed (auto simp: sample_tokens_def sample_verifies_def split: option.splits sum.splits if_splits)
qed

text \<open>A gateway with the key pair 7, a user, and the token the gateway issues for the user.\<close>

definition sample_service :: "(nat, nat) jwt_service" where
  "sample_service = NewServiceWithKeys (Some 7) (Some 7) ''api-api'' (5 * minute) [''auth-service'']"

definition sample_user :: external_claims where
  "sample_user =
     \<lparr>ec_Subject = ''user-1'', ec_Email = ''u@example.org'', ec_Scopes = [''read''],
      ec_Issuer = ''auth-service'', ec_Audience = ''api-gateway'', ec_IssuedAt = 0, ec_ExpiresAt = 3600,
      ec_NotBefore = 0\<rparr>"

definition internal_map_of :: "string \<Rightarrow> map_claims" where
  "internal_map_of aud = internal_map ''user-1'' ''u@example.org'' [''read''] ''api-api'' aud ''auth-service''
     [''api-api''] 0 (5 * minute)"

definition relayed_map :: map_claims where
  "relayed_map = internal_map ''user-1'' ''u@example.org'' [''read''] ''orders'' ''billing'' ''auth-service''
     [''api-api'', ''orders''] second minute"

definition reissued_map :: map_claims where
  "reissued_map = internal_map ''user-1'' ''u@example.org'' [''read''] ''api-api'' ''svc-a'' ''api-api''
     [''api-api''] 0 (5 * minute)"

definition sample_tab :: "(string \<times> map_claims) list" where
  "sample_tab = [(''t1'', internal_map_of ''orders''), (''t2'', relayed_map),
     (''t3'', [''sub'' \<mapsto> JString ''user-1'', ''aud'' \<mapsto> JString ''api-gateway'']),
     (''t4'', reissued_map), (''t5'', [''sub'' \<mapsto> JString ''user-1''])]"

abbreviation slib :: "(nat, nat) jwt_lib" where
  "slib \<equiv> sample_tokens sample_tab"

lemma slib_laws: "jwt_laws slib (sample_verifies sample_tab)"
  by (rule sample_tokens_laws) (simp add: sample_tab_def)

lemma sample_generate: "GenerateInternalToken slib sample_service sample_user ''orders'' 0 = Inr ''t1''"
  by (simp add: GenerateInternalToken_def sample_service_def NewServiceWithKeys_def sample_user_def
      sign_claims_def sample_tokens_def sample_tab_def internal_map_of_def)

definition sample_validator :: "nat validator" where
  "sample_validator = \<lparr>v_publicKey = 7, v_allowedIssuers = []\<rparr>"

definition sample_generator :: "nat generator" where
  "sample_generator = \<lparr>g_privateKey = 7, g_issuer = ''orders'', g_defaultTTL = minute\<rparr>"

definition sample_hop :: "(nat, nat) hop" where
  "sample_hop = \<lparr>h_validator = sample_validator, h_generator = sample_generator, h_name = ''orders'',
     h_next = ''billing'', h_now = second\<rparr>"

lemma unix_second: "unix second = 1"
  by (simp add: unix_def second_def)

lemma sample_map_facts:
  "internal_of (internal_map sub email scopes iss aud orig trace 0 (5 * minute)) =
     \<lparr>ic_Subject = sub, ic_Email = email, ic_Scopes = scopes, ic_Issuer = iss, ic_Audience = aud,
      ic_Trace = trace, ic_OriginalIssuer = orig, ic_IssuedAt = 0, ic_ExpiresAt = 300\<rparr>"
  "internal_of (internal_map sub email scopes iss aud orig trace second minute) =
     \<lparr>ic_Subject = sub, ic_Email = email, ic_Scopes = scopes, ic_Issuer = iss, ic_Audience = aud,
      ic_Trace = trace, ic_OriginalIssuer = orig, ic_IssuedAt = 1, ic_ExpiresAt = 61\<rparr>"
  "external_of (internal_map sub email scopes iss aud orig trace 0 (5 * minute)) =
     \<lparr>ec_Subject = sub, ec_Email = email, ec_Scopes = scopes, ec_Issuer = iss, ec_Audience = aud,
      ec_IssuedAt = 0, ec_ExpiresAt = 300, ec_NotBefore = 0\<rparr>"
  "unexpired (internal_map sub email scopes iss aud orig trace 0 (5 * minute)) second"
  "unexpired (internal_map sub email scopes iss aud orig trace second minute) second"
  "unexpired (internal_map sub email scopes iss aud orig trace 0 (5 * minute)) 0"
  by (simp_all add: internal_map_claims(2) external_of_internal_map unexpired_internal_map
      in_int64_def unix_def minute_def second_def)

lemma sample_accepts:
  assumes "tok \<noteq> ''t5''" and "map_of sample_tab tok = Some m" and "unexpired m second"
    and "internal_Valid (internal_of m) second = None" and "ic_Audience (internal_of m) = aud"
  shows "Validator_ValidateInternalToken slib sample_validator tok aud second = Inr (internal_of m)"
  using assms
  by (simp add: Validator_ValidateInternalToken_def parsed_claims_def sample_tokens_def
      sample_validator_def rsa_keyfunc_def rs256_RSA ValidateAudience_def Let_def)

lemma sample_external:
  assumes "tok \<noteq> ''t5''" and "map_of sample_tab tok = Some m" and "unexpired m now"
    and "external_Valid (external_of m) now = None"
  shows "ValidateExternalToken slib sample_service tok now = Inr (external_of m)"
  using assms
  by (simp add: ValidateExternalToken_def parsed_claims_def sample_tokens_def
      sample_service_def NewServiceWithKeys_def rsa_keyfunc_def rs256_RSA Let_def)

text \<open>The gateway accepts \<^verbatim>\<open>t1\<close> from outside and issues \<^verbatim>\<open>t4\<close> for it.\<close>

lemma sample_reissue:
  "ValidateExternalToken slib sample_service ''t1'' 0 = Inr (external_of (internal_map_of ''orders''))"
  "GenerateInternalToken slib sample_service (external_of (internal_map_of ''orders'')) ''svc-a'' 0 = Inr ''t4''"
proof -
  show "ValidateExternalToken slib sample_service ''t1'' 0 = Inr (external_of (internal_map_of ''orders''))"
    by (rule sample_external)
       (simp_all add: internal_map_of_def sample_map_facts sample_tab_def external_Valid_def unix_def)
  have "internal_map_of ''orders'' ''aud'' \<noteq> reissued_map ''aud''" "relayed_map ''aud'' \<noteq> reissued_map ''aud''"
    "reissued_map ''iss'' \<noteq> None"
    by (simp_all add: internal_map_of_def relayed_map_def reissued_map_def internal_map_def)
  moreover have "[''sub'' \<mapsto> JString ''user-1'', ''aud'' \<mapsto> JString ''api-gateway''] ''iss'' = None" by simp
  ultimately have ne: "internal_map_of ''orders'' \<noteq> reissued_map" "relayed_map \<noteq> reissued_map"
    "[''sub'' \<mapsto> JString ''user-1'', ''aud'' \<mapsto> JString ''api-gateway''] \<noteq> reissued_map"
    by metis+
  have "GenerateInternalToken slib sample_service (external_of (internal_map_of ''orders'')) ''svc-a'' 0 =
      sign_claims slib reissued_map 7"
    by (simp add: GenerateInternalToken_def sample_service_def NewServiceWithKeys_def internal_map_of_def
        sample_map_facts reissued_map_def)
  also have "\<dots> = Inr ''t4''"
    using ne by (simp add: sign_claims_def sample_tokens_def sample_tab_def)
  finally show "GenerateInternalToken slib sample_service (external_of (internal_map_of ''orders'')) ''svc-a'' 0 =
      Inr ''t4''" .
qed

subsection \<open>Properties\<close>

text \<open>
  C14. The token the gateway issues for a user is accepted by the SDK validator of the audience
  until it expires, and gives back the user: subject, e-mail, scopes, original issuer, with the
  gateway as issuer and the only entry of the trace.  No other audience accepts it.
\<close>

theorem internal_token_roundtrip:
  assumes laws: "jwt_laws lib verifies" and gen: "GenerateInternalToken lib s ext aud t0 = Inr tok"
    and key: "privateKey s = Some priv" "v_publicKey v = PublicKey lib priv"
    and fields: "ec_Subject ext \<noteq> []" "issuer s \<noteq> []" "aud \<noteq> []"
    and allowed: "v_allowedIssuers v = [] \<or> issuer s \<in> set (v_allowedIssuers v)"
    and range: "in_int64 (unix t0)" "in_int64 (unix (t0 + internalTTL s))"
    and time: "now < unix (t0 + internalTTL s) * second"
  shows "Validator_ValidateInternalToken lib v tok aud now =
      Inr \<lparr>ic_Subject = ec_Subject ext, ic_Email = ec_Email ext, ic_Scopes = ec_Scopes ext,
           ic_Issuer = issuer s, ic_Audience = aud, ic_Trace = [issuer s],
           ic_OriginalIssuer = ec_Issuer ext, ic_IssuedAt = unix t0,
           ic_ExpiresAt = unix (t0 + internalTTL s)\<rparr> \<and>
    (\<forall>other. other \<noteq> aud \<longrightarrow>
       Validator_ValidateInternalToken lib v tok other now = Inl (ErrTokenAudienceMismatch other aud))"
proof -
  let ?m = "internal_map (ec_Subject ext) (ec_Email ext) (ec_Scopes ext) (issuer s) aud (ec_Issuer ext)
       [issuer s] t0 (internalTTL s)"
  have "verifies rs256 tok (v_publicKey v) ?m" using GenerateInternalToken_ok [OF laws gen] key by simp
  then have "parsed_claims lib False (v_publicKey v) tok now = Inr ?m"
    using parsed_claims_complete [OF laws _ rs256_RSA] internal_map_claims(1) time range(2) unexpired_internal_map by metis
  then show ?thesis
    using fields allowed unix_before [OF time]
    by (auto simp: Validator_ValidateInternalToken_def internal_map_claims(2) [OF range] internal_Valid_def
        ValidateAudience_def ValidateIssuer_def issuer_loop_iff Let_def)
qed

theorem internal_token_roundtrip_witness:
  "\<exists>c. Validator_ValidateInternalToken slib sample_validator ''t1'' ''orders'' second = Inr c \<and>
     ic_Subject c = ''user-1'' \<and> ic_Scopes c = [''read''] \<and>
     Validator_ValidateInternalToken slib sample_validator ''t1'' ''billing'' second =
       Inl (ErrTokenAudienceMismatch ''billing'' ''orders'')"
  using internal_token_roundtrip [OF slib_laws sample_generate, of 7 sample_validator second]
  by (simp add: sample_service_def NewServiceWithKeys_def sample_user_def sample_validator_def
      sample_tokens_def in_int64_def unix_def minute_def second_def)

text \<open>
  C13. However many services a request is handed through, each with a token of its own: the last
  token that is accepted still names the user of the first one, with the user's e-mail, scopes
  and issuer, and its trace lists every issuer on the way, in order.
\<close>

theorem relay_preserves_identity:
  assumes laws: "jwt_laws lib verifies" and gen: "GenerateInternalToken lib s ext aud t0 = Inr tok"
    and chain: "relay lib tok hs = Inr tok'"
    and last: "Validator_ValidateInternalToken lib v tok' aud' now = Inr c"
  shows "ic_Subject c = ec_Subject ext \<and> ic_Email c = ec_Email ext \<and> ic_Scopes c = ec_Scopes ext \<and>
    ic_OriginalIssuer c = ec_Issuer ext \<and> ic_Audience c = aud' \<and>
    ic_Trace c = issuer s # map (g_issuer \<circ> h_generator) hs"
  using carries_sdk [OF laws carries_relay [OF laws carries_internal [OF laws gen] chain] last]
    sdk_validator.accepted_audience [OF last] by simp

theorem relay_preserves_identity_witness:
  "\<exists>tok' c. relay slib ''t1'' [sample_hop] = Inr tok' \<and>
     Validator_ValidateInternalToken slib sample_validator tok' ''billing'' second = Inr c \<and>
     ic_Subject c = ''user-1'' \<and> ic_Trace c = [''api-api'', ''orders'']"
proof -
  have one: "Validator_ValidateInternalToken slib sample_validator ''t1'' ''orders'' second =
      Inr (internal_of (internal_map_of ''orders''))"
    by (rule sample_accepts) (simp_all add: sample_tab_def internal_map_of_def sample_map_facts
      internal_Valid_def unix_second)
  have ne: "internal_map_of ''orders'' \<noteq> relayed_map"
  proof
    assume "internal_map_of ''orders'' = relayed_map"
    then have "internal_map_of ''orders'' ''aud'' = relayed_map ''aud''" by simp
    then show False by (simp add: internal_map_of_def relayed_map_def internal_map_def)
  qed
  have "Generator_GenerateServiceToken slib sample_generator
      (internal_of (internal_map_of ''orders'')) ''billing'' second = sign_claims slib relayed_map 7"
    by (simp add: Generator_GenerateServiceToken_def GenerateServiceTokenWithTTL_def sample_generator_def
        internal_map_of_def relayed_map_def sample_map_facts)
  also have "\<dots> = Inr ''t2''"
    using ne by (simp add: sign_claims_def sample_tokens_def sample_tab_def)
  finally have two: "Generator_GenerateServiceToken slib sample_generator
      (internal_of (internal_map_of ''orders'')) ''billing'' second = Inr ''t2''" .
  have three: "Validator_ValidateInternalToken slib sample_validator ''t2'' ''billing'' second =
      Inr (internal_of relayed_map)"
    by (rule sample_accepts) (simp_all add: sample_tab_def relayed_map_def sample_map_facts
      internal_Valid_def unix_second)
  have chain: "relay slib ''t1'' [sample_hop] = Inr ''t2''"
    by (simp add: sample_hop_def one two)
  from relay_preserves_identity [OF slib_laws sample_generate chain three] chain three show ?thesis
    by (simp add: sample_user_def sample_service_def NewServiceWithKeys_def sample_hop_def
        sample_generator_def)
qed



text \<open>
  The validation of external tokens looks at neither the issuer nor the audience: when the
  gateway verifies with the public half of its own signing key (the default when only the
  private key is configured), a token it issued to a backend on behalf of a user is accepted
  back as an external token of that user, for whatever service it was meant.
\<close>

lemma internal_token_is_external:
  assumes laws: "jwt_laws lib verifies" and gen: "GenerateInternalToken lib s ext aud t0 = Inr tok"
    and key: "privateKey s = Some priv" "publicKey s = Some (PublicKey lib priv)"
    and sub: "ec_Subject ext \<noteq> []"
    and range: "in_int64 (unix t0)" "in_int64 (unix (t0 + internalTTL s))"
    and time: "now < unix (t0 + internalTTL s) * second"
  shows "ValidateExternalToken lib s tok now =
    Inr \<lparr>ec_Subject = ec_Subject ext, ec_Email = ec_Email ext, ec_Scopes = ec_Scopes ext,
         ec_Issuer = issuer s, ec_Audience = aud, ec_IssuedAt = unix t0,
         ec_ExpiresAt = unix (t0 + internalTTL s), ec_NotBefore = 0\<rparr>"
proof -
  let ?m = "internal_map (ec_Subject ext) (ec_Email ext) (ec_Scopes ext) (issuer s) aud (ec_Issuer ext)
       [issuer s] t0 (internalTTL s)"
  have "verifies rs256 tok (PublicKey lib priv) ?m" using GenerateInternalToken_ok [OF laws gen] key by simp
  then have "parsed_claims lib True (PublicKey lib priv) tok now = Inr ?m"
    using parsed_claims_complete [OF laws _ rs256_RSA] internal_map_claims(1) time range(2) unexpired_internal_map by metis
  then show ?thesis
    using sub unix_before [OF time]
    by (auto simp: ValidateExternalToken_def key external_of_internal_map [OF range] external_Valid_def Let_def)
qed

text \<open>
  C37. A service token is recognised by its audience alone: any external token the gateway
  accepts for a user and whose audience is the gateway also passes as the token of a service,
  whose name is then the user's subject.
\<close>

theorem user_token_is_service_token:
  assumes "ValidateExternalToken lib s tok now = Inr c" and "ec_Audience c = ''api-gateway''"
  shows "ValidateServiceToken lib s tok now = Inr (ec_Subject c)"
proof -
  from assms(1) obtain pub m where pub: "publicKey s = Some pub"
    and m: "parsed_claims lib True pub tok now = Inr m" and c: "c = external_of m"
    and valid: "external_Valid c now = None"
    by (auto simp: ValidateExternalToken_def Let_def split: option.splits sum.splits)
  from m have "parsed_claims lib False pub tok now = Inr m"
    by (auto simp: parsed_claims_def split: sum.splits option.splits if_splits)
  moreover from valid have "ec_Subject c \<noteq> []"
    by (auto simp: external_Valid_def Let_def split: if_splits)
  ultimately show ?thesis
    using pub assms(2) by (simp add: ValidateServiceToken_def c external_of_def Let_def)
qed

theorem user_token_is_service_token_witness:
  "ValidateServiceToken slib sample_service ''t3'' 0 = Inr ''user-1''"
proof -
  let ?m = "[''sub'' \<mapsto> JString ''user-1'', ''aud'' \<mapsto> JString ''api-gateway'']"
  have "ValidateExternalToken slib sample_service ''t3'' 0 = Inr (external_of ?m)"
    by (rule sample_external)
       (simp_all add: sample_tab_def unexpired_def external_of_def getStringClaim_def
        getTimeClaim_def getStringSliceClaim_def external_Valid_def)
  from user_token_is_service_token [OF this] show ?thesis
    by (simp add: external_of_def getStringClaim_def)
qed

text \<open>
  C29. The validator of the gateway and the one of the SDK are the same function of the key and
  the issuer list as long as that list is not empty.  With an empty list they part: the gateway
  accepts no token at all, while the SDK accepts exactly the tokens the gateway would accept if
  it allowed their issuer, whoever that is.
\<close>

theorem validators_agree:
  assumes "publicKey s = Some (v_publicKey v)" and "v_allowedIssuers v = allowedIssuers s"
  shows "(if allowedIssuers s \<noteq> []
     then Validator_ValidateInternalToken lib v tok aud now = ValidateInternalToken lib s tok aud now
     else (\<nexists>c. ValidateInternalToken lib s tok aud now = Inr c) \<and>
       (\<forall>c. Validator_ValidateInternalToken lib v tok aud now = Inr c \<longleftrightarrow>
          ValidateInternalToken lib (s\<lparr>allowedIssuers := [ic_Issuer c]\<rparr>) tok aud now = Inr c))"
proof (cases "allowedIssuers s = []")
  case True
  have "Validator_ValidateInternalToken lib v tok aud now = Inr c \<longleftrightarrow>
      ValidateInternalToken lib (s\<lparr>allowedIssuers := [ic_Issuer c]\<rparr>) tok aud now = Inr c" for c
    using assms True
    by (auto simp: ValidateInternalToken_def Validator_ValidateInternalToken_def ValidateIssuer_def Let_def
        split: sum.splits option.splits if_splits)
  with True show ?thesis using ValidateInternalToken_ok [of lib s tok aud now] by fastforce
next
  case False
  with assms show ?thesis
    by (simp add: ValidateInternalToken_def Validator_ValidateInternalToken_def Let_def
        split: sum.split option.split)
qed

theorem validators_agree_witness:
  "(\<nexists>c. ValidateInternalToken slib (sample_service\<lparr>allowedIssuers := []\<rparr>) ''t1'' ''orders'' second = Inr c) \<and>
   ValidateInternalToken slib (sample_service\<lparr>allowedIssuers := [''api-api'']\<rparr>) ''t1'' ''orders'' second =
     Inr (internal_of (internal_map_of ''orders''))"
proof -
  let ?s = "sample_service\<lparr>allowedIssuers := []\<rparr>"
  have same: "publicKey ?s = Some (v_publicKey sample_validator)" "v_allowedIssuers sample_validator = allowedIssuers ?s"
    by (simp_all add: sample_service_def NewServiceWithKeys_def sample_validator_def)
  have sdk: "Validator_ValidateInternalToken slib sample_validator ''t1'' ''orders'' second =
      Inr (internal_of (internal_map_of ''orders''))"
    by (rule sample_accepts)
       (simp_all add: internal_map_of_def sample_map_facts sample_tab_def internal_Valid_def unix_second)
  have iss: "ic_Issuer (internal_of (internal_map_of ''orders'')) = ''api-api''"
    by (simp add: internal_map_of_def sample_map_facts)
  from validators_agree [OF same, of slib "''t1''" "''orders''" second] have
    none: "\<nexists>c. ValidateInternalToken slib ?s ''t1'' ''orders'' second = Inr c" and
    agree: "\<And>c. Validator_ValidateInternalToken slib sample_validator ''t1'' ''orders'' second = Inr c \<longleftrightarrow>
      ValidateInternalToken slib (?s\<lparr>allowedIssuers := [ic_Issuer c]\<rparr>) ''t1'' ''orders'' second = Inr c" by simp_all
  from none agree [of "internal_of (internal_map_of ''orders'')"] sdk show ?thesis by (simp add: iss)
qed

end
