(* ===== verification/RateLimit.thy ===== *)
theory RateLimit
  imports Go_Strings Float64 "HOL-Library.Finite_Map" "HOL-Library.List_Lexorder"
    "HOL-Library.Char_ord"
begin

text \<open>
  The rate limiters of \<^verbatim>\<open>internal/infrastructure/ratelimit\<close>: the in-memory sliding window
  and the Redis sliding window.  A call is one step: the clock reading is an argument.  The
  Redis server is a parameter, a record of the sorted-set commands the limiter sends.
\<close>

subsection \<open>The interface\<close>

record limit_result =
  Allowed :: bool
  Limit :: int
  Remaining :: int
  ResetAt :: gotime

text \<open>
  What a caller of the Go interface \<^verbatim>\<open>RateLimiter\<close> relies on in a result, whatever the
  limiter: it names the limit that was asked for, its remaining budget is never negative nor
  above the limit, a refusal leaves none, and the window ends after the call.
\<close>

definition consistent_result :: "int \<Rightarrow> gotime \<Rightarrow> limit_result \<Rightarrow> bool" where
  "consistent_result limit now res \<longleftrightarrow>
     Limit res = limit \<and> 0 \<le> Remaining res \<and> (0 < limit \<longrightarrow> Remaining res < limit) \<and>
     (\<not> Allowed res \<longrightarrow> Remaining res = 0) \<and> (limit \<le> 0 \<longrightarrow> \<not> Allowed res) \<and> now < ResetAt res"

locale rate_limiter =
  fixes allow :: "'s \<Rightarrow> string \<Rightarrow> int \<Rightarrow> gotime \<Rightarrow> 's \<times> (string + limit_result)"
    and ready :: "'s \<Rightarrow> bool"
  assumes allow_ready: "ready s \<Longrightarrow> ready (fst (allow s key limit now))"
    and allow_consistent:
      "ready s \<Longrightarrow> snd (allow s key limit now) = Inr res \<Longrightarrow> consistent_result limit now res"
begin

lemma refused_no_budget:
  "ready s \<Longrightarrow> snd (allow s key limit now) = Inr res \<Longrightarrow> \<not> Allowed res \<Longrightarrow> Remaining res = 0"
  using allow_consistent by (auto simp: consistent_result_def)

lemma nonpositive_limit_refuses:
  "ready s \<Longrightarrow> snd (allow s key limit now) = Inr res \<Longrightarrow> limit \<le> 0 \<Longrightarrow> \<not> Allowed res"
  using allow_consistent by (auto simp: consistent_result_def)

end

subsection \<open>The in-memory limiter\<close>

record in_memory_limiter =
  requests :: "string \<rightharpoonup> gotime list"
  window :: duration

definition NewInMemoryLimiter :: in_memory_limiter where
  "NewInMemoryLimiter = \<lparr>requests = Map.empty, window = minute\<rparr>"

primrec valid_timestamps :: "gotime \<Rightarrow> gotime list \<Rightarrow> gotime list" where
  "valid_timestamps windowStart [] = []"
| "valid_timestamps windowStart (ts # rest) =
     (if ts > windowStart then ts # valid_timestamps windowStart rest
      else valid_timestamps windowStart rest)"

definition Allow ::
    "in_memory_limiter \<Rightarrow> string \<Rightarrow> int \<Rightarrow> gotime \<Rightarrow> in_memory_limiter \<times> limit_result" where
  "Allow l key limit now =
     (let windowStart = now - window l;
          validTimestamps = valid_timestamps windowStart (get_slice (requests l) key);
          count = int (length validTimestamps);
          allowed = count < limit;
          stored = (if allowed then validTimestamps @ [now] else validTimestamps);
          remaining0 = limit - count - 1;
          remaining1 = (if remaining0 < 0 then 0 else remaining0);
          remaining = (if \<not> allowed then 0 else remaining1)
      in (l\<lparr>requests := (requests l)(key \<mapsto> stored)\<rparr>,
          \<lparr>Allowed = allowed, Limit = limit, Remaining = remaining, ResetAt = now + window l\<rparr>))"

lemma valid_timestamps_filter: "valid_timestamps w ts = filter (\<lambda>t. w < t) ts"
  by (induction ts) auto

lemma Allow_sel:
  "window (fst (Allow l key limit now)) = window l"
  "requests (fst (Allow l key limit now)) = (requests l)(key \<mapsto>
     (let v = filter (\<lambda>t. now - window l < t) (get_slice (requests l) key) in
      if int (length v) < limit then v @ [now] else v))"
  "Allowed (snd (Allow l key limit now)) \<longleftrightarrow>
     int (length (filter (\<lambda>t. now - window l < t) (get_slice (requests l) key))) < limit"
  by (simp_all add: Allow_def Let_def valid_timestamps_filter)

lemma Allow_consistent:
  "0 < window l \<Longrightarrow> consistent_result limit now (snd (Allow l key limit now))"
  by (auto simp: consistent_result_def Allow_def Let_def)

text \<open>The Go method always returns a nil error.\<close>

definition in_memory_allow ::
    "in_memory_limiter \<Rightarrow> string \<Rightarrow> int \<Rightarrow> gotime \<Rightarrow> in_memory_limiter \<times> (string + limit_result)" where
  "in_memory_allow l key limit now = (let (l', res) = Allow l key limit now in (l', Inr res))"

interpretation memory: rate_limiter in_memory_allow "\<lambda>l. 0 < window l"
  by unfold_locales
     (auto simp: in_memory_allow_def case_prod_beta Allow_sel(1) dest: Allow_consistent)

subsection \<open>Its specification: the full history\<close>

text \<open>
  The specification never forgets: it keeps every accepted request of a key, and accepts a
  request when fewer than the limit were accepted in the window that ends with it.
\<close>

type_synonym history = "string \<Rightarrow> gotime list"

definition in_window :: "duration \<Rightarrow> gotime \<Rightarrow> gotime list \<Rightarrow> gotime list" where
  "in_window w now ts = filter (\<lambda>t. now - w < t \<and> t \<le> now) ts"

definition spec_allow :: "duration \<Rightarrow> history \<Rightarrow> string \<Rightarrow> int \<Rightarrow> gotime \<Rightarrow> history \<times> bool" where
  "spec_allow w h key limit now =
     (let ok = int (length (in_window w now (h key))) < limit in
      (if ok then h(key := h key @ [now]) else h, ok))"

record call =
  c_key :: string
  c_limit :: int
  c_now :: gotime

fun allow_run :: "in_memory_limiter \<Rightarrow> call list \<Rightarrow> bool list" where
  "allow_run l [] = []"
| "allow_run l (c # cs) =
     (let (l', res) = Allow l (c_key c) (c_limit c) (c_now c) in Allowed res # allow_run l' cs)"

fun spec_run :: "duration \<Rightarrow> history \<Rightarrow> call list \<Rightarrow> bool list" where
  "spec_run w h [] = []"
| "spec_run w h (c # cs) =
     (let (h', ok) = spec_allow w h (c_key c) (c_limit c) (c_now c) in ok # spec_run w h' cs)"

text \<open>
  The simulation: at time \<open>now\<close> the limiter stores of each key the tail of the history, from
  which everything still inside any later window can be read off.
\<close>

definition limiter_sim :: "duration \<Rightarrow> gotime \<Rightarrow> in_memory_limiter \<Rightarrow> history \<Rightarrow> bool" where
  "limiter_sim w now l h \<longleftrightarrow> window l = w \<and>
     (\<forall>k. (\<forall>t \<in> set (h k). t \<le> now) \<and>
          (\<forall>n \<ge> now. filter (\<lambda>t. n - w < t) (get_slice (requests l) k) = filter (\<lambda>t. n - w < t) (h k)))"

lemma in_window_past: "\<forall>t \<in> set ts. t \<le> now \<Longrightarrow> in_window w now ts = filter (\<lambda>t. now - w < t) ts"
  by (auto simp: in_window_def intro: filter_cong)

lemma limiter_sim_step:
  assumes sim: "limiter_sim w t0 l h" and le: "t0 \<le> now"
  shows "limiter_sim w now (fst (Allow l key limit now)) (fst (spec_allow w h key limit now))"
    and "Allowed (snd (Allow l key limit now)) = snd (spec_allow w h key limit now)"
proof -
  have win: "window l = w" and past: "\<forall>t \<in> set (h k). t \<le> t0"
    and eq: "n \<ge> t0 \<Longrightarrow> filter (\<lambda>t. n - w < t) (get_slice (requests l) k) = filter (\<lambda>t. n - w < t) (h k)"
    for k n using sim by (auto simp: limiter_sim_def)
  have past': "\<forall>t \<in> set (h k). t \<le> now" for k using past [of k] le by force
  have cur: "filter (\<lambda>t. now - w < t) (get_slice (requests l) key) = in_window w now (h key)"
    using eq [OF le, of key] in_window_past [OF past', of w key] by simp
  show "Allowed (snd (Allow l key limit now)) = snd (spec_allow w h key limit now)"
    by (simp add: Allow_sel win cur spec_allow_def Let_def)
  have later: "filter (\<lambda>t. n - w < t) (in_window w now (h key)) = filter (\<lambda>t. n - w < t) (h key)"
    if "now \<le> n" for n
    using that past' [of key] by (auto simp: in_window_def intro: filter_cong)
  show "limiter_sim w now (fst (Allow l key limit now)) (fst (spec_allow w h key limit now))"
    using past' eq le later
    by (auto simp: limiter_sim_def Allow_sel win cur spec_allow_def Let_def get_slice_upd)
qed

lemma limiter_refines_run:
  "limiter_sim w t0 l h \<Longrightarrow> sorted (t0 # map c_now cs) \<Longrightarrow> allow_run l cs = spec_run w h cs"
proof (induction cs arbitrary: t0 l h)
  case (Cons c cs)
  from Cons.prems have "t0 \<le> c_now c" "sorted (c_now c # map c_now cs)" by simp_all
  with Cons.IH [OF limiter_sim_step(1) [OF Cons.prems(1)]] limiter_sim_step(2) [OF Cons.prems(1)]
  show ?case by (simp add: case_prod_beta)
qed simp

lemma limiter_sim_new: "limiter_sim minute t0 NewInMemoryLimiter (\<lambda>_. [])"
  by (simp add: limiter_sim_def NewInMemoryLimiter_def)

text \<open>The requests of one key that were accepted in a run.\<close>

definition accepted :: "string \<Rightarrow> call list \<Rightarrow> bool list \<Rightarrow> gotime list" where
  "accepted key cs oks = map (c_now \<circ> fst) (filter (\<lambda>(c, ok). ok \<and> c_key c = key) (zip cs oks))"

fun spec_history :: "duration \<Rightarrow> history \<Rightarrow> call list \<Rightarrow> history" where
  "spec_history w h [] = h"
| "spec_history w h (c # cs) = spec_history w (fst (spec_allow w h (c_key c) (c_limit c) (c_now c))) cs"

lemma accepted_simps [simp]:
  "accepted key [] oks = []"
  "accepted key (c # cs) (ok # oks) =
     (if ok \<and> c_key c = key then c_now c # accepted key cs oks else accepted key cs oks)"
  by (simp_all add: accepted_def)

lemma spec_history_accepted: "spec_history w h cs key = h key @ accepted key cs (spec_run w h cs)"
  by (induction cs arbitrary: h) (auto simp: spec_allow_def Let_def)

lemma in_window_append:
  assumes past: "\<forall>t \<in> set ts. t \<le> now" and room: "int (length (in_window w now ts)) < limit"
    and bound: "\<And>t. int (length (in_window w t ts)) \<le> max 0 limit"
  shows "int (length (in_window w t (ts @ [now]))) \<le> max 0 limit"
proof (cases "now \<le> t")
  case True
  have "length (in_window w t ts) \<le> length (in_window w now ts)"
  proof -
    have "in_window w t ts = filter (\<lambda>x. t - w < x) (in_window w now ts)"
      using past True by (auto simp: in_window_def intro!: filter_cong)
    then show ?thesis by (simp add: length_filter_le)
  qed
  with room show ?thesis by (auto simp: in_window_def)
next
  case False
  with bound [of t] show ?thesis by (simp add: in_window_def)
qed

lemma spec_history_bound:
  assumes "sorted (t0 # map c_now cs)" and "\<forall>c \<in> set cs. c_key c = key \<longrightarrow> c_limit c = limit"
    and "\<forall>t \<in> set (h key). t \<le> t0" and "\<And>t. int (length (in_window w t (h key))) \<le> max 0 limit"
  shows "int (length (in_window w t (spec_history w h cs key))) \<le> max 0 limit"
  using assms
proof (induction cs arbitrary: t0 h)
  case (Cons c cs)
  let ?h = "fst (spec_allow w h (c_key c) (c_limit c) (c_now c))"
  from Cons.prems(1) have le: "t0 \<le> c_now c" and srt: "sorted (c_now c # map c_now cs)" by simp_all
  have past: "\<forall>t \<in> set (h key). t \<le> c_now c" using Cons.prems(3) le by force
  have "int (length (in_window w t (?h key))) \<le> max 0 limit" for t
  proof (cases "c_key c = key \<and> int (length (in_window w (c_now c) (h key))) < c_limit c")
    case True
    with Cons.prems(2) have "c_limit c = limit" by simp
    with True in_window_append [OF past _ Cons.prems(4)] show ?thesis
      by (simp add: spec_allow_def Let_def)
  next
    case False
    with Cons.prems(4) show ?thesis by (auto simp: spec_allow_def Let_def)
  qed
  moreover have "\<forall>t \<in> set (?h key). t \<le> c_now c" using past by (auto simp: spec_allow_def Let_def)
  ultimately show ?case using Cons.IH [OF srt, of ?h] Cons.prems(2) by simp
qed simp

lemma new_limiter_refines:
  assumes "sorted (map c_now cs)"
  shows "allow_run NewInMemoryLimiter cs = spec_run minute (\<lambda>_. []) cs"
proof (cases cs)
  case (Cons c cs')
  with assms limiter_refines_run [OF limiter_sim_new, of "c_now c" cs] show ?thesis by simp
qed simp

subsection \<open>The Redis limiter\<close>

text \<open>
  A score is a \<^verbatim>\<open>float64\<close>: an integer of more than 53 bits is rounded to the nearest
  multiple of a power of two, ties to even.
\<close>

definition float64_of_int :: "int \<Rightarrow> int" where
  "float64_of_int x =
     (let a = nat \<bar>x\<bar>; len = bit_length a in
      if len \<le> 53 then x
      else (let s = len - 53; q = a div 2 ^ s; r = a mod 2 ^ s; half = 2 ^ (s - 1);
                q' = (if r > half \<or> (r = half \<and> odd q) then q + 1 else q)
            in sgn x * int (q' * 2 ^ s)))"

text \<open>
  The client of \<^verbatim>\<open>go-redis\<close>: the sorted-set commands as functions on a database, and the
  outcome of sending the pipeline (an error, with whatever it left of the database).
\<close>

record 'db redis_client =
  ZRemRangeByScore :: "string \<Rightarrow> string \<Rightarrow> string \<Rightarrow> 'db \<Rightarrow> 'db"
  ZCard :: "string \<Rightarrow> 'db \<Rightarrow> int"
  ZAdd :: "string \<Rightarrow> int \<Rightarrow> string \<Rightarrow> 'db \<Rightarrow> 'db"
  Expire :: "string \<Rightarrow> duration \<Rightarrow> 'db \<Rightarrow> 'db"
  ZPopMin :: "string \<Rightarrow> 'db \<Rightarrow> 'db"
  pipe_error :: "'db \<Rightarrow> string option"
  after_error :: "'db \<Rightarrow> 'db"

record 'db limiter =
  client :: "'db redis_client"
  lwindow :: duration

definition NewLimiter :: "'db redis_client \<Rightarrow> 'db limiter" where
  "NewLimiter c = \<lparr>client = c, lwindow = minute\<rparr>"

definition Limiter_Allow ::
    "'db limiter \<Rightarrow> 'db \<Rightarrow> string \<Rightarrow> int \<Rightarrow> gotime \<Rightarrow> 'db \<times> (string + limit_result)" where
  "Limiter_Allow l db key limit now =
     (case pipe_error (client l) db of
        Some err \<Rightarrow> (after_error (client l) db, Inl (''redis pipeline failed: '' @ err))
      | None \<Rightarrow>
          (let windowStart = now - lwindow l;
               db1 = ZRemRangeByScore (client l) key ''0'' (Itoa windowStart) db;
               count = ZCard (client l) key db1;
               db2 = ZAdd (client l) key (float64_of_int now) (Itoa now) db1;
               db3 = Expire (client l) key (lwindow l + second) db2;
               remaining0 = limit - count - 1;
               remaining1 = (if remaining0 < 0 then 0 else remaining0);
               allowed = count < limit
           in if \<not> allowed
              then (ZPopMin (client l) key db3,
                    Inr \<lparr>Allowed = False, Limit = limit, Remaining = 0, ResetAt = now + lwindow l\<rparr>)
              else (db3, Inr \<lparr>Allowed = True, Limit = limit, Remaining = remaining1,
                              ResetAt = now + lwindow l\<rparr>)))"

definition counts_members :: "'db limiter \<Rightarrow> bool" where
  "counts_members l \<longleftrightarrow> (\<forall>key db. 0 \<le> ZCard (client l) key db)"

lemma Limiter_Allow_consistent:
  assumes "0 < lwindow l" and "counts_members l" and "snd (Limiter_Allow l db key limit now) = Inr res"
  shows "consistent_result limit now res"
proof -
  have "0 \<le> ZCard (client l) key (ZRemRangeByScore (client l) key ''0'' (Itoa (now - lwindow l)) db)"
    using assms(2) by (simp add: counts_members_def)
  with assms(1,3) show ?thesis
    by (auto simp: Limiter_Allow_def consistent_result_def Let_def split: option.splits if_splits)
qed

interpretation redis: rate_limiter "Limiter_Allow l" "\<lambda>_. 0 < lwindow l \<and> counts_members l"
  by unfold_locales (auto dest: Limiter_Allow_consistent)

subsection \<open>What the server does with the commands\<close>

text \<open>
  The documented behaviour of the sorted-set commands, on \<open>zset db key\<close>, the members of a key
  with their scores: a member has one score, \<^verbatim>\<open>ZPOPMIN\<close> removes a member of least score, and
  an expiry changes no member.
\<close>

definition sorted_set_laws ::
    "'db redis_client \<Rightarrow> ('db \<Rightarrow> string \<Rightarrow> (string, int) fmap) \<Rightarrow> bool" where
  "sorted_set_laws c zset \<longleftrightarrow>
     (\<forall>key db. ZCard c key db = int (fcard (fmdom (zset db key)))) \<and>
     (\<forall>key n db. zset (ZRemRangeByScore c key ''0'' (Itoa n) db) key =
        fmfilter (\<lambda>m. \<not> (0 \<le> the (fmlookup (zset db key) m) \<and> the (fmlookup (zset db key) m) \<le> n))
          (zset db key)) \<and>
     (\<forall>key s m db. zset (ZAdd c key s m db) key = fmupd m s (zset db key)) \<and>
     (\<forall>key d db. zset (Expire c key d db) = zset db) \<and>
     (\<forall>key db. zset db key \<noteq> fmempty \<longrightarrow>
        (\<exists>m s. fmlookup (zset db key) m = Some s \<and>
           (\<forall>m' s'. fmlookup (zset db key) m' = Some s' \<longrightarrow> s \<le> s') \<and>
           zset (ZPopMin c key db) key = fmdrop m (zset db key)))"

definition still_valid :: "int \<Rightarrow> (string, int) fmap \<Rightarrow> (string, int) fmap" where
  "still_valid n z = fmfilter (\<lambda>m. \<not> (0 \<le> the (fmlookup z m) \<and> the (fmlookup z m) \<le> n)) z"

lemma sorted_set_lawsD:
  assumes "sorted_set_laws c zset"
  shows "ZCard c key db = int (fcard (fmdom (zset db key)))"
    and "zset (ZRemRangeByScore c key ''0'' (Itoa n) db) key = still_valid n (zset db key)"
    and "zset (ZAdd c key s m db) key = fmupd m s (zset db key)"
    and "zset (Expire c key d db) = zset db"
    and "zset db key \<noteq> fmempty \<Longrightarrow>
      \<exists>m s. fmlookup (zset db key) m = Some s \<and>
        (\<forall>m' s'. fmlookup (zset db key) m' = Some s' \<longrightarrow> s \<le> s') \<and>
        zset (ZPopMin c key db) key = fmdrop m (zset db key)"
  using assms unfolding sorted_set_laws_def still_valid_def by blast+

text \<open>A server with these commands, each key a finite map.\<close>

definition parse_score :: "string \<Rightarrow> int" where
  "parse_score s =
     (case s of
        [] \<Rightarrow> 0
      | c # cs \<Rightarrow> if c = CHR ''-'' then - int (dec_value cs) else int (dec_value s))"

definition least_member :: "(string, int) fmap \<Rightarrow> string" where
  "least_member z = arg_min_list (\<lambda>m. the (fmlookup z m)) (sorted_list_of_fset (fmdom z))"

definition sample_client :: "(string \<Rightarrow> (string, int) fmap) redis_client" where
  "sample_client =
     \<lparr>ZRemRangeByScore = (\<lambda>key lo hi db. db(key := fmfilter
        (\<lambda>m. \<not> (parse_score lo \<le> the (fmlookup (db key) m) \<and> the (fmlookup (db key) m) \<le> parse_score hi))
        (db key))),
      ZCard = (\<lambda>key db. int (fcard (fmdom (db key)))),
      ZAdd = (\<lambda>key s m db. db(key := fmupd m s (db key))),
      Expire = (\<lambda>key d db. db),
      ZPopMin = (\<lambda>key db. db(key := fmdrop (least_member (db key)) (db key))),
      pipe_error = (\<lambda>db. None),
      after_error = (\<lambda>db. db)\<rparr>"

lemma parse_score_Itoa: "parse_score (Itoa n) = n"
proof (cases "n < 0")
  case True
  then show ?thesis by (simp add: parse_score_def Itoa_def dec_value_nat_dec)
next
  case False
  have "nat_dec (nat n) \<noteq> []" by (simp add: nat_dec.simps [of "nat n"])
  then obtain c cs where "nat_dec (nat n) = c # cs" "c \<noteq> CHR ''-''"
    using nat_dec_not_neg by (metis list.exhaust)
  with False show ?thesis
    using dec_value_nat_dec [of "nat n"] by (simp add: parse_score_def Itoa_def)
qed

lemma least_member_spec:
  assumes "z \<noteq> fmempty"
  shows "\<exists>s. fmlookup z (least_member z) = Some s \<and> (\<forall>m' s'. fmlookup z m' = Some s' \<longrightarrow> s \<le> s')"
proof -
  let ?ms = "sorted_list_of_fset (fmdom z)" and ?f = "\<lambda>m. the (fmlookup z m)"
  have ne: "?ms \<noteq> []"
  proof
    assume "?ms = []"
    then have "fset (fmdom z) = {}" by (metis empty_set sorted_list_of_fset_simps(1))
    then have "fmlookup z m = None" for m using fmdom_notD [of m z] by simp
    then have "z = fmempty" by (intro fmap_ext) simp
    with assms show False by simp
  qed
  have "least_member z \<in> set ?ms"
    unfolding least_member_def using ne by (rule arg_min_list_in)
  then have "least_member z |\<in>| fmdom z" by simp
  then obtain s where s: "fmlookup z (least_member z) = Some s" by (metis fmlookup_dom_iff)
  have least: "?f (least_member z) \<le> ?f m'" if "m' \<in> set ?ms" for m'
    using f_arg_min_list_f [OF ne, of ?f] that unfolding least_member_def by simp
  have "s \<le> s'" if "fmlookup z m' = Some s'" for m' s'
    using least [of m'] that s fmdomI [OF that] by simp
  with s show ?thesis by blast
qed

lemma sample_client_laws: "sorted_set_laws sample_client (\<lambda>db. db)"
proof -
  have "\<exists>m s. fmlookup z m = Some s \<and> (\<forall>m' s'. fmlookup z m' = Some s' \<longrightarrow> s \<le> s') \<and>
      fmdrop (least_member z) z = fmdrop m z" if "z \<noteq> fmempty" for z :: "(string, int) fmap"
    using least_member_spec [OF that] by blast
  moreover have "parse_score ''0'' = 0" by (simp add: parse_score_def dec_value_def)
  ultimately show ?thesis
    by (simp add: sorted_set_laws_def sample_client_def parse_score_Itoa cong del: fmfilter_cong)
qed

subsection \<open>Properties\<close>

text \<open>
  C15. The in-memory limiter, which forgets everything that left the window, answers any
  sequence of calls with a non-decreasing clock as the limiter that remembers the whole
  history: a request is accepted exactly when fewer requests of its key than the limit were
  accepted in the window of one minute that ends with it.
\<close>

theorem in_memory_refines_history:
  assumes "sorted (map c_now cs)"
  shows "allow_run NewInMemoryLimiter cs = spec_run minute (\<lambda>_. []) cs"
  by (rule new_limiter_refines [OF assms])

theorem in_memory_refines_history_witness:
  "allow_run NewInMemoryLimiter
     [\<lparr>c_key = ''k'', c_limit = 1, c_now = 0\<rparr>, \<lparr>c_key = ''k'', c_limit = 1, c_now = 5\<rparr>,
      \<lparr>c_key = ''k'', c_limit = 1, c_now = minute\<rparr>] = [True, False, True]"
proof -
  let ?cs = "[\<lparr>c_key = ''k'', c_limit = 1, c_now = 0\<rparr>, \<lparr>c_key = ''k'', c_limit = 1, c_now = 5\<rparr>,
      \<lparr>c_key = ''k'', c_limit = 1, c_now = minute\<rparr>]"
  have "sorted (map c_now ?cs)" by (simp add: minute_def second_def)
  from in_memory_refines_history [OF this] show ?thesis
    by (simp add: spec_allow_def in_window_def minute_def second_def)
qed

text \<open>
  C16. The limit holds in every window, not only in those that end with a request: no interval
  of one minute contains more accepted requests of a key than the key's limit.
\<close>

theorem in_memory_window_bound:
  assumes "sorted (map c_now cs)" and "\<forall>c \<in> set cs. c_key c = key \<longrightarrow> c_limit c = limit"
  shows "int (length (in_window minute t (accepted key cs (allow_run NewInMemoryLimiter cs)))) \<le> max 0 limit"
proof -
  have "int (length (in_window minute t (spec_history minute (\<lambda>_. []) cs key))) \<le> max 0 limit"
  proof (cases cs)
    case (Cons c cs')
    with assms have "sorted (c_now c # map c_now cs)" by simp
    from spec_history_bound [OF this assms(2)] show ?thesis by (simp add: in_window_def)
  qed (simp add: in_window_def)
  then show ?thesis
    using new_limiter_refines [OF assms(1)] by (simp add: spec_history_accepted)
qed

theorem in_memory_window_bound_witness:
  "int (length (in_window minute 5 (accepted ''k''
     [\<lparr>c_key = ''k'', c_limit = 1, c_now = 0\<rparr>, \<lparr>c_key = ''k'', c_limit = 1, c_now = 5\<rparr>]
     (allow_run NewInMemoryLimiter
       [\<lparr>c_key = ''k'', c_limit = 1, c_now = 0\<rparr>, \<lparr>c_key = ''k'', c_limit = 1, c_now = 5\<rparr>])))) \<le> 1"
  using in_memory_window_bound
    [of "[\<lparr>c_key = ''k'', c_limit = 1, c_now = 0\<rparr>, \<lparr>c_key = ''k'', c_limit = 1, c_now = 5\<rparr>]" "''k''" 1 5]
  by simp



end
