(* ===== verification/Middleware.thy ===== *)
theory Middleware
  imports Jwt_Props RateLimit Domain
begin

text \<open>
  The middleware of \<^verbatim>\<open>internal/infrastructure/http/middleware\<close>: user and service
  authentication, CORS, rate limiting, request ids.  Each is a function from the request it
  reads (and the component it calls) to the calls it makes on the gin context.
\<close>

subsection \<open>User authentication\<close>

definition BearerPrefix :: string where
  "BearerPrefix = ''Bearer ''"

definition extractBearerToken :: "gin_context \<Rightarrow> string" where
  "extractBearerToken c =
     (let auth = GetHeader c ''Authorization'' in
      if auth = [] then []
      else if \<not> HasPrefix auth BearerPrefix then []
      else TrimPrefix auth BearerPrefix)"

primrec scope_set :: "string list \<Rightarrow> (string \<rightharpoonup> unit) \<Rightarrow> (string \<rightharpoonup> unit)" where
  "scope_set [] m = m"
| "scope_set (s # ss) m = scope_set ss (m(s \<mapsto> ()))"

primrec all_in_scope_set :: "(string \<rightharpoonup> unit) \<Rightarrow> string list \<Rightarrow> bool" where
  "all_in_scope_set m [] = True"
| "all_in_scope_set m (r # rs) = (case m r of None \<Rightarrow> False | Some _ \<Rightarrow> all_in_scope_set m rs)"

definition hasAllScopes :: "string list \<Rightarrow> string list \<Rightarrow> bool" where
  "hasAllScopes provided required = all_in_scope_set (scope_set provided Map.empty) required"

lemma dom_scope_set: "dom (scope_set ss m) = dom m \<union> set ss"
  by (induction ss arbitrary: m) auto

lemma all_in_scope_set_iff: "all_in_scope_set m rs \<longleftrightarrow> set rs \<subseteq> dom m"
  by (induction rs) (auto split: option.splits)

lemma hasAllScopes_iff: "hasAllScopes provided required \<longleftrightarrow> set required \<subseteq> set provided"
  by (simp add: hasAllScopes_def all_in_scope_set_iff dom_scope_set)

definition unauthorized :: json where
  "unauthorized = error_body ''unauthorized'' ''missing authorization token''"

definition invalid_token :: "token_error \<Rightarrow> json" where
  "invalid_token err =
     JObject [(''error'', JString ''unauthorized''), (''message'', JString ''invalid token''),
              (''details'', JString (token_error_text err))]"

definition insufficient_scopes :: "string list \<Rightarrow> string list \<Rightarrow> json" where
  "insufficient_scopes required provided =
     JObject [(''error'', JString ''forbidden''), (''message'', JString ''insufficient scopes''),
              (''required'', json_strings required), (''provided'', json_strings provided)]"

definition generation_failed :: json where
  "generation_failed = error_body ''internal_error'' ''failed to generate internal token''"

text \<open>
  The clock is read twice: \<open>tv\<close> when the token is validated, \<open>tg\<close> when the internal token is
  issued.
\<close>

definition Authenticate ::
    "('pub, 'priv) jwt_lib \<Rightarrow> ('pub, 'priv) jwt_service \<Rightarrow> route_entry \<Rightarrow> string \<Rightarrow> gin_context \<Rightarrow>
     gotime \<Rightarrow> gotime \<Rightarrow> gin_call list" where
  "Authenticate lib s entry serviceName c tv tg =
     (if Public (re_Route entry) then [Next]
      else
        (let tokenString = extractBearerToken c in
         if tokenString = [] then [AbortWithStatusJSON 401 unauthorized]
         else
           (case ValidateExternalToken lib s tokenString tv of
              Inl err \<Rightarrow> [AbortWithStatusJSON 401 (invalid_token err)]
            | Inr claims \<Rightarrow>
                if length (Scopes (re_Route entry)) > 0 \<and>
                   \<not> hasAllScopes (ec_Scopes claims) (Scopes (re_Route entry))
                then [AbortWithStatusJSON 403 (insufficient_scopes (Scopes (re_Route entry)) (ec_Scopes claims))]
                else
                  (case GenerateInternalToken lib s claims serviceName tg of
                     Inl err \<Rightarrow> [AbortWithStatusJSON 500 generation_failed]
                   | Inr internalToken \<Rightarrow>
                       [SetRequestHeader ''Authorization'' (BearerPrefix @ internalToken),
                        SetRequestHeader ''X-Original-Issuer'' (ec_Issuer claims),
                        Next]))))"

definition AuthenticateRequest ::
    "('pub, 'priv) jwt_lib \<Rightarrow> ('pub, 'priv) jwt_service \<Rightarrow> gin_context \<Rightarrow> route_entry \<Rightarrow> string \<Rightarrow>
     gotime \<Rightarrow> gotime \<Rightarrow> gin_call list \<times> bool" where
  "AuthenticateRequest lib s c entry serviceName tv tg =
     (if Public (re_Route entry) then ([], True)
      else
        (let tokenString = extractBearerToken c in
         if tokenString = [] then ([JSON 401 unauthorized], False)
         else
           (case ValidateExternalToken lib s tokenString tv of
              Inl err \<Rightarrow> ([JSON 401 (invalid_token err)], False)
            | Inr claims \<Rightarrow>
                if length (Scopes (re_Route entry)) > 0 \<and>
                   \<not> hasAllScopes (ec_Scopes claims) (Scopes (re_Route entry))
                then ([JSON 403 (insufficient_scopes (Scopes (re_Route entry)) (ec_Scopes claims))], False)
                else
                  (case GenerateInternalToken lib s claims serviceName tg of
                     Inl err \<Rightarrow> ([JSON 500 generation_failed], False)
                   | Inr internalToken \<Rightarrow>
                       ([SetRequestHeader ''Authorization'' (BearerPrefix @ internalToken),
                         SetRequestHeader ''X-Original-Issuer'' (ec_Issuer claims)], True)))))"

text \<open>Who may use a route, and with which internal token.\<close>

definition authorised ::
    "('pub, 'priv) jwt_lib \<Rightarrow> ('pub, 'priv) jwt_service \<Rightarrow> gin_context \<Rightarrow> route_entry \<Rightarrow> string \<Rightarrow>
     gotime \<Rightarrow> gotime \<Rightarrow> external_claims \<Rightarrow> string \<Rightarrow> bool" where
  "authorised lib s c entry serviceName tv tg claims tok \<longleftrightarrow>
     extractBearerToken c \<noteq> [] \<and>
     ValidateExternalToken lib s (extractBearerToken c) tv = Inr claims \<and>
     set (Scopes (re_Route entry)) \<subseteq> set (ec_Scopes claims) \<and>
     GenerateInternalToken lib s claims serviceName tg = Inr tok"

lemma AuthenticateRequest_cases:
  assumes "\<not> Public (re_Route entry)"
  shows "(\<exists>claims tok. authorised lib s c entry svc tv tg claims tok \<and>
      AuthenticateRequest lib s c entry svc tv tg =
        ([SetRequestHeader ''Authorization'' (BearerPrefix @ tok),
          SetRequestHeader ''X-Original-Issuer'' (ec_Issuer claims)], True)) \<or>
    (\<nexists>claims tok. authorised lib s c entry svc tv tg claims tok) \<and>
      (\<exists>n b. n \<in> {401, 403, 500} \<and> AuthenticateRequest lib s c entry svc tv tg = ([JSON n b], False))"
proof -
  have scopes: "(length (Scopes (re_Route entry)) > 0 \<and> \<not> hasAllScopes (ec_Scopes cl) (Scopes (re_Route entry)))
      \<longleftrightarrow> \<not> set (Scopes (re_Route entry)) \<subseteq> set (ec_Scopes cl)" for cl
    by (auto simp: hasAllScopes_iff)
  show ?thesis
    unfolding AuthenticateRequest_def authorised_def scopes Let_def
    using assms by (simp split: sum.split)
qed

lemma AuthenticateRequest_headers:
  assumes "AuthenticateRequest lib s c entry svc tv tg = (calls, True)"
  shows "Public (re_Route entry) \<or>
    (\<exists>claims tok. authorised lib s c entry svc tv tg claims tok \<and>
       header_get (apply_request_headers (rq_Header c) calls) ''Authorization'' = ''Bearer '' @ tok)"
proof (cases "Public (re_Route entry)")
  case False
  have "canonical_key ''Authorization'' \<noteq> canonical_key ''X-Original-Issuer''" by code_simp
  with AuthenticateRequest_cases [OF False, of lib s c svc tv tg] assms show ?thesis
    by (auto simp: header_simps BearerPrefix_def)
qed simp

lemma Authenticate_eq:
  "Authenticate lib s entry svc c tv tg =
     (let (calls, ok) = AuthenticateRequest lib s c entry svc tv tg in
      map (\<lambda>call. case call of JSON n b \<Rightarrow> AbortWithStatusJSON n b | other \<Rightarrow> other) calls @
      (if ok then [Next] else []))"
  by (simp add: Authenticate_def AuthenticateRequest_def Let_def split: sum.split)

subsection \<open>Service authentication\<close>

definition invalid_service_token :: json where
  "invalid_service_token = JObject [(''error'', JString ''invalid_token'')]"

definition ServiceAuthenticate ::
    "('pub, 'priv) jwt_lib \<Rightarrow> ('pub, 'priv) jwt_service \<Rightarrow> gin_context \<Rightarrow> gotime \<Rightarrow> gin_call list" where
  "ServiceAuthenticate lib s c now =
     (let token = GetHeader c ''X-Service-Token'' in
      if token = [] then [AbortWithStatusJSON 401 invalid_service_token]
      else
        (case ValidateServiceToken lib s token now of
           Inl err \<Rightarrow> [AbortWithStatusJSON 401 invalid_service_token]
         | Inr serviceName \<Rightarrow> [SetKey ''service_name'' (VString serviceName), Next]))"

subsection \<open>CORS\<close>

record cors_config =
  AllowedOrigins :: "string list"
  AllowedMethods :: "string list"
  AllowedHeaders :: "string list"

primrec isOriginAllowed :: "string \<Rightarrow> string list \<Rightarrow> bool" where
  "isOriginAllowed origin [] = False"
| "isOriginAllowed origin (allowed # rest) =
     (if allowed = ''*'' \<or> allowed = origin then True else isOriginAllowed origin rest)"

primrec contains :: "string list \<Rightarrow> string \<Rightarrow> bool" where
  "contains [] item = False"
| "contains (s # rest) item = (if s = item then True else contains rest item)"

definition CORS :: "cors_config \<Rightarrow> gin_context \<Rightarrow> gin_call list" where
  "CORS cfg c =
     (let allowedMethods = Join '','' (AllowedMethods cfg);
          allowedHeaders = Join '','' (AllowedHeaders cfg);
          origin = GetHeader c ''Origin''
      in (if origin \<noteq> [] \<and> isOriginAllowed origin (AllowedOrigins cfg)
          then [Header ''Access-Control-Allow-Origin'' origin]
          else if contains (AllowedOrigins cfg) ''*''
          then [Header ''Access-Control-Allow-Origin'' ''*'']
          else []) @
         [Header ''Access-Control-Allow-Methods'' allowedMethods,
          Header ''Access-Control-Allow-Headers'' allowedHeaders,
          Header ''Access-Control-Allow-Credentials'' ''true'',
          Header ''Access-Control-Max-Age'' ''86400''] @
         (if rq_Method c = ''OPTIONS'' then [AbortWithStatus 204] else [Next]))"

lemma isOriginAllowed_iff: "isOriginAllowed origin allowed \<longleftrightarrow> ''*'' \<in> set allowed \<or> origin \<in> set allowed"
  by (induction allowed) auto

lemma contains_iff: "contains xs x \<longleftrightarrow> x \<in> set xs"
  by (induction xs) auto

subsection \<open>Rate limiting\<close>

record rate_config =
  RateLimitGlobalRPM :: int
  RateLimitUserRPM :: int
  RateLimitIPRPM :: int

fun render :: "ctx_value \<Rightarrow> string" where
  "render (VString s) = s"
| "render (VOther s) = s"

definition determineKeyAndLimit :: "gin_context \<Rightarrow> rate_config \<Rightarrow> string \<times> int" where
  "determineKeyAndLimit c cfg =
     (case ctx_Keys c ''user_id'' of
        Some userID \<Rightarrow> (''ratelimit:user:'' @ render userID, RateLimitUserRPM cfg)
      | None \<Rightarrow> (''ratelimit:ip:'' @ ctx_ClientIP c, RateLimitIPRPM cfg))"

definition limit_headers :: "limit_result \<Rightarrow> gin_call list" where
  "limit_headers res =
     [Header ''X-RateLimit-Limit'' (Itoa (Limit res)),
      Header ''X-RateLimit-Remaining'' (Itoa (Remaining res)),
      Header ''X-RateLimit-Reset'' (Itoa (unix (ResetAt res)))]"

definition RateLimitMiddleware ::
    "('s \<Rightarrow> string \<Rightarrow> int \<Rightarrow> gotime \<Rightarrow> 's \<times> (string + limit_result)) \<Rightarrow> rate_config \<Rightarrow> gin_context \<Rightarrow>
     's \<Rightarrow> gotime \<Rightarrow> 's \<times> gin_call list" where
  "RateLimitMiddleware allow cfg c l now =
     (let (key, limit) = determineKeyAndLimit c cfg; (l', answer) = allow l key limit now in
      (l', case answer of
             Inl err \<Rightarrow> [Next]
           | Inr res \<Rightarrow>
               limit_headers res @
               (if \<not> Allowed res
                then [AbortWithStatusJSON 429
                        (error_body ''rate_limit_exceeded'' ''too many requests, please try again later'')]
                else [Next])))"

definition RouteRateLimitMiddleware ::
    "('s \<Rightarrow> string \<Rightarrow> int \<Rightarrow> gotime \<Rightarrow> 's \<times> (string + limit_result)) \<Rightarrow> int \<Rightarrow> gin_context \<Rightarrow>
     's \<Rightarrow> gotime \<Rightarrow> 's \<times> gin_call list" where
  "RouteRateLimitMiddleware allow routeLimit c l now =
     (let key = (case ctx_Keys c ''user_id'' of
                   Some userID \<Rightarrow> ''ratelimit:route:'' @ ctx_FullPath c @ '':user:'' @ render userID
                 | None \<Rightarrow> ''ratelimit:route:'' @ ctx_FullPath c @ '':ip:'' @ ctx_ClientIP c);
          (l', answer) = allow l key routeLimit now
      in (l', case answer of
                Inl err \<Rightarrow> [Next]
              | Inr res \<Rightarrow>
                  limit_headers res @
                  (if \<not> Allowed res
                   then [AbortWithStatusJSON 429
                           (error_body ''rate_limit_exceeded''
                              ''too many requests for this endpoint, please try again later'')]
                   else [Next])))"

subsection \<open>Request ids\<close>

definition RequestID :: "gin_context \<Rightarrow> string \<Rightarrow> gin_call list" where
  "RequestID c newID =
     (let requestID = (if GetHeader c ''X-Request-ID'' = [] then newID else GetHeader c ''X-Request-ID'')
      in [SetKey ''request_id'' (VString requestID), Header ''X-Request-ID'' requestID, Next])"

text \<open>What every limiter of the interface gives its clients: the middleware is decided by it.\<close>

lemma limit_headers_views [simp]:
  "passes (limit_headers res @ cs) = passes cs"
  "responses (limit_headers res @ cs) = responses cs"
  "(''X-RateLimit-Remaining'', v) \<in> set (response_headers (limit_headers res @ [AbortWithStatusJSON n b]))
     \<longleftrightarrow> v = Itoa (Remaining res)"
  by (auto simp: limit_headers_def response_headers_def List.map_filter_simps)

context rate_limiter begin

lemma middleware_decision:
  assumes "determineKeyAndLimit c cfg = (key, limit)" and "snd (allow s key limit now) = Inr res"
    and "RateLimitMiddleware allow cfg c s now = (s', calls)"
  shows "(passes calls \<longleftrightarrow> Allowed res) \<and> responses calls = (if Allowed res then [] else [429])"
  using assms by (auto simp: RateLimitMiddleware_def case_prod_beta)

lemma middleware_refusal:
  assumes "ready s" and "determineKeyAndLimit c cfg = (key, limit)"
    and "snd (allow s key limit now) = Inr res" and "\<not> Allowed res"
    and "RateLimitMiddleware allow cfg c s now = (s', calls)"
  shows "(''X-RateLimit-Remaining'', ''0'') \<in> set (response_headers calls)"
proof -
  have "Remaining res = 0" using refused_no_budget assms(1,3,4) by blast
  moreover have "Itoa 0 = ''0''" by code_simp
  ultimately show ?thesis using assms(2-5) by (auto simp: RateLimitMiddleware_def case_prod_beta)
qed

lemma middleware_fails_open:
  assumes "determineKeyAndLimit c cfg = (key, limit)" and "snd (allow s key limit now) = Inl err"
  shows "snd (RateLimitMiddleware allow cfg c s now) = [Next]"
  using assms by (simp add: RateLimitMiddleware_def case_prod_beta)

end

subsection \<open>Properties\<close>

text \<open>
  C7. On a route that is not public a request passes only with a bearer token that the token
  service accepts and that carries all scopes of the route; it then travels on with the
  internal token issued for the service in place of its own, and with the original issuer.
  Every other request is answered once, with 401, 403 or 500, and travels on unchanged.  The
  two variants of the check agree.
\<close>

theorem auth_guard:
  "case AuthenticateRequest lib s c entry svc tv tg of (calls, ok) \<Rightarrow>
     (passes (Authenticate lib s entry svc c tv tg) \<longleftrightarrow> ok) \<and>
     (if Public (re_Route entry) then ok \<and> calls = []
      else if ok then
        (\<exists>claims tok. authorised lib s c entry svc tv tg claims tok \<and> responses calls = [] \<and>
           header_get (apply_request_headers (rq_Header c) calls) ''Authorization'' = ''Bearer '' @ tok \<and>
           header_get (apply_request_headers (rq_Header c) calls) ''X-Original-Issuer'' = ec_Issuer claims)
      else (\<nexists>claims tok. authorised lib s c entry svc tv tg claims tok) \<and>
        (\<exists>n. n \<in> {401, 403, 500} \<and> responses calls = [n]) \<and>
        apply_request_headers (rq_Header c) calls = rq_Header c)"
proof (cases "Public (re_Route entry)")
  case True
  then show ?thesis by (simp add: AuthenticateRequest_def Authenticate_def)
next
  case False
  have keys: "canonical_key ''Authorization'' = ''Authorization''"
    "canonical_key ''X-Original-Issuer'' = ''X-Original-Issuer''" by code_simp+
  from AuthenticateRequest_cases [OF False, of lib s c svc tv tg] consider
      claims tok where "authorised lib s c entry svc tv tg claims tok"
        "AuthenticateRequest lib s c entry svc tv tg =
          ([SetRequestHeader ''Authorization'' (BearerPrefix @ tok),
            SetRequestHeader ''X-Original-Issuer'' (ec_Issuer claims)], True)"
    | n b where "\<nexists>claims tok. authorised lib s c entry svc tv tg claims tok" "n \<in> {401, 403, 500}"
        "AuthenticateRequest lib s c entry svc tv tg = ([JSON n b], False)" by blast
  then show ?thesis
  proof cases
    case 1
    with False show ?thesis by (simp add: Authenticate_eq header_simps keys BearerPrefix_def) blast
  next
    case 2
    with False show ?thesis by (simp add: Authenticate_eq)
  qed
qed

text \<open>
  CORS answers a preflight itself, with 204, and lets every other request pass.  The origin
  is allowed by name exactly when it is listed or the list contains a star, and credentials
  are always allowed: with the default list, a star, every origin is echoed with credentials.
\<close>

lemma cors_spec:
  "passes (CORS cfg c) = (rq_Method c \<noteq> ''OPTIONS'') \<and>
   responses (CORS cfg c) = (if rq_Method c = ''OPTIONS'' then [204] else []) \<and>
   (''Access-Control-Allow-Credentials'', ''true'') \<in> set (response_headers (CORS cfg c)) \<and>
   (\<forall>v. (''Access-Control-Allow-Origin'', v) \<in> set (response_headers (CORS cfg c)) \<longleftrightarrow>
      (if GetHeader c ''Origin'' \<noteq> [] \<and>
          (''*'' \<in> set (AllowedOrigins cfg) \<or> GetHeader c ''Origin'' \<in> set (AllowedOrigins cfg))
       then v = GetHeader c ''Origin'' else ''*'' \<in> set (AllowedOrigins cfg) \<and> v = ''*''))"
  by (simp add: CORS_def Let_def isOriginAllowed_iff contains_iff response_headers_def
      List.map_filter_simps)

text \<open>
  C34. With the in-memory limiter the middleware lets a request pass exactly when fewer than the
  limit of its key were accepted in the last window; it answers every other request with 429
  and a remaining budget of zero; and it touches no other key.
\<close>

theorem rate_limit_enforced:
  assumes "0 < window l" and "determineKeyAndLimit c cfg = (key, limit)"
    and "RateLimitMiddleware in_memory_allow cfg c l now = (l', calls)"
  shows "(passes calls \<longleftrightarrow>
      int (length (filter (\<lambda>t. now - window l < t) (get_slice (requests l) key))) < limit) \<and>
    responses calls = (if passes calls then [] else [429]) \<and>
    (passes calls \<or> (''X-RateLimit-Remaining'', ''0'') \<in> set (response_headers calls)) \<and>
    (\<forall>k. k \<noteq> key \<longrightarrow> requests l' k = requests l k)"
proof -
  have res: "snd (in_memory_allow l key limit now) = Inr (snd (Allow l key limit now))"
    by (simp add: in_memory_allow_def case_prod_beta)
  note decision = memory.middleware_decision [OF assms(2) res assms(3)]
  have "passes calls \<or> (''X-RateLimit-Remaining'', ''0'') \<in> set (response_headers calls)"
    using decision memory.middleware_refusal [OF assms(1,2) res _ assms(3)] by blast
  moreover have "l' = fst (Allow l key limit now)"
    using assms(2,3) by (simp add: RateLimitMiddleware_def in_memory_allow_def case_prod_beta)
  ultimately show ?thesis using decision by (simp add: Allow_sel)
qed

theorem rate_limit_enforced_witness:
  "\<exists>l' calls. RateLimitMiddleware in_memory_allow
       \<lparr>RateLimitGlobalRPM = 10000, RateLimitUserRPM = 100, RateLimitIPRPM = 0\<rparr>
       \<lparr>rq_Method = ''GET'', rq_Path = ''/'', rq_RawQuery = [], rq_Host = ''h'', rq_TLS = False,
        rq_Header = Map.empty, ctx_Keys = Map.empty, ctx_ClientIP = ''10.0.0.9'', ctx_FullPath = []\<rparr>
       NewInMemoryLimiter 0 = (l', calls) \<and> \<not> passes calls \<and> responses calls = [429]"
proof -
  let ?cfg = "\<lparr>RateLimitGlobalRPM = 10000, RateLimitUserRPM = 100, RateLimitIPRPM = 0\<rparr>"
  let ?c = "\<lparr>rq_Method = ''GET'', rq_Path = ''/'', rq_RawQuery = [], rq_Host = ''h'', rq_TLS = False,
        rq_Header = Map.empty, ctx_Keys = Map.empty, ctx_ClientIP = ''10.0.0.9'', ctx_FullPath = []\<rparr>"
  have "0 < window NewInMemoryLimiter" by (simp add: NewInMemoryLimiter_def minute_def second_def)
  moreover have "determineKeyAndLimit ?c ?cfg = (''ratelimit:ip:10.0.0.9'', 0)"
    by (simp add: determineKeyAndLimit_def)
  moreover obtain l' calls where run:
    "RateLimitMiddleware in_memory_allow ?cfg ?c NewInMemoryLimiter 0 = (l', calls)" by fastforce
  ultimately have "\<not> passes calls \<and> responses calls = [429]"
    using rate_limit_enforced [of NewInMemoryLimiter ?c ?cfg "''ratelimit:ip:10.0.0.9''" 0 0 l' calls]
    by simp
  with run show ?thesis by blast
qed

end
