(* ===== verification/Handlers.thy ===== *)
theory Handlers
  imports Middleware Registry_Props
begin

text \<open>
  The handlers of the internal API, \<^verbatim>\<open>internal/infrastructure/http/handler\<close>: registration,
  heartbeat, deregistration, listing and the two health checks.  A handler is a function from
  the request and the registry to the new registry and the calls on the gin context.  The
  result of gin's \<^verbatim>\<open>ShouldBindJSON\<close> is an argument, as are the renderings of a time and of a
  metadata map by \<^verbatim>\<open>encoding/json\<close>.
\<close>

subsection \<open>Bodies\<close>

record codec =
  time_text :: "gotime \<Rightarrow> string"
  metadata_json :: "(string \<rightharpoonup> string) \<Rightarrow> json"

fun status_text :: "service_status \<Rightarrow> string" where
  "status_text StatusHealthy = ''healthy''"
| "status_text StatusUnhealthy = ''unhealthy''"
| "status_text StatusUnknown = ''unknown''"

definition collision_json :: "codec \<Rightarrow> route_collision \<Rightarrow> json" where
  "collision_json cd rc =
     JObject [(''method'', JString (rc_Method rc)), (''path'', JString (rc_Path rc)),
       (''collision_type'', JString (collision_type_text (rc_CollisionType rc))),
       (''registered_by'', JString (rc_RegisteredBy rc)),
       (''registered_at'', JString (time_text cd (rc_RegisteredAt rc)))]"

definition response_json :: "register_response \<Rightarrow> json" where
  "response_json resp =
     JObject [(''instance_id'', JString (InstanceID resp)),
       (''heartbeat_interval'', JNumber (of_int (HeartbeatInterval resp))),
       (''heartbeat_url'', JString (HeartbeatURL resp)),
       (''registered_routes'', json_strings (RegisteredRoutes resp))]"

definition instance_json :: "codec \<Rightarrow> service_instance \<Rightarrow> json" where
  "instance_json cd i =
     JObject [(''id'', JString (si_ID i)), (''service_name'', JString (si_ServiceName i)),
       (''host'', JString (si_Host i)), (''port'', JNumber (of_int (si_Port i))),
       (''health_url'', JString (si_HealthURL i)), (''version'', JString (si_Version i)),
       (''status'', JString (status_text (si_Status i))), (''weight'', JNumber (of_int (si_Weight i))),
       (''metadata'', metadata_json cd (si_Metadata i)),
       (''registered_at'', JString (time_text cd (si_RegisteredAt i))),
       (''last_heartbeat'', JString (time_text cd (si_LastHeartbeat i)))]"

definition bind_failed :: "string \<Rightarrow> gin_call list" where
  "bind_failed err = [JSON 400 (error_body ''invalid_request'' err)]"

definition instance_not_found :: json where
  "instance_not_found = error_body ''instance_not_found'' ''the specified instance does not exist''"

fun domain_error_text :: "domain_error \<Rightarrow> string" where
  "domain_error_text ErrServiceNotFound = ''service not found''"
| "domain_error_text ErrInstanceNotFound = ''instance not found''"
| "domain_error_text ErrRouteNotFound = ''route not found''"
| "domain_error_text ErrInvalidRequest = ''invalid request''"

subsection \<open>Registration\<close>

definition handle_Register ::
    "codec \<Rightarrow> gin_context \<Rightarrow> string + register_request \<Rightarrow> registry \<Rightarrow> (nat \<Rightarrow> string list) \<Rightarrow> string \<Rightarrow> gotime \<Rightarrow>
     registry \<times> gin_call list" where
  "handle_Register cd c bound r ord newID now =
     (case bound of
        Inl err \<Rightarrow> (r, bind_failed err)
      | Inr req \<Rightarrow>
          (if (case ctx_Keys c ''service_name'' of
                 Some (VString name) \<Rightarrow> name \<noteq> rr_ServiceName req
               | _ \<Rightarrow> False)
           then (r, [JSON 403 (error_body ''forbidden'' ''service name does not match authenticated identity'')])
           else
             (case Register r req ord newID now of
                (r', Inl (CollisionError collisions)) \<Rightarrow>
                  (r', [JSON 409 (JObject [(''error'', JString ''route_collision''),
                     (''message'', JString ''one or more routes are already registered''),
                     (''collisions'', JArray (map (collision_json cd) collisions))])])
              | (r', Inl (ValidationError msg)) \<Rightarrow>
                  (r', [JSON 400 (error_body ''registration_failed'' msg)])
              | (r', Inr resp) \<Rightarrow> (r', [JSON 201 (response_json resp)]))))"

subsection \<open>Heartbeat and deregistration\<close>

definition handle_Heartbeat ::
    "string + string \<Rightarrow> registry \<Rightarrow> gotime \<Rightarrow> registry \<times> gin_call list" where
  "handle_Heartbeat bound r now =
     (case bound of
        Inl err \<Rightarrow> (r, bind_failed err)
      | Inr instanceID \<Rightarrow>
          (case Heartbeat r instanceID now of
             (r', Some err) \<Rightarrow>
               (r', if err = ErrInstanceNotFound then [JSON 404 instance_not_found]
                    else [JSON 500 (error_body ''heartbeat_failed'' (domain_error_text err))])
           | (r', None) \<Rightarrow> (r', [JSON 200 (JObject [(''status'', JString ''ok'')])])))"

definition handle_Deregister ::
    "string + string \<Rightarrow> registry \<Rightarrow> string list \<Rightarrow> registry \<times> gin_call list" where
  "handle_Deregister bound r ks =
     (case bound of
        Inl err \<Rightarrow> (r, bind_failed err)
      | Inr instanceID \<Rightarrow>
          (case Deregister r instanceID ks of
             (r', Some err) \<Rightarrow>
               (r', if err = ErrInstanceNotFound then [JSON 404 instance_not_found]
                    else [JSON 500 (error_body ''deregister_failed'' (domain_error_text err))])
           | (r', None) \<Rightarrow> (r', [JSON 200 (JObject [(''status'', JString ''deregistered'')])])))"

text \<open>\<open>names\<close> is the order in which \<^verbatim>\<open>encoding/json\<close> writes the keys of the map.\<close>

definition handle_ListServices ::
    "codec \<Rightarrow> registry \<Rightarrow> string list \<Rightarrow> string list \<Rightarrow> gin_call list" where
  "handle_ListServices cd r ks names =
     (let services = GetAllServices r ks in
      [JSON 200 (JObject [(''services'',
         JObject (List.map_filter
           (\<lambda>name. map_option (\<lambda>is. (name, JArray (map (instance_json cd) is))) (services name)) names))])])"

subsection \<open>Health\<close>

text \<open>\<^verbatim>\<open>Duration.Truncate(time.Second)\<close>; the rendering of the duration is an argument.\<close>

definition truncate_to :: "duration \<Rightarrow> duration \<Rightarrow> duration" where
  "truncate_to d m = (if m \<le> 0 then d else d - (d - m * quot_int d m))"

definition HealthHandler ::
    "gotime \<Rightarrow> string \<Rightarrow> (duration \<Rightarrow> string) \<Rightarrow> gotime \<Rightarrow> gin_call list" where
  "HealthHandler startTime version duration_text now =
     [JSON 200 (JObject [(''status'', JString ''healthy''), (''version'', JString version),
        (''uptime'', JString (duration_text (truncate_to (time_sub now startTime) second)))])]"

definition ReadyHandler :: "gin_call list" where
  "ReadyHandler = [JSON 200 (JObject [(''status'', JString ''ready'')])]"

subsection \<open>Supporting facts\<close>

lemma handle_Register_changes:
  assumes "handle_Register cd c bound r ord x now = (r', calls)" and "r' \<noteq> r"
  shows "\<exists>req resp. bound = Inr req \<and> Register r req ord x now = (r', Inr resp) \<and>
    (\<forall>name. ctx_Keys c ''service_name'' = Some (VString name) \<longrightarrow> name = rr_ServiceName req)"
  using assms
  by (auto simp: handle_Register_def dest: Register_failed
      split: sum.splits if_splits prod.splits register_error.splits option.splits ctx_value.splits)

lemma ServiceAuthenticate_passes:
  "passes (ServiceAuthenticate lib s c now) \<longleftrightarrow>
     (\<exists>name. GetHeader c ''X-Service-Token'' \<noteq> [] \<and>
        ValidateServiceToken lib s (GetHeader c ''X-Service-Token'') now = Inr name \<and>
        apply_keys (ctx_Keys c) (ServiceAuthenticate lib s c now) ''service_name'' = Some (VString name))"
  by (auto simp: ServiceAuthenticate_def Let_def split: sum.splits)

lemma handle_Register_status:
  "handle_Register cd c bound r ord x now = (r', calls) \<Longrightarrow>
     \<exists>n. responses calls = [n] \<and> n \<in> {201, 400, 403, 409} \<and> (n \<noteq> 201 \<longrightarrow> r' = r)"
  by (auto simp: handle_Register_def bind_failed_def dest: Register_failed
      split: sum.splits if_splits prod.splits register_error.splits option.splits ctx_value.splits)

lemma Deregister_errors:
  "snd (Deregister r x ks) = (if instances r x = None then Some ErrInstanceNotFound else None)"
  "instances r x = None \<Longrightarrow> fst (Deregister r x ks) = r"
  by (simp_all add: Deregister_eq)

lemma Heartbeat_errors:
  "snd (Heartbeat r x now) = (if instances r x = None then Some ErrInstanceNotFound else None)"
  "instances r x = None \<Longrightarrow> fst (Heartbeat r x now) = r"
  by (auto simp: Heartbeat_def split: option.splits)

subsection \<open>Properties\<close>

text \<open>
  C25. Behind the service authentication a registration can change the registry only in the name
  of the authenticated service: the service token was validated, and its subject is the
  service name of the accepted request.
\<close>

theorem registration_own_name:
  assumes mw: "mw = ServiceAuthenticate lib s c t" and pass: "passes mw"
    and run: "handle_Register cd (c\<lparr>ctx_Keys := apply_keys (ctx_Keys c) mw\<rparr>) bound r ord x now = (r', calls)"
    and changed: "r' \<noteq> r"
  shows "\<exists>req resp. bound = Inr req \<and> Register r req ord x now = (r', Inr resp) \<and>
    ValidateServiceToken lib s (GetHeader c ''X-Service-Token'') t = Inr (rr_ServiceName req)"
proof -
  from pass obtain name where
    name: "ValidateServiceToken lib s (GetHeader c ''X-Service-Token'') t = Inr name"
      "apply_keys (ctx_Keys c) mw ''service_name'' = Some (VString name)"
    unfolding mw ServiceAuthenticate_passes by blast
  from handle_Register_changes [OF run changed] name show ?thesis by auto
qed

theorem registration_own_name_witness:
  "\<exists>resp. Register (NewRegistry (sample_config 30)) (sample_request ''user-1'') (\<lambda>_. []) ''id-1'' 0 =
       (fst (Register (NewRegistry (sample_config 30)) (sample_request ''user-1'') (\<lambda>_. []) ''id-1'' 0), Inr resp) \<and>
     ValidateServiceToken slib sample_service ''t3'' 0 = Inr ''user-1''"
proof -
  let ?c = "\<lparr>rq_Method = ''POST'', rq_Path = ''/internal/registry/register'', rq_RawQuery = [], rq_Host = ''h'',
     rq_TLS = False, rq_Header = [''X-Service-Token'' \<mapsto> [''t3'']], ctx_Keys = Map.empty,
     ctx_ClientIP = ''10.0.0.9'', ctx_FullPath = []\<rparr>"
  let ?mw = "ServiceAuthenticate slib sample_service ?c 0"
  let ?cd = "\<lparr>time_text = \<lambda>_. [], metadata_json = \<lambda>_. JNull\<rparr>"
  let ?req = "sample_request ''user-1''"
  have key: "canonical_key ''X-Service-Token'' = ''X-Service-Token''" by code_simp
  have tok: "GetHeader ?c ''X-Service-Token'' = ''t3''"
    by (simp add: GetHeader_def header_get_def key get_slice_def)
  have "unexpired [''sub'' \<mapsto> JString ''user-1'', ''aud'' \<mapsto> JString ''api-gateway''] 0"
    by (simp add: unexpired_def)
  then have valid: "ValidateServiceToken slib sample_service ''t3'' 0 = Inr ''user-1''"
    by (simp add: ValidateServiceToken_def sample_service_def NewServiceWithKeys_def parsed_claims_def
        sample_tokens_def sample_tab_def rsa_keyfunc_def rs256_RSA getStringClaim_def)
  have mw: "?mw = [SetKey ''service_name'' (VString ''user-1''), Next]"
    by (simp add: ServiceAuthenticate_def tok valid)
  obtain r' resp where reg: "Register (NewRegistry (sample_config 30)) ?req (\<lambda>_. []) ''id-1'' 0 = (r', Inr resp)"
    and new: "instances r' ''id-1'' \<noteq> None"
    by (simp add: Register_def Register_check_fresh sample_request_valid case_prod_beta)
  have run: "handle_Register ?cd (?c\<lparr>ctx_Keys := apply_keys (ctx_Keys ?c) ?mw\<rparr>) (Inr ?req)
      (NewRegistry (sample_config 30)) (\<lambda>_. []) ''id-1'' 0 = (r', [JSON 201 (response_json resp)])"
    by (simp add: handle_Register_def mw reg)
  have "r' \<noteq> NewRegistry (sample_config 30)" using new by (auto simp: NewRegistry_def)
  from registration_own_name [OF refl _ run this] show ?thesis
    by (simp add: mw reg tok)
qed

text \<open>
  The other internal calls report exactly whether the instance was known, and change
  nothing when it was not: 404 or 200.  Neither looks at the authenticated service: whoever
  passes the authentication may remove any instance of any service.
\<close>

lemma internal_calls_by_id:
  "(case handle_Heartbeat (Inr x) r now of (r', calls) \<Rightarrow>
      r' = fst (Heartbeat r x now) \<and>
      responses calls = (if instances r x = None then [404] else [200]) \<and>
      (if instances r x = None then r' = r
       else \<exists>i. instances r' x = Some i \<and> si_LastHeartbeat i = now)) \<and>
   (case handle_Deregister (Inr x) r ks of (r', calls) \<Rightarrow>
      r' = fst (Deregister r x ks) \<and>
      responses calls = (if instances r x = None then [404] else [200]) \<and>
      (if instances r x = None then r' = r else instances r' x = None))"
proof -
  have dereg: "instances (fst (Deregister r x ks)) x = None" if "instances r x \<noteq> None"
    using that by (auto simp: Deregister_def Let_def split: option.splits)
  have beat: "\<exists>i. instances (fst (Heartbeat r x now)) x = Some i \<and> si_LastHeartbeat i = now"
    if "instances r x \<noteq> None" using that by (auto simp: Heartbeat_def)
  obtain r1 e1 where h: "Heartbeat r x now = (r1, e1)" by fastforce
  obtain r2 e2 where d: "Deregister r x ks = (r2, e2)" by fastforce
  show ?thesis
    using Heartbeat_errors [of r x now] Deregister_errors [of r x ks] dereg beat
    by (cases "instances r x = None") (auto simp: handle_Heartbeat_def handle_Deregister_def h d)
qed

end
