(* ===== verification/Trace.thy ===== *)
theory Trace
  imports Http "HOL-Library.Word"
begin

text \<open>
  Distributed tracing, \<^verbatim>\<open>middleware/trace.go\<close> and \<^verbatim>\<open>middleware/trace_w3c.go\<close>: reading and
  writing the W3C headers, the identifiers, and the middleware that continues or starts a
  trace.  Random bytes are arguments.
\<close>

subsection \<open>Hexadecimal\<close>

definition hex_digit :: "nat \<Rightarrow> char" where
  "hex_digit n = (if n < 10 then char_of (48 + n) else char_of (87 + n))"

definition hex_value :: "char \<Rightarrow> nat option" where
  "hex_value c =
     (let n = char_code c in
      if 48 \<le> n \<and> n \<le> 57 then Some (n - 48)
      else if 97 \<le> n \<and> n \<le> 102 then Some (n - 87)
      else if 65 \<le> n \<and> n \<le> 70 then Some (n - 55)
      else None)"

text \<open>\<^verbatim>\<open>hex.EncodeToString\<close>\<close>

primrec hex_encode :: "8 word list \<Rightarrow> string" where
  "hex_encode [] = []"
| "hex_encode (b # bs) = hex_digit (unat b div 16) # hex_digit (unat b mod 16) # hex_encode bs"

text \<open>
  \<^verbatim>\<open>hex.DecodeString\<close> with its error ignored: the bytes before the first bad pair.
\<close>

fun hex_decode :: "string \<Rightarrow> 8 word list" where
  "hex_decode (a # b # rest) =
     (case (hex_value a, hex_value b) of
        (Some x, Some y) \<Rightarrow> word_of_nat (16 * x + y) # hex_decode rest
      | _ \<Rightarrow> [])"
| "hex_decode _ = []"

lemma hex_digit_code: "n < 16 \<Longrightarrow> char_code (hex_digit n) = (if n < 10 then 48 + n else 87 + n)"
  by (simp add: hex_digit_def char_code_of)

lemma hex_value_digit: "n < 16 \<Longrightarrow> hex_value (hex_digit n) = Some n"
  by (auto simp: hex_value_def hex_digit_code Let_def)

lemma unat_byte: "unat (b :: 8 word) < 256"
  using unsigned_less [of b] by simp

lemma hex_decode_encode: "hex_decode (hex_encode bs) = bs"
proof (induction bs)
  case (Cons b bs)
  have "unat b div 16 < 16" using unat_byte [of b] by (simp add: less_mult_imp_div_less)
  moreover have "(word_of_nat (16 * (unat b div 16) + unat b mod 16) :: 8 word) = b"
    by (simp only: mult_div_mod_eq) simp
  ultimately show ?case using Cons by (simp add: hex_value_digit)
qed simp

lemma length_hex_encode [simp]: "length (hex_encode bs) = 2 * length bs"
  by (induction bs) simp_all

text \<open>The lower-case digits, as in the regular expression.\<close>

definition lower_hex :: "char \<Rightarrow> bool" where
  "lower_hex c \<longleftrightarrow> 48 \<le> char_code c \<and> char_code c \<le> 57 \<or> 97 \<le> char_code c \<and> char_code c \<le> 102"

lemma lower_hex_encode: "list_all lower_hex (hex_encode bs)"
proof (induction bs)
  case (Cons b bs)
  have "unat b div 16 < 16" using unat_byte [of b] by (simp add: less_mult_imp_div_less)
  then have "lower_hex (hex_digit (unat b div 16))" "lower_hex (hex_digit (unat b mod 16))"
    by (auto simp: lower_hex_def hex_digit_code)
  with Cons show ?case by simp
qed simp

subsection \<open>Trace contexts\<close>

record trace_context =
  TraceID :: string
  SpanID :: string
  ParentID :: string
  Flags :: string
  State :: string

definition zeroTraceID :: string where
  "zeroTraceID = replicate 32 CHR ''0''"

definition zeroSpanID :: string where
  "zeroSpanID = replicate 16 CHR ''0''"

text \<open>
  \<^verbatim>\<open>FindStringSubmatch\<close> for \<^verbatim>\<open>^00-([0-9a-f]{32})-([0-9a-f]{16})-([0-9a-f]{2})$\<close>: the three
  groups.
\<close>

definition traceparent_groups :: "string \<Rightarrow> (string \<times> string \<times> string) option" where
  "traceparent_groups s =
     (let tid = take 32 (drop 3 s); sid = take 16 (drop 36 s); flags = drop 53 s in
      if length s = 55 \<and> take 3 s = ''00-'' \<and> list_all lower_hex tid \<and> take 1 (drop 35 s) = ''-'' \<and>
         list_all lower_hex sid \<and> take 1 (drop 52 s) = ''-'' \<and> list_all lower_hex flags
      then Some (tid, sid, flags) else None)"

definition Extract :: "gin_context \<Rightarrow> trace_context" where
  "Extract c =
     (let tc0 = \<lparr>TraceID = [], SpanID = [], ParentID = [], Flags = [], State = []\<rparr>;
          traceparent = GetHeader c ''Traceparent'';
          tc1 =
            (if traceparent \<noteq> [] then
               (case traceparent_groups traceparent of
                  None \<Rightarrow> tc0
                | Some (traceID, spanID, flags) \<Rightarrow>
                    if traceID \<noteq> zeroTraceID \<and> spanID \<noteq> zeroSpanID
                    then tc0\<lparr>TraceID := traceID, SpanID := spanID, Flags := flags\<rparr> else tc0)
             else tc0);
          tracestate = GetHeader c ''Tracestate''
      in if tracestate \<noteq> [] then tc1\<lparr>State := tracestate\<rparr> else tc1)"

definition Inject :: "trace_context \<Rightarrow> gin_call list" where
  "Inject tc =
     Header ''Traceparent'' (''00-'' @ TraceID tc @ ''-'' @ SpanID tc @ ''-'' @ Flags tc) #
     (if State tc \<noteq> [] then [Header ''Tracestate'' (State tc)] else [])"

definition generateTraceID :: "8 word list \<Rightarrow> string" where
  "generateTraceID b = hex_encode b"

definition generateSpanID :: "8 word list \<Rightarrow> string" where
  "generateSpanID b = hex_encode b"

text \<open>What the specification of the header asks of the identifiers.\<close>

definition valid_ids :: "trace_context \<Rightarrow> bool" where
  "valid_ids tc \<longleftrightarrow>
     length (TraceID tc) = 32 \<and> list_all lower_hex (TraceID tc) \<and> TraceID tc \<noteq> zeroTraceID \<and>
     length (SpanID tc) = 16 \<and> list_all lower_hex (SpanID tc) \<and> SpanID tc \<noteq> zeroSpanID \<and>
     length (Flags tc) = 2 \<and> list_all lower_hex (Flags tc)"

lemma traceparent_groups_build:
  assumes t: "length t = 32" "list_all lower_hex t" and s: "length s = 16" "list_all lower_hex s"
    and f: "length f = 2" "list_all lower_hex f"
  shows "traceparent_groups (''00-'' @ t @ ''-'' @ s @ ''-'' @ f) = Some (t, s, f)"
proof -
  define h where "h = ''00-'' @ t @ ''-'' @ s @ ''-'' @ f"
  have add: "drop (m + n) h = drop n (drop m h)" for m n
    by (metis add.commute drop_drop)
  have h3: "take 3 h = ''00-''" "drop 3 h = t @ ''-'' @ s @ ''-'' @ f" by (simp_all add: h_def)
  have h35: "drop 35 h = ''-'' @ s @ ''-'' @ f" using add [of 3 32] t(1) by (simp add: h3)
  have h36: "drop 36 h = s @ ''-'' @ f" using add [of 35 1] by (simp add: h35)
  have h52: "drop 52 h = ''-'' @ f" using add [of 36 16] s(1) by (simp add: h36)
  have h53: "drop 53 h = f" using add [of 52 1] by (simp add: h52)
  have len: "length h = 55" by (simp add: h_def t(1) s(1) f(1))
  have "traceparent_groups h = Some (t, s, f)"
    unfolding traceparent_groups_def Let_def h3 h35 h36 h52 h53 len using t s f by simp
  then show ?thesis by (simp only: h_def)
qed

lemma traceparent_groups_valid:
  assumes "traceparent_groups h = Some (t, s, f)"
  shows "length t = 32 \<and> list_all lower_hex t \<and> length s = 16 \<and> list_all lower_hex s \<and>
    length f = 2 \<and> list_all lower_hex f"
  using assms by (auto simp: traceparent_groups_def Let_def split: if_splits)

subsection \<open>The provider interface\<close>

text \<open>
  What the middleware relies on in a \<^verbatim>\<open>TraceProvider\<close>: an extracted context is empty or has
  valid identifiers; and what is injected is extracted again by the next service, up to the
  parent, which is not sent.
\<close>

definition headers_of :: "gin_call list \<Rightarrow> headers \<Rightarrow> headers" where
  "headers_of calls h = foldl (\<lambda>m (k, v). header_set m k v) h (response_headers calls)"

locale trace_provider =
  fixes reads :: "gin_context \<Rightarrow> trace_context"
    and writes :: "trace_context \<Rightarrow> gin_call list"
  assumes extract_valid: "TraceID (reads c) \<noteq> [] \<Longrightarrow> valid_ids (reads c)"
    and extract_no_ids: "TraceID (reads c) = [] \<Longrightarrow> SpanID (reads c) = [] \<and> Flags (reads c) = []"
    and inject_extract:
      "valid_ids tc \<Longrightarrow> rq_Header c = headers_of (writes tc) Map.empty \<Longrightarrow>
         reads c = tc\<lparr>ParentID := []\<rparr>"

lemma trace_keys:
  "canonical_key ''Traceparent'' = ''Traceparent''" "canonical_key ''Tracestate'' = ''Tracestate''"
  by code_simp+

lemma Extract_ids:
  "(TraceID (Extract c) = [] \<and> SpanID (Extract c) = [] \<and> Flags (Extract c) = []) \<or> valid_ids (Extract c)"
proof (cases "traceparent_groups (GetHeader c ''Traceparent'')")
  case None
  then show ?thesis by (simp add: Extract_def Let_def)
next
  case (Some g)
  obtain t s f where "g = (t, s, f)" by (cases g)
  with Some traceparent_groups_valid [of _ t s f] show ?thesis
    by (auto simp: Extract_def Let_def valid_ids_def)
qed

lemma Inject_headers:
  "GetHeader (c\<lparr>rq_Header := headers_of (Inject tc) Map.empty\<rparr>) ''Traceparent'' =
     ''00-'' @ TraceID tc @ ''-'' @ SpanID tc @ ''-'' @ Flags tc"
  "GetHeader (c\<lparr>rq_Header := headers_of (Inject tc) Map.empty\<rparr>) ''Tracestate'' = State tc"
  by (auto simp: GetHeader_def headers_of_def Inject_def response_headers_def List.map_filter_simps
      header_get_def header_set_def trace_keys get_slice_def)

lemma Extract_Inject:
  assumes "valid_ids tc"
  shows "Extract (c\<lparr>rq_Header := headers_of (Inject tc) Map.empty\<rparr>) = tc\<lparr>ParentID := []\<rparr>"
proof -
  have "traceparent_groups (''00-'' @ TraceID tc @ ''-'' @ SpanID tc @ ''-'' @ Flags tc) =
      Some (TraceID tc, SpanID tc, Flags tc)"
    using assms by (intro traceparent_groups_build) (simp_all add: valid_ids_def)
  with assms show ?thesis
    unfolding Extract_def Inject_headers by (simp add: Let_def valid_ids_def)
qed

interpretation w3c: trace_provider Extract Inject
proof
  show "TraceID (Extract c) \<noteq> [] \<Longrightarrow> valid_ids (Extract c)" for c using Extract_ids [of c] by blast
  show "TraceID (Extract c) = [] \<Longrightarrow> SpanID (Extract c) = [] \<and> Flags (Extract c) = []" for c
    using Extract_ids [of c] by (auto simp: valid_ids_def)
  show "Extract c = tc\<lparr>ParentID := []\<rparr>" if "valid_ids tc" "rq_Header c = headers_of (Inject tc) Map.empty" for tc c
  proof -
    have "c = c\<lparr>rq_Header := headers_of (Inject tc) Map.empty\<rparr>" using that(2) by simp
    then show ?thesis using Extract_Inject [OF that(1), of c] by metis
  qed
qed

end
