(* ===== verification/LoadBalancer.thy ===== *)
theory LoadBalancer
  imports Prelude "HOL-Library.Word" "HOL-Library.Multiset"
begin

text \<open>
  The round-robin balancer of \<^verbatim>\<open>internal/application/loadbalancer.go\<close>.  Its whole state is an
  atomic 64-bit counter: one call of \<open>Select\<close> is one atomic step, and the counter wraps.
\<close>

subsection \<open>The interface\<close>

text \<open>
  What a caller of the Go interface \<^verbatim>\<open>LoadBalancer\<close> relies on: no instance for an empty list,
  one of the given instances otherwise, and never an index out of range.  A Go slice has fewer
  than $2^{63}$ elements.
\<close>

locale load_balancer =
  fixes select :: "'b \<Rightarrow> 'i list \<Rightarrow> 'b \<times> 'i option outcome"
  assumes select_nothing: "snd (select b []) = Ret None"
    and select_member:
      "insts \<noteq> [] \<Longrightarrow> length insts < 2 ^ 63 \<Longrightarrow> \<exists>i \<in> set insts. snd (select b insts) = Ret (Some i)"
begin

lemma select_no_panic: "length insts < 2 ^ 63 \<Longrightarrow> snd (select b insts) \<noteq> Panic"
  using select_member [of insts b] select_nothing [of b] by (cases "insts = []") auto

lemma select_sound: "length insts < 2 ^ 63 \<Longrightarrow> snd (select b insts) = Ret (Some i) \<Longrightarrow> i \<in> set insts"
  using select_member [of insts b] select_nothing [of b] by (cases "insts = []") auto

lemma select_none_iff: "length insts < 2 ^ 63 \<Longrightarrow> snd (select b insts) = Ret None \<longleftrightarrow> insts = []"
  using select_member [of insts b] select_nothing [of b] by (cases "insts = []") auto

end

subsection \<open>Round robin\<close>

record round_robin =
  counter :: "64 word"

definition NewRoundRobinBalancer :: round_robin where
  "NewRoundRobinBalancer = \<lparr>counter = 0\<rparr>"

definition Select :: "round_robin \<Rightarrow> 'i list \<Rightarrow> round_robin \<times> 'i option outcome" where
  "Select r insts =
     (if length insts = 0 then (r, Ret None)
      else
        (let n = counter r + 1;
             len = of_nat (length insts) :: 64 word
         in (r\<lparr>counter := n\<rparr>,
             if len = 0 then Panic
             else (let idx = unat ((n - 1) mod len) in
                   if idx < length insts then Ret (Some (insts ! idx)) else Panic))))"

lemma unat_length: "length xs < 2 ^ 64 \<Longrightarrow> unat (of_nat (length xs) :: 64 word) = length xs"
  by (simp add: unat_of_nat take_bit_nat_eq_self)

lemma Select_eq:
  assumes "insts \<noteq> []" and "length insts < 2 ^ 64"
  shows "Select r insts =
    (r\<lparr>counter := counter r + 1\<rparr>, Ret (Some (insts ! (unat (counter r) mod length insts))))"
proof -
  have "of_nat (length insts) \<noteq> (0 :: 64 word)"
    using assms unat_length [OF assms(2)] by (metis length_0_conv unat_0)
  with assms show ?thesis by (simp add: Select_def Let_def unat_mod_distrib unat_length)
qed

interpretation rr: load_balancer Select
proof
  show "snd (Select b []) = Ret None" for b by (simp add: Select_def)
  show "\<exists>i \<in> set insts. snd (Select b insts) = Ret (Some i)"
    if "insts \<noteq> []" "length insts < 2 ^ 63" for b and insts :: "'i list"
    using that by (simp add: Select_eq)
qed

subsection \<open>A run of selections\<close>

text \<open>\<open>select_run r insts n\<close>: \<open>n\<close> consecutive calls on the same list of instances.\<close>

primrec select_run :: "round_robin \<Rightarrow> 'i list \<Rightarrow> nat \<Rightarrow> 'i option outcome list" where
  "select_run r insts 0 = []"
| "select_run r insts (Suc n) =
     (let (r', sel) = Select r insts in sel # select_run r' insts n)"

definition picks_of :: "'i option outcome list \<Rightarrow> 'i list" where
  "picks_of outs = List.map_filter (\<lambda>out. case out of Ret sel \<Rightarrow> sel | Panic \<Rightarrow> None) outs"

lemma unat_counter_Suc: "unat c + Suc n \<le> 2 ^ 64 \<Longrightarrow> n \<noteq> 0 \<Longrightarrow> unat (c + 1 :: 64 word) = Suc (unat c)"
  by (simp add: unat_plus_if' unat_1)

lemma select_run_eq:
  assumes "insts \<noteq> []" and "length insts < 2 ^ 64"
  shows "unat (counter r) + n \<le> 2 ^ 64 \<Longrightarrow>
    select_run r insts n =
      map (\<lambda>j. Ret (Some (insts ! ((unat (counter r) + j) mod length insts)))) [0..<n]"
proof (induction n arbitrary: r)
  case (Suc n)
  show ?case
  proof (cases "n = 0")
    case True
    with assms show ?thesis by (simp add: Select_eq)
  next
    case False
    have nxt: "unat (counter (r\<lparr>counter := counter r + 1\<rparr>)) = Suc (unat (counter r))"
      using unat_counter_Suc [OF Suc.prems False] by simp
    from Suc.prems nxt have "unat (counter (r\<lparr>counter := counter r + 1\<rparr>)) + n \<le> 2 ^ 64" by simp
    from Suc.IH [OF this] nxt assms show ?thesis
      by (simp add: Select_eq upt_conv_Cons map_Suc_upt [symmetric] del: upt_Suc)
  qed
qed simp

lemma mset_full_turn:
  "mset (map (\<lambda>j. xs ! ((c + j) mod length xs)) [0..<length xs]) = mset xs"
proof -
  have "map (\<lambda>j. xs ! ((c + j) mod length xs)) [0..<length xs] = rotate c xs"
    by (rule nth_equalityI) (simp_all add: nth_rotate)
  also have "mset (rotate c xs) = mset (drop (c mod length xs) xs) + mset (take (c mod length xs) xs)"
    by (simp add: rotate_drop_take)
  also have "\<dots> = mset xs" by (metis add.commute append_take_drop_id mset_append)
  finally show ?thesis .
qed

lemma mset_turns:
  "mset (map (\<lambda>j. xs ! ((c + j) mod length xs)) [0..<k * length xs]) = repeat_mset k (mset xs)"
proof (induction k)
  case (Suc k)
  have "[0..<Suc k * length xs] = [0..<k * length xs] @ map (\<lambda>j. j + k * length xs) [0..<length xs]"
    using upt_add_eq_append [of 0 "k * length xs" "length xs"] by (simp add: map_add_upt add.commute)
  moreover have "(c + (j + k * length xs)) mod length xs = (c + j) mod length xs" for j
    by (metis add.assoc mod_mult_self1)
  ultimately have "mset (map (\<lambda>j. xs ! ((c + j) mod length xs)) [0..<Suc k * length xs]) =
      repeat_mset k (mset xs) + mset (map (\<lambda>j. xs ! ((c + j) mod length xs)) [0..<length xs])"
    using Suc by (simp add: comp_def)
  then show ?case by (simp add: mset_full_turn del: mset_map)
qed simp

lemma picks_of_ret: "picks_of (map (\<lambda>j. Ret (Some (f j))) js) = map f js"
  by (induction js) (simp_all add: picks_of_def List.map_filter_simps)

lemma repeat_mset_twice: "repeat_mset 2 m = m + m"
  by (simp add: numeral_2_eq_2)

lemma select_run_2:
  "select_run r insts 2 = [snd (Select r insts), snd (Select (fst (Select r insts)) insts)]"
  by (simp add: numeral_2_eq_2 case_prod_beta)

subsection \<open>Properties\<close>

text \<open>
  C27. While the counter does not wrap, round robin is perfectly fair from any starting point:
  any number of full turns over a fixed list of instances selects every instance equally often,
  and every call selects one.
\<close>

theorem round_robin_fair:
  assumes "insts \<noteq> []" and "unat (counter r) + k * length insts \<le> 2 ^ 64" and "length insts < 2 ^ 63"
  shows "length (picks_of (select_run r insts (k * length insts))) = k * length insts \<and>
    mset (picks_of (select_run r insts (k * length insts))) = repeat_mset k (mset insts)"
proof -
  have "picks_of (select_run r insts (k * length insts)) =
      map (\<lambda>j. insts ! ((unat (counter r) + j) mod length insts)) [0..<k * length insts]"
    using assms by (subst select_run_eq) (simp_all add: picks_of_ret)
  then show ?thesis by (simp add: mset_turns del: mset_map)
qed

theorem round_robin_fair_witness:
  "mset (picks_of (select_run NewRoundRobinBalancer [''a'', ''b'', ''c''] (2 * 3))) =
     repeat_mset 2 {#''a'', ''b'', ''c''#}"
proof -
  have len: "length [''a'', ''b'', ''c''] = 3" by simp
  have "unat (counter NewRoundRobinBalancer) + 2 * (3 :: nat) \<le> 2 ^ 64" "(3 :: nat) < 2 ^ 63"
    by (simp_all add: NewRoundRobinBalancer_def)
  with round_robin_fair [of "[''a'', ''b'', ''c'']" NewRoundRobinBalancer 2, unfolded len]
  have "mset (picks_of (select_run NewRoundRobinBalancer [''a'', ''b'', ''c''] (2 * 3))) =
     repeat_mset 2 (mset [''a'', ''b'', ''c''])" by blast
  then show ?thesis by simp
qed

text \<open>
  At the wrap of the counter the turn is cut short: unless the number of instances divides
  $2^{64}$, the call that wraps the counter is followed by the first instance, whatever
  its own choice was: with three instances one of them is selected twice in a row, with two the
  order is kept.
\<close>

lemma round_robin_wrap:
  "select_run \<lparr>counter = - 1\<rparr> [a, b, c] 2 = [Ret (Some a), Ret (Some a)] \<and>
   select_run \<lparr>counter = - 1\<rparr> [a, b] 2 = [Ret (Some b), Ret (Some a)]"
proof -
  have u: "unat (- 1 :: 64 word) = 18446744073709551615"
    by (simp add: unsigned_minus_1_eq_mask mask_eq_exp_minus_1)
  have len: "length [a, b, c] = 3" "length [a, b] = 2" by simp_all
  have m: "(18446744073709551615 :: nat) mod 3 = 0" "(18446744073709551615 :: nat) mod 2 = 1"
    by simp_all
  have three: "Select r [a, b, c] =
      (r\<lparr>counter := counter r + 1\<rparr>, Ret (Some ([a, b, c] ! (unat (counter r) mod 3))))" for r
    using Select_eq [of "[a, b, c]" r, unfolded len] by simp
  have two: "Select r [a, b] =
      (r\<lparr>counter := counter r + 1\<rparr>, Ret (Some ([a, b] ! (unat (counter r) mod 2))))" for r
    using Select_eq [of "[a, b]" r, unfolded len] by simp
  show ?thesis by (simp add: select_run_2 three two u m)
qed

end
