(* ===== verification/Proxy.thy ===== *)
theory Proxy
  imports Routing Middleware LoadBalancer
begin

text \<open>
  The reverse proxy of \<^verbatim>\<open>internal/infrastructure/proxy/proxy.go\<close>: how a request is matched,
  authenticated, given an instance, and rewritten before \<^verbatim>\<open>httputil.ReverseProxy\<close> sends it.
  The two reads of the registry (the routes, then the instances) are separate critical
  sections, so they may see two different registries.
\<close>

subsection \<open>The director\<close>

definition hopByHopHeaders :: "string list" where
  "hopByHopHeaders =
     [''Connection'', ''Keep-Alive'', ''Proxy-Authenticate'', ''Proxy-Authorization'', ''Te'',
      ''Trailers'', ''Transfer-Encoding'', ''Upgrade'']"

record out_request =
  out_Scheme :: string
  out_URLHost :: string
  out_Host :: string
  out_Path :: string
  out_RawQuery :: string
  out_Header :: headers

fun delete_headers :: "string list \<Rightarrow> headers \<Rightarrow> headers" where
  "delete_headers [] h = h"
| "delete_headers (k # ks) h = delete_headers ks (header_del h k)"

definition set_if :: "bool \<Rightarrow> string \<Rightarrow> string \<Rightarrow> headers \<Rightarrow> headers" where
  "set_if b k v h = (if b then header_set h k v else h)"

definition forwarded_for :: "gin_context \<Rightarrow> headers \<Rightarrow> string" where
  "forwarded_for c h =
     (let prior = header_get h ''X-Forwarded-For'' in
      if prior \<noteq> [] then prior @ '', '' @ ctx_ClientIP c else ctx_ClientIP c)"

definition forwarded_proto :: "gin_context \<Rightarrow> string" where
  "forwarded_proto c =
     (let proto = (if rq_TLS c then ''https'' else ''http'') in
      if GetHeader c ''X-Forwarded-Proto'' \<noteq> [] then GetHeader c ''X-Forwarded-Proto'' else proto)"

definition traceparent_of :: "string \<Rightarrow> string \<Rightarrow> string \<Rightarrow> string" where
  "traceparent_of traceID spanID flags = ''00-'' @ traceID @ ''-'' @ spanID @ ''-'' @ flags"

text \<open>
  \<open>req\<close> is the outgoing request that \<^verbatim>\<open>ReverseProxy\<close> cloned from the incoming one; the
  director changes it in place.
\<close>

definition Director :: "gin_context \<Rightarrow> string \<Rightarrow> service_instance \<Rightarrow> out_request \<Rightarrow> out_request" where
  "Director c serviceName inst req =
     (let h0 = delete_headers hopByHopHeaders (out_Header req);
          h1 = header_set h0 ''X-Forwarded-For'' (forwarded_for c h0);
          h2 = set_if (rq_Host c \<noteq> []) ''X-Forwarded-Host'' (rq_Host c) h1;
          h3 = header_set h2 ''X-Forwarded-Proto'' (forwarded_proto c);
          h4 = set_if (GetString c ''request_id'' \<noteq> []) ''X-Request-ID'' (GetString c ''request_id'') h3;
          flags = (if GetString c ''trace_flags'' = [] then ''01'' else GetString c ''trace_flags'');
          h5 = set_if (GetString c ''trace_id'' \<noteq> []) ''Traceparent''
                 (traceparent_of (GetString c ''trace_id'') (GetString c ''span_id'') flags) h4;
          h6 = set_if (GetString c ''trace_state'' \<noteq> []) ''Tracestate'' (GetString c ''trace_state'') h5;
          h7 = header_set h6 ''X-Forwarded-Service'' serviceName
      in req\<lparr>out_Scheme := ''http'', out_URLHost := Address inst, out_Host := Address inst,
             out_Path := rq_Path c,
             out_RawQuery := (if rq_RawQuery c \<noteq> [] then rq_RawQuery c else out_RawQuery req),
             out_Header := h7\<rparr>)"

definition clone_request :: "gin_context \<Rightarrow> headers \<Rightarrow> out_request" where
  "clone_request c h =
     \<lparr>out_Scheme = [], out_URLHost = [], out_Host = rq_Host c, out_Path = rq_Path c,
      out_RawQuery = rq_RawQuery c, out_Header = h\<rparr>"

text \<open>
  After the director, \<^verbatim>\<open>ReverseProxy\<close> adds the address of its peer to \<^verbatim>\<open>X-Forwarded-For\<close> itself.
\<close>

definition reverse_proxy_forwarded_for :: "string \<Rightarrow> headers \<Rightarrow> headers" where
  "reverse_proxy_forwarded_for remoteIP h =
     (case get_slice h ''X-Forwarded-For'' of
        [] \<Rightarrow> header_set h ''X-Forwarded-For'' remoteIP
      | prior \<Rightarrow> header_set h ''X-Forwarded-For'' (Join '', '' prior @ '', '' @ remoteIP))"

definition upstream_error :: "string \<Rightarrow> gin_call list" where
  "upstream_error err =
     [JSON 502 (error_body ''upstream_error'' (''failed to connect to upstream: '' @ err))]"

subsection \<open>The handler\<close>

datatype proxy_result = Answered "gin_call list" | Forwarded out_request

definition route_not_found :: json where
  "route_not_found = error_body ''route_not_found'' ''no service registered for this route''"

definition no_healthy_instances :: "string \<Rightarrow> json" where
  "no_healthy_instances svc =
     JObject [(''error'', JString ''service_unavailable''),
              (''message'', JString ''no healthy instances available''), (''service'', JString svc)]"

definition select_failed :: json where
  "select_failed = error_body ''service_unavailable'' ''failed to select instance''"

text \<open>
  \<open>auth\<close> is the authentication middleware (\<open>None\<close> when no key is configured), as the function
  from the context, the entry and the service name to its calls and its verdict.
\<close>

definition Handle ::
    "('b \<Rightarrow> service_instance list \<Rightarrow> 'b \<times> service_instance option outcome) \<Rightarrow>
     (gin_context \<Rightarrow> route_entry \<Rightarrow> string \<Rightarrow> gin_call list \<times> bool) option \<Rightarrow>
     registry \<Rightarrow> string list \<Rightarrow> string list \<Rightarrow> registry \<Rightarrow> gin_context \<Rightarrow> 'b \<Rightarrow> 'b \<times> proxy_result outcome" where
  "Handle select auth r copy_order ks r2 c b =
     (case MatchRoute r (rq_Method c) (rq_Path c) copy_order ks of
        Panic \<Rightarrow> (b, Panic)
      | Ret None \<Rightarrow> (b, Ret (Answered [JSON 404 route_not_found]))
      | Ret (Some m) \<Rightarrow>
          (let entry = mr_Entry m; svc = re_ServiceName entry;
               (calls, ok) = (case auth of None \<Rightarrow> ([], True) | Some authenticate \<Rightarrow> authenticate c entry svc)
           in if \<not> ok then (b, Ret (Answered calls))
              else
                (let insts = GetHealthyInstances r2 svc in
                 if length insts = 0 then (b, Ret (Answered [JSON 503 (no_healthy_instances svc)]))
                 else
                   (case select b insts of
                      (b', Panic) \<Rightarrow> (b', Panic)
                    | (b', Ret None) \<Rightarrow> (b', Ret (Answered [JSON 503 select_failed]))
                    | (b', Ret (Some inst)) \<Rightarrow>
                        (let h = apply_request_headers (rq_Header c) calls;
                             c' = c\<lparr>rq_Header := h\<rparr>
                         in (b', Ret (Forwarded (Director c' svc inst (clone_request c' h)))))))))"

subsection \<open>What the director does to the headers\<close>

lemma delete_headers_get:
  "delete_headers ks h j = (if j \<in> canonical_key ` set ks then None else h j)"
  by (induction ks arbitrary: h) (auto simp: header_del_def)

lemma canonical_fixed:
  "canonical_key ''X-Forwarded-For'' = ''X-Forwarded-For''"
  "canonical_key ''X-Forwarded-Host'' = ''X-Forwarded-Host''"
  "canonical_key ''X-Forwarded-Proto'' = ''X-Forwarded-Proto''"
  "canonical_key ''X-Forwarded-Service'' = ''X-Forwarded-Service''"
  "canonical_key ''X-Request-ID'' = ''X-Request-Id''"
  "canonical_key ''Traceparent'' = ''Traceparent''"
  "canonical_key ''Tracestate'' = ''Tracestate''"
  by code_simp+

lemma hop_keys: "canonical_key ` set hopByHopHeaders = set hopByHopHeaders"
  unfolding hopByHopHeaders_def by code_simp

definition director_keys :: "string set" where
  "director_keys =
     {''X-Forwarded-For'', ''X-Forwarded-Host'', ''X-Forwarded-Proto'', ''X-Request-Id'',
      ''Traceparent'', ''Tracestate'', ''X-Forwarded-Service''}"

lemma director_keys_not_hop: "k \<in> director_keys \<Longrightarrow> k \<notin> set hopByHopHeaders"
  by (auto simp: director_keys_def hopByHopHeaders_def)

lemma Director_other:
  "k \<notin> director_keys \<Longrightarrow>
     out_Header (Director c svc inst req) k =
       (if k \<in> set hopByHopHeaders then None else out_Header req k)"
  by (simp add: Director_def Let_def set_if_def header_set_def canonical_fixed delete_headers_get hop_keys
      director_keys_def)

lemma Director_hop: "k \<in> set hopByHopHeaders \<Longrightarrow> out_Header (Director c svc inst req) k = None"
  using director_keys_not_hop by (metis Director_other)

lemma Director_fixed:
  "out_Header (Director c svc inst req) ''X-Forwarded-Service'' = Some [svc]"
  "out_Header (Director c svc inst req) ''X-Forwarded-Proto'' = Some [forwarded_proto c]"
  "out_Header (Director c svc inst req) ''X-Forwarded-For'' =
     Some [forwarded_for c (out_Header req)]"
proof -
  have "header_get (delete_headers hopByHopHeaders h) ''X-Forwarded-For'' = header_get h ''X-Forwarded-For''" for h
    by (simp add: header_get_def get_slice_def canonical_fixed delete_headers_get hop_keys)
       (simp add: hopByHopHeaders_def)
  then have ff: "forwarded_for c (delete_headers hopByHopHeaders h) = forwarded_for c h" for h
    by (simp add: forwarded_for_def)
  show "out_Header (Director c svc inst req) ''X-Forwarded-Service'' = Some [svc]"
    "out_Header (Director c svc inst req) ''X-Forwarded-Proto'' = Some [forwarded_proto c]"
    "out_Header (Director c svc inst req) ''X-Forwarded-For'' = Some [forwarded_for c (out_Header req)]"
    by (simp_all add: Director_def Let_def set_if_def header_set_def canonical_fixed ff)
qed

lemma Director_request:
  "out_Scheme (Director c svc inst req) = ''http''" "out_URLHost (Director c svc inst req) = Address inst"
  "out_Host (Director c svc inst req) = Address inst" "out_Path (Director c svc inst req) = rq_Path c"
  "out_RawQuery (Director c svc inst (clone_request c h)) = rq_RawQuery c"
  by (simp_all add: Director_def Let_def clone_request_def)

subsection \<open>The handler over any load balancer\<close>

locale instance_balancer = load_balancer select
  for select :: "'b \<Rightarrow> service_instance list \<Rightarrow> 'b \<times> service_instance option outcome"
begin

lemma Handle_answer:
  assumes "MatchRoute r (rq_Method c) (rq_Path c) co ks = Ret m"
    and "\<And>svc. length (GetHealthyInstances r2 svc) < 2 ^ 63"
  shows "\<exists>res. snd (Handle select auth r co ks r2 c b) = Ret res \<and>
    (case m of
       None \<Rightarrow> res = Answered [JSON 404 route_not_found]
     | Some mr \<Rightarrow>
         (let svc = re_ServiceName (mr_Entry mr);
              (calls, ok) = (case auth of None \<Rightarrow> ([], True) | Some a \<Rightarrow> a c (mr_Entry mr) svc)
          in if \<not> ok then res = Answered calls
             else if GetHealthyInstances r2 svc = [] then res = Answered [JSON 503 (no_healthy_instances svc)]
             else (\<exists>inst \<in> set (GetHealthyInstances r2 svc).
               let h = apply_request_headers (rq_Header c) calls in
               res = Forwarded (Director (c\<lparr>rq_Header := h\<rparr>) svc inst
                                  (clone_request (c\<lparr>rq_Header := h\<rparr>) h)))))"
proof (cases m)
  case None
  with assms(1) show ?thesis by (simp add: Handle_def)
next
  case (Some mr)
  let ?svc = "re_ServiceName (mr_Entry mr)"
  let ?insts = "GetHealthyInstances r2 ?svc"
  obtain calls ok where a: "(case auth of None \<Rightarrow> ([], True) | Some a \<Rightarrow> a c (mr_Entry mr) ?svc) = (calls, ok)"
    by fastforce
  show ?thesis
  proof (cases "ok \<and> ?insts \<noteq> []")
    case False
    with assms(1) Some a show ?thesis by (auto simp: Handle_def Let_def)
  next
    case True
    with assms(2) obtain inst where "inst \<in> set ?insts" "snd (select b ?insts) = Ret (Some inst)"
      using select_member by blast
    moreover from this(2) obtain b' where "select b ?insts = (b', Ret (Some inst))"
      by (cases "select b ?insts") simp
    ultimately show ?thesis
      using assms(1) Some a True by (auto simp: Handle_def Let_def)
  qed
qed

lemma Handle_forwards:
  assumes "MatchRoute r (rq_Method c) (rq_Path c) co ks = Ret m"
    and "\<And>svc. length (GetHealthyInstances r2 svc) < 2 ^ 63"
    and "snd (Handle select auth r co ks r2 c b) = Ret (Forwarded out)"
  shows "\<exists>mr calls inst. m = Some mr \<and>
    (case auth of None \<Rightarrow> calls = []
     | Some a \<Rightarrow> a c (mr_Entry mr) (re_ServiceName (mr_Entry mr)) = (calls, True)) \<and>
    inst \<in> set (GetHealthyInstances r2 (re_ServiceName (mr_Entry mr))) \<and>
    out = Director (c\<lparr>rq_Header := apply_request_headers (rq_Header c) calls\<rparr>)
            (re_ServiceName (mr_Entry mr)) inst
            (clone_request (c\<lparr>rq_Header := apply_request_headers (rq_Header c) calls\<rparr>)
               (apply_request_headers (rq_Header c) calls))"
proof (cases m)
  case None
  with Handle_answer [OF assms(1,2), of auth b] assms(3) show ?thesis by simp
next
  case (Some mr)
  let ?svc = "re_ServiceName (mr_Entry mr)"
  obtain calls ok where a: "(case auth of None \<Rightarrow> ([], True) | Some a \<Rightarrow> a c (mr_Entry mr) ?svc) = (calls, ok)"
    by fastforce
  with Handle_answer [OF assms(1,2), of auth b] assms(3) Some
  have ok: ok and "\<exists>inst \<in> set (GetHealthyInstances r2 ?svc).
      out = Director (c\<lparr>rq_Header := apply_request_headers (rq_Header c) calls\<rparr>) ?svc inst
        (clone_request (c\<lparr>rq_Header := apply_request_headers (rq_Header c) calls\<rparr>)
           (apply_request_headers (rq_Header c) calls))"
    by (auto simp: Let_def split: if_splits)
  with a Some show ?thesis by (cases auth) auto
qed

lemma Handle_reaches:
  assumes "MatchRoute r (rq_Method c) (rq_Path c) co ks = Ret (Some mr)"
    and "a c (mr_Entry mr) (re_ServiceName (mr_Entry mr)) = (calls, True)"
    and "\<And>svc. length (GetHealthyInstances r2 svc) < 2 ^ 63"
    and "GetHealthyInstances r2 (re_ServiceName (mr_Entry mr)) \<noteq> []"
  shows "\<exists>b' out. Handle select (Some a) r co ks r2 c b = (b', Ret (Forwarded out))"
proof -
  have "\<exists>out. snd (Handle select (Some a) r co ks r2 c b) = Ret (Forwarded out)"
    using Handle_answer [OF assms(1,3), of "Some a" b] assms(2,4) by (auto simp: Let_def)
  then show ?thesis by (metis surjective_pairing)
qed

end

interpretation rr_proxy: instance_balancer Select
  by unfold_locales

subsection \<open>What becomes of a forwarded request\<close>

text \<open>
  How the exchange with the upstream may go: it answers with a status and its body is copied to the
  end; the connection or the transport fails before any status, with an error; or the status is
  already on the wire when the body breaks off, on either side.  \<^verbatim>\<open>ReverseProxy\<close> passes the error to
  the \<^verbatim>\<open>ErrorHandler\<close>, and on a broken body it panics with \<^verbatim>\<open>http.ErrAbortHandler\<close>.
\<close>

datatype upstream_answer = Responded int | TransportError string | BodyAborted int

fun upstream_status :: "upstream_answer \<Rightarrow> int" where
  "upstream_status (Responded n) = n"
| "upstream_status (TransportError err) = 502"
| "upstream_status (BodyAborted n) = n"

fun upstream_calls :: "upstream_answer \<Rightarrow> gin_call list" where
  "upstream_calls (TransportError err) = upstream_error err"
| "upstream_calls u = []"

fun ServeHTTP :: "upstream_answer \<Rightarrow> proxy_result \<Rightarrow> proxy_result outcome" where
  "ServeHTTP (BodyAborted n) (Forwarded out) = Panic"
| "ServeHTTP u res = Ret res"

lemma ServeHTTP_answered [simp]: "ServeHTTP u (Answered calls) = Ret (Answered calls)"
  by (cases u) simp_all

lemma ServeHTTP_forwarded:
  "ServeHTTP u (Forwarded out) = (if \<exists>n. u = BodyAborted n then Panic else Ret (Forwarded out))"
  by (cases u) simp_all

lemma ServeHTTP_Ret: "ServeHTTP u res = Ret res' \<Longrightarrow> res' = res"
  by (cases u; cases res) simp_all

subsection \<open>Properties\<close>

text \<open>
  Every request gets an answer, never a panic: 404 when no route fits, the answer of the
  authentication when it refuses, 503 when the service has no healthy instance, and otherwise
  it is forwarded.
\<close>

lemma proxy_always_answers:
  assumes "range_order co (routes r)" and "range_order ks (routes r)"
    and "\<forall>svc. length (GetHealthyInstances r2 svc) < 2 ^ 63"
  shows "\<exists>m res. MatchRoute r (rq_Method c) (rq_Path c) co ks = Ret m \<and>
    snd (Handle Select auth r co ks r2 c b) = Ret res \<and>
    (case m of
       None \<Rightarrow> res = Answered [JSON 404 route_not_found]
     | Some mr \<Rightarrow>
         (let svc = re_ServiceName (mr_Entry mr);
              (calls, ok) = (case auth of None \<Rightarrow> ([], True) | Some a \<Rightarrow> a c (mr_Entry mr) svc)
          in if \<not> ok then res = Answered calls
             else if GetHealthyInstances r2 svc = [] then res = Answered [JSON 503 (no_healthy_instances svc)]
             else (\<exists>out. res = Forwarded out)))"
proof -
  obtain m where m: "MatchRoute r (rq_Method c) (rq_Path c) co ks = Ret m"
    using MatchRoute_found [OF assms(1,2)] by blast
  from rr_proxy.Handle_answer [OF m, of r2 auth b] assms(3) obtain res where
    res: "snd (Handle Select auth r co ks r2 c b) = Ret res"
    and cases: "case m of
       None \<Rightarrow> res = Answered [JSON 404 route_not_found]
     | Some mr \<Rightarrow>
         (let svc = re_ServiceName (mr_Entry mr);
              (calls, ok) = (case auth of None \<Rightarrow> ([], True) | Some a \<Rightarrow> a c (mr_Entry mr) svc)
          in if \<not> ok then res = Answered calls
             else if GetHealthyInstances r2 svc = [] then res = Answered [JSON 503 (no_healthy_instances svc)]
             else (\<exists>inst \<in> set (GetHealthyInstances r2 svc).
               let h = apply_request_headers (rq_Header c) calls in
               res = Forwarded (Director (c\<lparr>rq_Header := h\<rparr>) svc inst
                                  (clone_request (c\<lparr>rq_Header := h\<rparr>) h))))" by blast
  from m res cases show ?thesis
    by (intro exI [of _ m] exI [of _ res]) (auto simp: Let_def split: option.splits if_splits)
qed

text \<open>The routes that may answer a request: the exact one, and without it those that fit.\<close>

definition matched :: "registry \<Rightarrow> string \<Rightarrow> string \<Rightarrow> route_entry \<Rightarrow> bool" where
  "matched r method path e \<longleftrightarrow>
     (case routes r (method @ '':'' @ path) of
        Some e' \<Rightarrow> e = e'
      | None \<Rightarrow> \<exists>pat. candidate r method path pat e)"

definition sample_context :: gin_context where
  "sample_context =
     \<lparr>rq_Method = ''GET'', rq_Path = ''/api/users'', rq_RawQuery = [], rq_Host = ''gateway'', rq_TLS = False,
      rq_Header = Map.empty, ctx_Keys = Map.empty, ctx_ClientIP = ''10.0.0.9'', ctx_FullPath = []\<rparr>"



text \<open>
  The director appends the client to \<^verbatim>\<open>X-Forwarded-For\<close>, and then \<^verbatim>\<open>ReverseProxy\<close> appends its
  peer: a request straight from a client reaches the service with the client's address twice.
\<close>

lemma forwarded_for_twice:
  assumes "header_get (rq_Header c) ''X-Forwarded-For'' = []" and "ctx_ClientIP c \<noteq> []"
  shows "header_get (reverse_proxy_forwarded_for (ctx_ClientIP c)
      (out_Header (Director c svc inst (clone_request c (rq_Header c))))) ''X-Forwarded-For'' =
    ctx_ClientIP c @ '', '' @ ctx_ClientIP c"
proof -
  have "forwarded_for c (rq_Header c) = ctx_ClientIP c" using assms(1) by (simp add: forwarded_for_def)
  then have "get_slice (out_Header (Director c svc inst (clone_request c (rq_Header c)))) ''X-Forwarded-For'' =
      [ctx_ClientIP c]"
    by (simp add: get_slice_def Director_fixed clone_request_def)
  then show ?thesis by (simp add: reverse_proxy_forwarded_for_def header_get_set)
qed

end
