(* ===== verification/Tracing.thy ===== *)
theory Tracing
  imports Trace Proxy
begin

text \<open>
  The tracing middleware and the span exporter (\<^verbatim>\<open>middleware/trace.go\<close>,
  \<^verbatim>\<open>internal/infrastructure/tracing\<close>).  The OTLP exporter is a state machine: requests put
  spans into a bounded channel, one goroutine takes them out, batches and sends them, and a
  shutdown makes it drain the channel and stop.
\<close>

subsection \<open>Spans\<close>

datatype span_kind = SpanKindServer | SpanKindClient | SpanKindOther int

fun SpanKind_String :: "span_kind \<Rightarrow> string" where
  "SpanKind_String SpanKindServer = ''SERVER''"
| "SpanKind_String SpanKindClient = ''CLIENT''"
| "SpanKind_String (SpanKindOther n) = ''UNSPECIFIED''"

record span_data =
  sp_TraceID :: string
  sp_SpanID :: string
  sp_ParentSpanID :: string
  sp_Name :: string
  sp_ServiceName :: string
  sp_Kind :: span_kind
  sp_StartTime :: gotime
  sp_EndTime :: gotime
  sp_StatusCode :: int
  sp_Attributes :: "string \<rightharpoonup> string"

subsection \<open>The middleware\<close>

text \<open>
  The calls up to \<^verbatim>\<open>c.Next()\<close> and the context of the request; the span that is exported
  after it.  \<open>tb\<close> and \<open>sb\<close> are the bytes read from the random source.
\<close>

definition TraceMiddleware ::
    "(gin_context \<Rightarrow> trace_context) \<Rightarrow> (trace_context \<Rightarrow> gin_call list) \<Rightarrow> gin_context \<Rightarrow>
     8 word list \<Rightarrow> 8 word list \<Rightarrow> gin_call list \<times> trace_context" where
  "TraceMiddleware provider_extract provider_inject c tb sb =
     (let tc0 = provider_extract c;
          tc1 = (if TraceID tc0 = [] then tc0\<lparr>TraceID := generateTraceID tb\<rparr> else tc0);
          tc2 = tc1\<lparr>ParentID := SpanID tc1, SpanID := generateSpanID sb\<rparr>;
          tc = (if Flags tc2 = [] then tc2\<lparr>Flags := ''01''\<rparr> else tc2)
      in ([SetKey ''trace_id'' (VString (TraceID tc)), SetKey ''span_id'' (VString (SpanID tc)),
           SetKey ''trace_flags'' (VString (Flags tc))] @
          (if State tc \<noteq> [] then [SetKey ''trace_state'' (VString (State tc))] else []) @
          provider_inject tc @ [Next], tc))"

definition request_span ::
    "trace_context \<Rightarrow> gin_context \<Rightarrow> string \<Rightarrow> gotime \<Rightarrow> gotime \<Rightarrow> int \<Rightarrow> span_data" where
  "request_span tc c url start finish status =
     \<lparr>sp_TraceID = TraceID tc, sp_SpanID = SpanID tc, sp_ParentSpanID = ParentID tc,
      sp_Name = rq_Method c @ '' '' @ ctx_FullPath c, sp_ServiceName = [], sp_Kind = SpanKindServer,
      sp_StartTime = start, sp_EndTime = finish, sp_StatusCode = status,
      sp_Attributes =
        [''http.method'' \<mapsto> rq_Method c, ''http.url'' \<mapsto> url, ''http.status_code'' \<mapsto> Itoa status,
         ''http.route'' \<mapsto> ctx_FullPath c, ''net.peer.ip'' \<mapsto> ctx_ClientIP c]\<rparr>"

subsection \<open>Protocol buffers\<close>

datatype proto_kind = SPAN_KIND_SERVER | SPAN_KIND_CLIENT | SPAN_KIND_UNSPECIFIED
datatype proto_status = STATUS_CODE_ERROR | STATUS_CODE_OK

record proto_span =
  ps_TraceId :: "8 word list"
  ps_SpanId :: "8 word list"
  ps_ParentSpanId :: "8 word list"
  ps_Name :: string
  ps_Kind :: proto_kind
  ps_StartTimeUnixNano :: "64 word"
  ps_EndTimeUnixNano :: "64 word"
  ps_Status :: proto_status
  ps_Attributes :: "(string \<times> string) list"

record traces_data =
  td_service_name :: string
  td_scope_name :: string
  td_scope_version :: string
  td_spans :: "proto_span list"

fun toProtoSpanKind :: "span_kind \<Rightarrow> proto_kind" where
  "toProtoSpanKind SpanKindServer = SPAN_KIND_SERVER"
| "toProtoSpanKind SpanKindClient = SPAN_KIND_CLIENT"
| "toProtoSpanKind (SpanKindOther n) = SPAN_KIND_UNSPECIFIED"

definition toProtoStatus :: "int \<Rightarrow> proto_status" where
  "toProtoStatus httpStatus = (if httpStatus \<ge> 500 then STATUS_CODE_ERROR else STATUS_CODE_OK)"

text \<open>\<open>ks\<close> is the order in which the range visits the attributes.\<close>

primrec toProtoAttributes :: "(string \<rightharpoonup> string) \<Rightarrow> string list \<Rightarrow> (string \<times> string) list" where
  "toProtoAttributes attrs [] = []"
| "toProtoAttributes attrs (k # ks) =
     (case attrs k of
        None \<Rightarrow> toProtoAttributes attrs ks
      | Some v \<Rightarrow> (k, v) # toProtoAttributes attrs ks)"

definition spanDataToProto :: "string list \<Rightarrow> span_data \<Rightarrow> proto_span" where
  "spanDataToProto ks s =
     \<lparr>ps_TraceId = hex_decode (sp_TraceID s), ps_SpanId = hex_decode (sp_SpanID s),
      ps_ParentSpanId = (if sp_ParentSpanID s \<noteq> [] then hex_decode (sp_ParentSpanID s) else []),
      ps_Name = sp_Name s, ps_Kind = toProtoSpanKind (sp_Kind s),
      ps_StartTimeUnixNano = word_of_int (sp_StartTime s),
      ps_EndTimeUnixNano = word_of_int (sp_EndTime s),
      ps_Status = toProtoStatus (sp_StatusCode s),
      ps_Attributes = toProtoAttributes (sp_Attributes s) ks\<rparr>"

definition buildProto :: "string \<Rightarrow> (span_data \<Rightarrow> string list) \<Rightarrow> span_data list \<Rightarrow> traces_data" where
  "buildProto serviceName order batch =
     \<lparr>td_service_name = serviceName, td_scope_name = ''gotway'', td_scope_version = ''1.0.0'',
      td_spans = map (\<lambda>s. spanDataToProto (order s) s) batch\<rparr>"

subsection \<open>The exporter\<close>

definition defaultBufferSize :: nat where
  "defaultBufferSize = 1024"

definition defaultBatchSize :: nat where
  "defaultBatchSize = 64"

text \<open>
  \<open>chan\<close> is the channel, \<open>batch\<close> the local slice of the goroutine, \<open>flushed\<close> what was given to
  \<^verbatim>\<open>flush\<close> so far; \<open>done_closed\<close> is the state of the channel \<^verbatim>\<open>done\<close>, \<open>draining\<close> and \<open>returned\<close> the
  place the goroutine has reached.  \<open>accepted\<close> and \<open>dropped\<close> record what \<^verbatim>\<open>Export\<close> did.
\<close>

record otlp_exporter =
  chan :: "span_data list"
  batch :: "span_data list"
  flushed :: "span_data list list"
  done_closed :: bool
  draining :: bool
  returned :: bool
  accepted_spans :: "span_data list"
  dropped :: "span_data list"

definition NewOTLPExporter :: otlp_exporter where
  "NewOTLPExporter =
     \<lparr>chan = [], batch = [], flushed = [], done_closed = False, draining = False, returned = False,
      accepted_spans = [], dropped = []\<rparr>"

definition Export :: "otlp_exporter \<Rightarrow> span_data \<Rightarrow> otlp_exporter" where
  "Export e sp =
     (if length (chan e) < defaultBufferSize
      then e\<lparr>chan := chan e @ [sp], accepted_spans := accepted_spans e @ [sp]\<rparr>
      else e\<lparr>dropped := dropped e @ [sp]\<rparr>)"

text \<open>\<^verbatim>\<open>close(e.done)\<close>: closing twice panics.\<close>

definition Exporter_Shutdown :: "otlp_exporter \<Rightarrow> otlp_exporter outcome" where
  "Exporter_Shutdown e = (if done_closed e then Panic else Ret (e\<lparr>done_closed := True\<rparr>))"

definition flush :: "otlp_exporter \<Rightarrow> otlp_exporter" where
  "flush e = e\<lparr>flushed := flushed e @ [batch e], batch := []\<rparr>"

text \<open>The two receive cases of the loops, which are the same code.\<close>

definition receive :: "otlp_exporter \<Rightarrow> otlp_exporter" where
  "receive e =
     (case chan e of
        [] \<Rightarrow> e
      | sp # rest \<Rightarrow>
          (let e' = e\<lparr>chan := rest, batch := batch e @ [sp]\<rparr> in
           if length (batch e') \<ge> defaultBatchSize then flush e' else e'))"

definition on_tick :: "otlp_exporter \<Rightarrow> otlp_exporter" where
  "on_tick e = (if length (batch e) > 0 then flush e else e)"

definition drained :: "otlp_exporter \<Rightarrow> otlp_exporter" where
  "drained e = (if length (batch e) > 0 then flush e else e)\<lparr>returned := True\<rparr>"

text \<open>
  What the goroutine may do: it takes one of the cases that are ready.  In the drain loop the
  default case is taken only when the channel is empty.  Beside it requests export and the
  server shuts down.
\<close>

inductive goroutine_step :: "otlp_exporter \<Rightarrow> otlp_exporter \<Rightarrow> bool" where
  do_receive: "\<not> returned e \<Longrightarrow> chan e \<noteq> [] \<Longrightarrow> goroutine_step e (receive e)"
| do_tick: "\<not> returned e \<Longrightarrow> \<not> draining e \<Longrightarrow> goroutine_step e (on_tick e)"
| do_done: "\<not> returned e \<Longrightarrow> \<not> draining e \<Longrightarrow> done_closed e \<Longrightarrow> goroutine_step e (e\<lparr>draining := True\<rparr>)"
| do_return: "\<not> returned e \<Longrightarrow> draining e \<Longrightarrow> chan e = [] \<Longrightarrow> goroutine_step e (drained e)"

inductive exporter_step :: "otlp_exporter \<Rightarrow> otlp_exporter \<Rightarrow> bool" where
  do_export: "exporter_step e (Export e sp)"
| do_shutdown: "Exporter_Shutdown e = Ret e' \<Longrightarrow> exporter_step e e'"
| do_goroutine: "goroutine_step e e' \<Longrightarrow> exporter_step e e'"

inductive_cases goroutine_stepE: "goroutine_step e e'"
inductive_cases exporter_stepE: "exporter_step e e'"

inductive_simps goroutine_step_returned: "goroutine_step (e\<lparr>returned := True\<rparr>) e'"

lemmas goroutine_moves = goroutine_step.intros [THEN do_goroutine]

definition exporter_inv :: "otlp_exporter \<Rightarrow> bool" where
  "exporter_inv e \<longleftrightarrow>
     concat (flushed e) @ batch e @ chan e = accepted_spans e \<and>
     length (chan e) \<le> defaultBufferSize \<and> length (batch e) < defaultBatchSize \<and>
     (\<forall>b \<in> set (flushed e). b \<noteq> [] \<and> length b \<le> defaultBatchSize) \<and>
     (draining e \<longrightarrow> done_closed e) \<and> (returned e \<longrightarrow> draining e \<and> batch e = [])"

lemma exporter_inv_new: "exporter_inv NewOTLPExporter"
  by (simp add: exporter_inv_def NewOTLPExporter_def defaultBatchSize_def)

lemma receive_cases:
  assumes "chan e = sp # rest"
  shows "receive e = e\<lparr>chan := rest, batch := batch e @ [sp]\<rparr> \<and> Suc (length (batch e)) < defaultBatchSize \<or>
    receive e = e\<lparr>chan := rest, batch := [], flushed := flushed e @ [batch e @ [sp]]\<rparr> \<and>
      defaultBatchSize \<le> Suc (length (batch e))"
  using assms by (auto simp: receive_def flush_def Let_def)

lemma inv_Export: "exporter_inv e \<Longrightarrow> exporter_inv (Export e sp)"
  by (cases "length (chan e) < defaultBufferSize")
     (simp_all add: exporter_inv_def Export_def flip: append_assoc)

lemma inv_flush: "exporter_inv e \<Longrightarrow> batch e \<noteq> [] \<Longrightarrow> exporter_inv (flush e)"
  by (simp add: exporter_inv_def flush_def defaultBatchSize_def)

lemma inv_receive: "exporter_inv e \<Longrightarrow> chan e = sp # rest \<Longrightarrow> \<not> returned e \<Longrightarrow> exporter_inv (receive e)"
proof -
  assume inv: "exporter_inv e" and chan: "chan e = sp # rest" and run: "\<not> returned e"
  from receive_cases [OF chan] show "exporter_inv (receive e)"
  proof
    assume "receive e = e\<lparr>chan := rest, batch := batch e @ [sp]\<rparr> \<and> Suc (length (batch e)) < defaultBatchSize"
    with inv chan run show ?thesis by (simp add: exporter_inv_def)
  next
    assume full: "receive e = e\<lparr>chan := rest, batch := [], flushed := flushed e @ [batch e @ [sp]]\<rparr> \<and>
      defaultBatchSize \<le> Suc (length (batch e))"
    have "0 < defaultBatchSize" by (simp add: defaultBatchSize_def)
    with full inv chan run show ?thesis by (simp add: exporter_inv_def)
  qed
qed

lemma goroutine_step_inv: "goroutine_step e e' \<Longrightarrow> exporter_inv e \<Longrightarrow> exporter_inv e'"
proof (induction rule: goroutine_step.induct)
  case (do_receive e)
  then obtain sp rest where "chan e = sp # rest" by (cases "chan e") auto
  with do_receive show ?case by (simp add: inv_receive)
next
  case (do_tick e)
  then show ?case by (simp add: on_tick_def inv_flush)
next
  case (do_done e)
  then show ?case by (simp add: exporter_inv_def)
next
  case (do_return e)
  then have "exporter_inv (if length (batch e) > 0 then flush e else e)" by (simp add: inv_flush)
  with do_return show ?case
    by (cases "batch e = []") (simp_all add: drained_def exporter_inv_def flush_def)
qed

lemma Exporter_Shutdown_Ret: "Exporter_Shutdown e = Ret e' \<Longrightarrow> \<not> done_closed e \<and> e' = e\<lparr>done_closed := True\<rparr>"
  by (auto simp: Exporter_Shutdown_def split: if_splits)

lemma exporter_step_inv: "exporter_step e e' \<Longrightarrow> exporter_inv e \<Longrightarrow> exporter_inv e'"
proof (induction rule: exporter_step.induct)
  case (do_export e sp)
  then show ?case by (rule inv_Export)
next
  case (do_shutdown e e')
  then show ?case by (auto dest!: Exporter_Shutdown_Ret simp: exporter_inv_def)
next
  case (do_goroutine e e')
  then show ?case by (rule goroutine_step_inv)
qed

text \<open>The goroutine accepts nothing and does not close the channel \<^verbatim>\<open>done\<close>.\<close>

lemma goroutine_frame:
  "goroutine_step e e' \<Longrightarrow> accepted_spans e' = accepted_spans e \<and> done_closed e' = done_closed e"
  by (erule goroutine_stepE)
     (auto simp: receive_def on_tick_def drained_def flush_def Let_def split: list.split)

interpretation exporter_machine: invariant_system exporter_step exporter_inv
  by unfold_locales (rule exporter_step_inv)

text \<open>The drain loop as the goroutine runs it once nobody exports any more.\<close>

lemma receive_shrinks: "chan e \<noteq> [] \<Longrightarrow> length (chan (receive e)) < length (chan e)"
  by (cases "chan e") (auto simp: receive_def flush_def Let_def)

function drain_loop :: "otlp_exporter \<Rightarrow> otlp_exporter" where
  "drain_loop e = (if chan e = [] then drained e else drain_loop (receive e))"
  by pat_completeness auto
termination
  by (relation "measure (\<lambda>e. length (chan e))") (simp_all add: receive_shrinks)

declare drain_loop.simps [simp del]

lemma receive_frame:
  "accepted_spans (receive e) = accepted_spans e" "draining (receive e) = draining e"
  "returned (receive e) = returned e" "done_closed (receive e) = done_closed e"
  by (simp_all add: receive_def flush_def Let_def split: list.split)

text \<open>
  A run of the machine with its moves counted: \<open>n\<close> of the goroutine, \<open>m\<close> exports of the requests.
\<close>

inductive exporter_run :: "nat \<Rightarrow> nat \<Rightarrow> otlp_exporter \<Rightarrow> otlp_exporter \<Rightarrow> bool" where
  run_none: "exporter_run 0 0 e e"
| run_export: "exporter_run n m e e' \<Longrightarrow> exporter_run n (Suc m) e (Export e' sp)"
| run_goroutine: "exporter_run n m e e' \<Longrightarrow> goroutine_step e' e'' \<Longrightarrow> exporter_run (Suc n) m e e''"

lemma exporter_run_steps: "exporter_run n m e e' \<Longrightarrow> exporter_step\<^sup>*\<^sup>* e e'"
  by (induction rule: exporter_run.induct)
     (auto intro: do_export do_goroutine rtranclp.rtrancl_into_rtrancl)

lemma Export_frame:
  "draining (Export e sp) = draining e" "returned (Export e sp) = returned e"
  "flushed (Export e sp) = flushed e" "batch (Export e sp) = batch e" "done_closed (Export e sp) = done_closed e"
  "length (chan (Export e sp)) \<le> Suc (length (chan e))"
  "prefix (accepted_spans e) (accepted_spans (Export e sp))"
  by (simp_all add: Export_def)

lemma drain_step_cases:
  assumes "goroutine_step e e'" and "draining e"
  shows "\<not> returned e \<and> draining e' \<and> accepted_spans e' = accepted_spans e \<and>
    (chan e \<noteq> [] \<and> e' = receive e \<and> \<not> returned e' \<and> Suc (length (chan e')) = length (chan e) \<or>
     chan e = [] \<and> e' = drained e \<and> returned e' \<and> chan e' = [])"
  using assms by (cases rule: goroutine_stepE)
    (auto simp: receive_def drained_def flush_def Let_def split: list.split)

lemma drain_progress: "draining e \<Longrightarrow> \<not> returned e \<Longrightarrow> \<exists>e'. goroutine_step e e'"
  by (cases "chan e = []") (blast intro: do_return do_receive)+

text \<open>After \<^verbatim>\<open>close(e.done)\<close> these runs are all the machine does: a second shutdown would panic.\<close>

lemma exporter_run_complete:
  "exporter_step\<^sup>*\<^sup>* e e' \<Longrightarrow> done_closed e \<Longrightarrow> done_closed e' \<and> (\<exists>n m. exporter_run n m e e')"
proof (induction rule: rtranclp_induct)
  case base
  then show ?case by (blast intro: run_none)
next
  case (step y z)
  then obtain n m where "done_closed y" "exporter_run n m e y" by blast
  with step(2) show ?case
    by (cases rule: exporter_stepE)
       (auto simp: Export_frame Exporter_Shutdown_def dest: goroutine_frame intro: run_export run_goroutine)
qed

lemma exporter_run_draining:
  assumes "exporter_run n m e e'" and "draining e" and "\<not> returned e" and "exporter_inv e"
  shows "draining e'"
    and "n \<le> Suc (length (chan e) + m)"
    and "\<not> returned e' \<Longrightarrow> n + length (chan e') \<le> length (chan e) + m"
    and "returned e' \<Longrightarrow> prefix (accepted_spans e) (concat (flushed e'))"
proof -
  have "exporter_inv e' \<and> draining e' \<and> prefix (accepted_spans e) (accepted_spans e') \<and>
      (\<not> returned e' \<longrightarrow> n + length (chan e') \<le> length (chan e) + m) \<and>
      (returned e' \<longrightarrow> n \<le> Suc (length (chan e) + m) \<and> prefix (accepted_spans e) (concat (flushed e')))"
    using assms
  proof (induction rule: exporter_run.induct)
    case (run_none e)
    then show ?case by simp
  next
    case (run_export n m e e' sp)
    then have ih: "exporter_inv e'" "draining e'" "prefix (accepted_spans e) (accepted_spans e')"
      "\<not> returned e' \<Longrightarrow> n + length (chan e') \<le> length (chan e) + m"
      "returned e' \<Longrightarrow> n \<le> Suc (length (chan e) + m) \<and> prefix (accepted_spans e) (concat (flushed e'))"
      by blast+
    note frame = Export_frame [of e' sp]
    show ?case
      using ih(2,4,5) inv_Export [OF ih(1)] prefix_order.trans [OF ih(3) frame(7)] frame(6)
      by (auto simp: frame(1-3) dest: order_trans)
  next
    case (run_goroutine n m e e' e'')
    then have ih: "exporter_inv e'" "draining e'" "prefix (accepted_spans e) (accepted_spans e')"
      "\<not> returned e' \<Longrightarrow> n + length (chan e') \<le> length (chan e) + m"
      by blast+
    note step = drain_step_cases [OF run_goroutine.hyps(2) ih(2)]
    have inv: "exporter_inv e''" by (rule goroutine_step_inv [OF run_goroutine.hyps(2) ih(1)])
    have flush: "concat (flushed e'') = accepted_spans e''" if "returned e''"
    proof -
      have "batch e'' = []" "chan e'' = []" using inv that step by (auto simp: exporter_inv_def)
      then show ?thesis using inv by (simp add: exporter_inv_def)
    qed
    have "\<not> returned e'" and bound: "n + length (chan e') \<le> length (chan e) + m" using ih(4) step by blast+
    from bound have "Suc n + length (chan e'') \<le> length (chan e) + m" if "\<not> returned e''" using that step by auto
    moreover have "draining e''" "prefix (accepted_spans e) (accepted_spans e'')" using step ih(3) by simp_all
    moreover have "Suc n \<le> Suc (length (chan e) + m)" using bound by simp
    ultimately show ?case using inv flush by (intro conjI impI) simp_all
  qed
  then show "draining e'" "n \<le> Suc (length (chan e) + m)"
    "\<not> returned e' \<Longrightarrow> n + length (chan e') \<le> length (chan e) + m"
    "returned e' \<Longrightarrow> prefix (accepted_spans e) (concat (flushed e'))"
    by (cases "returned e'"; simp)+
qed

lemma exporter_run_quiet:
  assumes "exporter_run n m e e'" and "draining e" and "\<not> returned e" and "m = 0"
  shows "draining e' \<and> accepted_spans e' = accepted_spans e \<and>
    (if returned e' then n = Suc (length (chan e)) \<and> chan e' = [] \<and> e' = drain_loop e
     else n + length (chan e') = length (chan e) \<and> drain_loop e' = drain_loop e)"
  using assms
proof (induction rule: exporter_run.induct)
  case (run_goroutine n m e e' e'')
  then have ih: "draining e'" "accepted_spans e' = accepted_spans e"
    "\<not> returned e' \<Longrightarrow> n + length (chan e') = length (chan e) \<and> drain_loop e' = drain_loop e"
    by (simp_all split: if_splits)
  from drain_step_cases [OF run_goroutine.hyps(2) ih(1)] ih show ?case
    by (auto simp: drain_loop.simps [of e'])
qed simp_all

lemma returned_step: "exporter_step e e' \<Longrightarrow> returned e \<Longrightarrow> returned e' \<and> flushed e' = flushed e"
  by (erule exporter_stepE)
     (auto simp: Export_def Exporter_Shutdown_def elim: goroutine_stepE split: if_splits)

lemma returned_run:
  "exporter_step\<^sup>*\<^sup>* e e' \<Longrightarrow> returned e \<Longrightarrow> returned e' \<and> flushed e' = flushed e"
  by (induction rule: rtranclp_induct) (auto dest: returned_step)

lemma exporter_reachable: "exporter_step\<^sup>*\<^sup>* NewOTLPExporter e \<Longrightarrow> exporter_inv e"
  using exporter_machine.run_keeps exporter_inv_new by blast

definition sample_span :: span_data where
  "sample_span =
     \<lparr>sp_TraceID = [], sp_SpanID = [], sp_ParentSpanID = [], sp_Name = ''GET /x'', sp_ServiceName = [],
      sp_Kind = SpanKindServer, sp_StartTime = 0, sp_EndTime = 1, sp_StatusCode = 200,
      sp_Attributes = Map.empty\<rparr>"

definition sample_draining :: otlp_exporter where
  "sample_draining = (Export NewOTLPExporter sample_span)\<lparr>done_closed := True, draining := True\<rparr>"

lemma sample_draining_run: "exporter_step\<^sup>*\<^sup>* NewOTLPExporter sample_draining"
proof -
  let ?e = "Export NewOTLPExporter sample_span"
  have "exporter_step NewOTLPExporter ?e" by (rule do_export)
  moreover have "exporter_step ?e (?e\<lparr>done_closed := True\<rparr>)"
    by (rule do_shutdown) (simp add: Exporter_Shutdown_def Export_def NewOTLPExporter_def)
  moreover have "exporter_step (?e\<lparr>done_closed := True\<rparr>) sample_draining"
    unfolding sample_draining_def
    using goroutine_moves(3) [of "?e\<lparr>done_closed := True\<rparr>"] by (simp add: Export_def NewOTLPExporter_def)
  ultimately show ?thesis by (meson rtranclp.rtrancl_into_rtrancl rtranclp.rtrancl_refl)
qed

subsection \<open>What reaches the service behind the proxy\<close>

lemma trace_keys_set:
  fixes c :: gin_context
  assumes "ctx_Keys c = Map.empty" and "TraceMiddleware Extract Inject c tb sb = (calls, tc)"
  shows "apply_keys (ctx_Keys c) calls ''trace_id'' = Some (VString (TraceID tc))"
    and "apply_keys (ctx_Keys c) calls ''span_id'' = Some (VString (SpanID tc))"
    and "apply_keys (ctx_Keys c) calls ''trace_flags'' = Some (VString (Flags tc))"
    and "apply_keys (ctx_Keys c) calls ''trace_state'' =
      (if State tc = [] then None else Some (VString (State tc)))"
  using assms by (auto simp: TraceMiddleware_def Inject_def Let_def)

lemma TraceMiddleware_context:
  assumes "TraceMiddleware Extract Inject c tb sb = (calls, tc)"
    and "length tb = 16" "hex_encode tb \<noteq> zeroTraceID" "length sb = 8" "hex_encode sb \<noteq> zeroSpanID"
  shows "valid_ids tc \<and> SpanID tc = hex_encode sb \<and> ParentID tc = SpanID (Extract c) \<and>
    TraceID tc = (if TraceID (Extract c) = [] then hex_encode tb else TraceID (Extract c)) \<and>
    State tc = GetHeader c ''Tracestate''"
proof -
  have state: "State (Extract c) = GetHeader c ''Tracestate''"
    by (auto simp: Extract_def Let_def split: option.splits)
  have flags: "list_all lower_hex ''01''" by code_simp
  note ids = assms(2-5) lower_hex_encode [of tb] lower_hex_encode [of sb]
  show ?thesis
  proof (cases "TraceID (Extract c) = []")
    case True
    then have none: "SpanID (Extract c) = []" "Flags (Extract c) = []" using w3c.extract_no_ids by simp_all
    from assms(1) True none have "tc = (Extract c)\<lparr>TraceID := hex_encode tb, ParentID := [],
        SpanID := hex_encode sb, Flags := ''01''\<rparr>"
      by (simp add: TraceMiddleware_def Let_def generateTraceID_def generateSpanID_def)
    with True none ids flags state show ?thesis by (simp add: valid_ids_def)
  next
    case False
    then have valid: "valid_ids (Extract c)" by (rule w3c.extract_valid)
    then have "Flags (Extract c) \<noteq> []" by (auto simp: valid_ids_def)
    with assms(1) False have "tc = (Extract c)\<lparr>ParentID := SpanID (Extract c), SpanID := hex_encode sb\<rparr>"
      by (simp add: TraceMiddleware_def Let_def generateSpanID_def)
    with False valid ids state show ?thesis by (simp add: valid_ids_def)
  qed
qed

lemma Director_trace:
  assumes "GetString c ''trace_id'' = tid" "tid \<noteq> []" "GetString c ''span_id'' = sid"
    and "GetString c ''trace_flags'' = flags" "flags \<noteq> []"
  shows "header_get (out_Header (Director c svc inst req)) ''Traceparent'' =
      ''00-'' @ tid @ ''-'' @ sid @ ''-'' @ flags"
    and "header_get (out_Header (Director c svc inst req)) ''Tracestate'' =
      (if GetString c ''trace_state'' \<noteq> [] then GetString c ''trace_state''
       else header_get (out_Header req) ''Tracestate'')"
proof -
  have hop: "''Tracestate'' \<notin> set hopByHopHeaders" by (simp add: hopByHopHeaders_def)
  show "header_get (out_Header (Director c svc inst req)) ''Traceparent'' =
      ''00-'' @ tid @ ''-'' @ sid @ ''-'' @ flags"
    using assms by (simp add: Director_def Let_def set_if_def header_get_def header_set_def canonical_fixed
        get_slice_def traceparent_of_def)
  show "header_get (out_Header (Director c svc inst req)) ''Tracestate'' =
      (if GetString c ''trace_state'' \<noteq> [] then GetString c ''trace_state''
       else header_get (out_Header req) ''Tracestate'')"
    using hop by (simp add: Director_def Let_def set_if_def header_get_def header_set_def canonical_fixed
        get_slice_def delete_headers_get hop_keys)
qed

subsection \<open>Properties\<close>

text \<open>
  C21. The trace of a request survives the gateway.  A valid incoming trace id is kept and its
  span becomes the parent, otherwise a new trace starts; the identifiers are always valid; and
  the service behind the proxy, reading its headers as the gateway reads its own, extracts
  the gateway's context: trace id, the gateway's span, flags and state.
\<close>

theorem trace_reaches_service:
  assumes fresh: "ctx_Keys c = Map.empty"
    and mw: "TraceMiddleware Extract Inject c tb sb = (calls, tc)"
    and random: "length tb = 16" "hex_encode tb \<noteq> zeroTraceID" "length sb = 8" "hex_encode sb \<noteq> zeroSpanID"
    and keys: "c2 = c\<lparr>ctx_Keys := apply_keys (ctx_Keys c) calls\<rparr>"
    and sent: "rq_Header c3 = out_Header (Director c2 svc inst (clone_request c2 (rq_Header c2)))"
  shows "valid_ids tc \<and> ParentID tc = SpanID (Extract c) \<and> SpanID tc = hex_encode sb \<and>
    TraceID tc = (if TraceID (Extract c) = [] then hex_encode tb else TraceID (Extract c)) \<and>
    Extract c3 = tc\<lparr>ParentID := []\<rparr>"
proof -
  note ctx = TraceMiddleware_context [OF mw random]
  then have valid: "valid_ids tc" and state: "State tc = GetHeader c ''Tracestate''" by simp_all
  note set = trace_keys_set [OF fresh mw]
  have strs: "GetString c2 ''trace_id'' = TraceID tc" "GetString c2 ''span_id'' = SpanID tc"
    "GetString c2 ''trace_flags'' = Flags tc" "GetString c2 ''trace_state'' = State tc"
    by (simp_all add: keys GetString_def set)
  have "TraceID tc \<noteq> []" "Flags tc \<noteq> []" using valid by (auto simp: valid_ids_def)
  note head = Director_trace [OF strs(1) this(1) strs(2,3) this(2)]
  have tp: "GetHeader c3 ''Traceparent'' = ''00-'' @ TraceID tc @ ''-'' @ SpanID tc @ ''-'' @ Flags tc"
    unfolding GetHeader_def sent by (rule head(1))
  have "header_get (rq_Header c2) ''Tracestate'' = State tc"
    using state by (simp add: keys GetHeader_def)
  then have ts: "GetHeader c3 ''Tracestate'' = State tc"
    unfolding GetHeader_def sent head(2) strs(4) by (simp add: clone_request_def)
  have "traceparent_groups (''00-'' @ TraceID tc @ ''-'' @ SpanID tc @ ''-'' @ Flags tc) =
      Some (TraceID tc, SpanID tc, Flags tc)"
    using valid by (intro traceparent_groups_build) (simp_all add: valid_ids_def)
  with valid have "Extract c3 = tc\<lparr>ParentID := []\<rparr>"
    unfolding Extract_def tp ts by (simp add: Let_def valid_ids_def)
  with ctx show ?thesis by blast
qed

theorem trace_reaches_service_witness:
  "\<exists>tc. TraceID tc = hex_encode (replicate 16 1) \<and> SpanID tc = hex_encode (replicate 8 2) \<and>
     Extract (sample_context\<lparr>rq_Header := out_Header (Director
       (sample_context\<lparr>ctx_Keys := apply_keys Map.empty
          (fst (TraceMiddleware Extract Inject sample_context (replicate 16 1) (replicate 8 2)))\<rparr>)
       ''svc-a'' sample_instance (clone_request sample_context Map.empty))\<rparr>) = tc"
proof -
  let ?tb = "replicate 16 1 :: 8 word list" and ?sb = "replicate 8 2 :: 8 word list"
  obtain calls tc where mw: "TraceMiddleware Extract Inject sample_context ?tb ?sb = (calls, tc)"
    by fastforce
  have random: "length ?tb = 16" "hex_encode ?tb \<noteq> zeroTraceID" "length ?sb = 8" "hex_encode ?sb \<noteq> zeroSpanID"
    by code_simp+
  have fresh: "ctx_Keys sample_context = Map.empty" "rq_Header sample_context = Map.empty"
    by (simp_all add: sample_context_def)
  have "TraceID (Extract sample_context) = []"
    by (simp add: Extract_def GetHeader_def header_get_def fresh Let_def)
  with trace_reaches_service [OF fresh(1) mw random refl, of
      "sample_context\<lparr>rq_Header := out_Header (Director
       (sample_context\<lparr>ctx_Keys := apply_keys (ctx_Keys sample_context) calls\<rparr>)
       ''svc-a'' sample_instance (clone_request
         (sample_context\<lparr>ctx_Keys := apply_keys (ctx_Keys sample_context) calls\<rparr>)
         (rq_Header (sample_context\<lparr>ctx_Keys := apply_keys (ctx_Keys sample_context) calls\<rparr>))))\<rparr>"
      "''svc-a''" sample_instance]
  show ?thesis
    by (intro exI [of _ "tc\<lparr>ParentID := []\<rparr>"]) (simp add: mw fresh clone_request_def)
qed

text \<open>
  C17. The exporter neither loses, repeats nor reorders a span it accepted: what was flushed,
  the current batch and the channel are together the accepted spans in order.  The channel
  never holds more than 1024 spans, and every batch that is sent has between 1 and 64.
\<close>

theorem exporter_lossless:
  assumes "exporter_step\<^sup>*\<^sup>* NewOTLPExporter e"
  shows "concat (flushed e) @ batch e @ chan e = accepted_spans e \<and> length (chan e) \<le> 1024 \<and>
    length (batch e) < 64 \<and> (\<forall>b \<in> set (flushed e). 1 \<le> length b \<and> length b \<le> 64)"
  using exporter_reachable [OF assms]
  by (auto simp: exporter_inv_def defaultBufferSize_def defaultBatchSize_def Suc_le_eq)

theorem exporter_lossless_witness:
  "concat (flushed sample_draining) @ batch sample_draining @ chan sample_draining = [sample_span]"
  using exporter_lossless [OF sample_draining_run]
  by (simp add: sample_draining_def Export_def NewOTLPExporter_def defaultBufferSize_def)

text \<open>
  C18. A shutdown ends.  Take any run from the moment the goroutine drains: requests may go on
  exporting, at any point and in any number.  The goroutine never spins and never blocks: as long as
  it has not returned it can take a step, and with \<open>m\<close> exports in between it takes at most one step per
  span that was in the channel or was exported meanwhile, and one to return.  When it has
  returned, all that was accepted before the draining began has been flushed, and so has all that was
  accepted since, except what came after the return: that stays in the channel, for nothing is flushed
  any more.  If nobody exports meanwhile it returns in exactly one step per span of the channel and one
  more, and then every accepted span has been flushed.
\<close>

theorem shutdown_flushes_everything:
  assumes "exporter_step\<^sup>*\<^sup>* NewOTLPExporter e" and "draining e" and "\<not> returned e"
    and "exporter_run n m e e'"
  shows "n \<le> Suc (length (chan e) + m) \<and>
    (\<not> returned e' \<longrightarrow> (\<exists>e''. goroutine_step e' e'') \<and> n + length (chan e') \<le> length (chan e) + m) \<and>
    (returned e' \<longrightarrow>
       prefix (accepted_spans e) (concat (flushed e')) \<and>
       accepted_spans e' = concat (flushed e') @ chan e' \<and>
       (\<forall>e''. exporter_step\<^sup>*\<^sup>* e' e'' \<longrightarrow> flushed e'' = flushed e')) \<and>
    (m = 0 \<longrightarrow> (returned e' \<longleftrightarrow> n = Suc (length (chan e))) \<and>
       (returned e' \<longrightarrow> e' = drain_loop e \<and> concat (flushed e') = accepted_spans e))"
proof -
  note run = exporter_run_draining [OF assms(4,2,3) exporter_reachable [OF assms(1)]]
  have "exporter_step\<^sup>*\<^sup>* NewOTLPExporter e'"
    using assms(1) exporter_run_steps [OF assms(4)] by (rule rtranclp_trans)
  note inv = exporter_reachable [OF this, unfolded exporter_inv_def]
  have "accepted_spans e' = concat (flushed e') @ chan e'" if "returned e'"
  proof -
    have "batch e' = []" using inv that by blast
    with conjunct1 [OF inv] show ?thesis by simp
  qed
  moreover have "\<exists>e''. goroutine_step e' e''" if "\<not> returned e'"
    using drain_progress run(1) that by blast
  moreover have "(returned e' \<longleftrightarrow> n = Suc (length (chan e))) \<and>
      (returned e' \<longrightarrow> e' = drain_loop e \<and> concat (flushed e') = accepted_spans e)" if "m = 0"
    using exporter_run_quiet [OF assms(4,2,3) that] calculation(1) by (auto split: if_splits)
  moreover have "\<forall>e''. exporter_step\<^sup>*\<^sup>* e' e'' \<longrightarrow> flushed e'' = flushed e'" if "returned e'"
    using returned_run that by blast
  ultimately show ?thesis using run(2-4) by (intro conjI impI) blast+
qed

text \<open>One span in the channel and one exported while draining: three steps.\<close>

theorem shutdown_flushes_everything_witness:
  "\<exists>e'. exporter_run 3 1 sample_draining e' \<and> returned e' \<and> concat (flushed e') = [sample_span, sample_span]"
proof -
  let ?e1 = "Export sample_draining sample_span"
  let ?e3 = "receive (receive ?e1)"
  note sel = sample_draining_def Export_def NewOTLPExporter_def defaultBufferSize_def defaultBatchSize_def
    receive_def Let_def
  have start: "draining sample_draining" "\<not> returned sample_draining" by (simp_all add: sel)
  have one: "goroutine_step ?e1 (receive ?e1)" by (rule do_receive) (simp_all add: sel)
  have two: "goroutine_step (receive ?e1) ?e3" by (rule do_receive) (simp_all add: sel)
  have three: "goroutine_step ?e3 (drained ?e3)" by (rule do_return) (simp_all add: sel)
  have run: "exporter_run 3 1 sample_draining (drained ?e3)"
    using run_goroutine [OF run_goroutine [OF run_goroutine [OF run_export [OF run_none] one] two] three]
    by (simp add: numeral_3_eq_3)
  have ret: "returned (drained ?e3)" "chan (drained ?e3) = []" "accepted_spans (drained ?e3) = [sample_span, sample_span]"
    by (simp_all add: drained_def flush_def sel)
  moreover have "accepted_spans (drained ?e3) = concat (flushed (drained ?e3)) @ chan (drained ?e3)"
    using shutdown_flushes_everything [OF sample_draining_run start run] ret(1) by blast
  ultimately have "concat (flushed (drained ?e3)) = [sample_span, sample_span]" by (metis append_Nil2)
  with run ret(1) show ?thesis by blast
qed

end
