(* ===== verification/Otlp.thy ===== *)
theory Otlp
  imports Tracing
begin

text \<open>
  What becomes of a batch: \<^verbatim>\<open>flush\<close> of \<^verbatim>\<open>tracing/otlp.go\<close> marshals it and posts it to the collector.
  The protocol buffer library and \<^verbatim>\<open>net/http\<close> are arguments.  Every failure is only logged: a
  batch is posted at most once and never kept.
\<close>

subsection \<open>Posting a batch\<close>

record http_post =
  po_url :: string
  po_content_type :: string
  po_body :: "8 word list"

text \<open>
  \<open>proto_Marshal\<close> is \<^verbatim>\<open>proto.Marshal\<close>, \<open>bad_request\<close> the error of \<^verbatim>\<open>http.NewRequest\<close> for a URL, \<open>Do\<close> the
  answer of \<^verbatim>\<open>client.Do\<close>: an error or a status.
\<close>

record collector =
  proto_Marshal :: "traces_data \<Rightarrow> string + 8 word list"
  bad_request :: "string \<Rightarrow> string option"
  Do :: "http_post \<Rightarrow> string + int"

datatype flush_result =
    MarshalFailed string
  | RequestFailed string
  | SendFailed string nat
  | UnexpectedStatus int nat
  | Delivered

definition flush_batch ::
    "collector \<Rightarrow> string \<Rightarrow> string \<Rightarrow> (span_data \<Rightarrow> string list) \<Rightarrow> span_data list \<Rightarrow>
     http_post option \<times> flush_result" where
  "flush_batch col endpoint serviceName order b =
     (case proto_Marshal col (buildProto serviceName order b) of
        Inl err \<Rightarrow> (None, MarshalFailed err)
      | Inr body \<Rightarrow>
          (let url = endpoint @ ''/v1/traces'' in
           case bad_request col url of
             Some err \<Rightarrow> (None, RequestFailed err)
           | None \<Rightarrow>
               (let req = \<lparr>po_url = url, po_content_type = ''application/x-protobuf'', po_body = body\<rparr> in
                case Do col req of
                  Inl err \<Rightarrow> (Some req, SendFailed err (length b))
                | Inr status \<Rightarrow>
                    (Some req, if status \<ge> 300 then UnexpectedStatus status (length b) else Delivered))))"

lemma flush_batch_post:
  assumes "flush_batch col endpoint serviceName order b = (Some req, res)"
  shows "po_url req = endpoint @ ''/v1/traces''" "po_content_type req = ''application/x-protobuf''"
    "proto_Marshal col (buildProto serviceName order b) = Inr (po_body req)"
  using assms by (auto simp: flush_batch_def Let_def split: sum.splits option.splits)

subsection \<open>Well-formed spans\<close>

text \<open>
  The spans the middleware exports: the identifiers are lower-case hexadecimal of the lengths the
  protocol asks for, a server span, with the five attributes.
\<close>

definition hex_id :: "nat \<Rightarrow> string \<Rightarrow> bool" where
  "hex_id n s \<longleftrightarrow> length s = 2 * n \<and> list_all lower_hex s"

definition span_attributes :: "string set" where
  "span_attributes = {''http.method'', ''http.url'', ''http.status_code'', ''http.route'', ''net.peer.ip''}"

definition span_ok :: "span_data \<Rightarrow> bool" where
  "span_ok sp \<longleftrightarrow>
     hex_id 16 (sp_TraceID sp) \<and> hex_id 8 (sp_SpanID sp) \<and>
     (sp_ParentSpanID sp = [] \<or> hex_id 8 (sp_ParentSpanID sp)) \<and>
     sp_Kind sp = SpanKindServer \<and> dom (sp_Attributes sp) = span_attributes"

definition proto_ok :: "proto_span \<Rightarrow> bool" where
  "proto_ok ps \<longleftrightarrow>
     length (ps_TraceId ps) = 16 \<and> length (ps_SpanId ps) = 8 \<and> length (ps_ParentSpanId ps) \<in> {0, 8} \<and>
     ps_Kind ps = SPAN_KIND_SERVER \<and> length (ps_Attributes ps) = 5 \<and>
     set (map fst (ps_Attributes ps)) = span_attributes"

lemma lower_hex_value: "lower_hex c \<Longrightarrow> \<exists>n. hex_value c = Some n"
  by (auto simp: lower_hex_def hex_value_def Let_def)

lemma length_hex_decode: "list_all lower_hex s \<Longrightarrow> length (hex_decode s) = length s div 2"
proof (induction s rule: hex_decode.induct)
  case (1 a b rest)
  then have "lower_hex a" "lower_hex b" by simp_all
  then obtain x y where "hex_value a = Some x" "hex_value b = Some y" using lower_hex_value by blast
  with 1 show ?case by simp
qed simp_all

lemma hex_id_decode: "hex_id n s \<Longrightarrow> length (hex_decode s) = n"
  by (simp add: hex_id_def length_hex_decode)

lemma toProtoAttributes_keys: "set ks \<subseteq> dom m \<Longrightarrow> map fst (toProtoAttributes m ks) = ks"
  by (induction ks) auto

lemma range_order_card: "range_order ks m \<Longrightarrow> length ks = card (dom m)"
  by (auto simp: range_order_def distinct_card [symmetric])

lemma spanDataToProto_ok:
  assumes "span_ok sp" and "range_order ks (sp_Attributes sp)"
  shows "proto_ok (spanDataToProto ks sp)"
proof -
  have keys: "map fst (toProtoAttributes (sp_Attributes sp) ks) = ks" "set ks = span_attributes"
    using assms by (auto intro!: toProtoAttributes_keys simp: range_order_def span_ok_def)
  moreover have "length ks = 5"
    using assms range_order_card [OF assms(2)] by (simp add: span_ok_def span_attributes_def)
  ultimately have "length (toProtoAttributes (sp_Attributes sp) ks) = 5"
    "set (map fst (toProtoAttributes (sp_Attributes sp) ks)) = span_attributes"
    using length_map [of fst "toProtoAttributes (sp_Attributes sp) ks"] by simp_all
  with assms(1) show ?thesis
    by (auto simp: proto_ok_def spanDataToProto_def span_ok_def hex_id_decode)
qed

text \<open>The middleware makes only such spans, whatever headers arrive.\<close>

lemma TraceMiddleware_ids:
  assumes "TraceMiddleware Extract Inject c tb sb = (calls, tc)" and "length tb = 16" and "length sb = 8"
  shows "hex_id 16 (TraceID tc) \<and> hex_id 8 (SpanID tc) \<and> (ParentID tc = [] \<or> hex_id 8 (ParentID tc))"
  using Extract_ids [of c] assms
  by (auto simp: TraceMiddleware_def Let_def hex_id_def valid_ids_def generateTraceID_def generateSpanID_def
      lower_hex_encode)

lemma request_span_ok:
  assumes "TraceMiddleware Extract Inject c tb sb = (calls, tc)" and "length tb = 16" and "length sb = 8"
  shows "span_ok (request_span tc c url start finish status)"
  using TraceMiddleware_ids [OF assms] by (auto simp: span_ok_def request_span_def span_attributes_def)

end
