(* ===== verification/Logging.thy ===== *)
theory Logging
  imports Http
begin

text \<open>
  Logging: the levels and the handler \<^verbatim>\<open>setupLogger\<close> of \<^verbatim>\<open>main.go\<close> installs, and the lines that
  \<^verbatim>\<open>middleware/logger.go\<close> and \<^verbatim>\<open>middleware/recovery.go\<close> write.  \<^verbatim>\<open>log/slog\<close> itself, the text of a
  duration and the stack trace are arguments.
\<close>

subsection \<open>Log levels\<close>

datatype log_level = LevelDebug | LevelInfo | LevelWarn | LevelError

fun severity :: "log_level \<Rightarrow> int" where
  "severity LevelDebug = - 4"
| "severity LevelInfo = 0"
| "severity LevelWarn = 4"
| "severity LevelError = 8"

lemma severity_inj: "severity a = severity b \<Longrightarrow> a = b"
  by (cases a; cases b) simp_all

instantiation log_level :: linorder
begin

definition less_eq_log_level :: "log_level \<Rightarrow> log_level \<Rightarrow> bool" where
  "less_eq_log_level a b \<longleftrightarrow> severity a \<le> severity b"

definition less_log_level :: "log_level \<Rightarrow> log_level \<Rightarrow> bool" where
  "less_log_level a b \<longleftrightarrow> severity a < severity b"

instance
  by standard (auto simp: less_eq_log_level_def less_log_level_def intro: severity_inj)

end

definition parseLogLevel :: "string \<Rightarrow> log_level" where
  "parseLogLevel level =
     (if level = ''debug'' then LevelDebug
      else if level = ''info'' then LevelInfo
      else if level = ''warn'' then LevelWarn
      else if level = ''error'' then LevelError
      else LevelInfo)"

subsection \<open>Lines\<close>

text \<open>
  The values of attributes: \<open>LAny\<close> is what \<^verbatim>\<open>c.Get\<close> returns, \<^verbatim>\<open>nil\<close> for a missing key.
\<close>

datatype log_value = LString string | LInt int | LDuration duration | LAny "ctx_value option"

record log_line =
  at_level :: log_level
  log_message :: string
  log_attrs :: "(string \<times> log_value) list"

text \<open>
  The logger writes one line per request, except for the two health paths, at a level that
  depends on the status.  \<open>c\<close> is the context before \<^verbatim>\<open>c.Next()\<close> and \<open>c'\<close> the one after it;
  \<open>errors\<close> is the text of \<^verbatim>\<open>c.Errors\<close> when there are any.
\<close>

definition Logger ::
    "gin_context \<Rightarrow> gin_context \<Rightarrow> int \<Rightarrow> string \<Rightarrow> string option \<Rightarrow> log_line option" where
  "Logger c c' status elapsed errors =
     (if rq_Path c = ''/health'' \<or> rq_Path c = ''/ready'' then None
      else
        Some \<lparr>at_level = (if status \<ge> 500 then LevelError else if status \<ge> 400 then LevelWarn else LevelInfo),
          log_message = ''request completed'',
          log_attrs =
            [(''method'', LString (rq_Method c)), (''path'', LString (rq_Path c)), (''status'', LInt status),
             (''duration'', LString elapsed), (''request_id'', LAny (ctx_Keys c' ''request_id'')),
             (''trace_id'', LAny (ctx_Keys c' ''trace_id'')), (''span_id'', LAny (ctx_Keys c' ''span_id'')),
             (''client_ip'', LString (ctx_ClientIP c'))] @
            (if rq_RawQuery c \<noteq> [] then [(''query'', LString (rq_RawQuery c))] else []) @
            (case errors of None \<Rightarrow> [] | Some text \<Rightarrow> [(''errors'', LString text)])\<rparr>)"

text \<open>The line of the recovery: the panic value and the stack are texts.\<close>

definition recovery_line :: "gin_context \<Rightarrow> string \<Rightarrow> string \<Rightarrow> log_line" where
  "recovery_line c err stack =
     \<lparr>at_level = LevelError, log_message = ''panic recovered'',
      log_attrs =
        [(''error'', LString err), (''request_id'', LAny (ctx_Keys c ''request_id'')),
         (''trace_id'', LAny (ctx_Keys c ''trace_id'')), (''path'', LString (rq_Path c)),
         (''method'', LString (rq_Method c)), (''stack'', LString stack)]\<rparr>"

subsection \<open>The handler\<close>

datatype log_format = JSONHandler | TextHandler

record slog_handler =
  log_format :: log_format
  Level :: log_level

definition setupLogger :: "string \<Rightarrow> string \<Rightarrow> slog_handler" where
  "setupLogger Env LogLevel =
     \<lparr>log_format = (if Env = ''production'' then JSONHandler else TextHandler),
      Level = parseLogLevel LogLevel\<rparr>"

fun ReplaceAttr :: "(duration \<Rightarrow> string) \<Rightarrow> string \<times> log_value \<Rightarrow> string \<times> log_value" where
  "ReplaceAttr duration_text (k, LDuration d) = (k, LString (duration_text d))"
| "ReplaceAttr duration_text (k, v) = (k, v)"

definition written :: "slog_handler \<Rightarrow> (duration \<Rightarrow> string) \<Rightarrow> log_line \<Rightarrow> log_line option" where
  "written h duration_text line =
     (if Level h \<le> at_level line
      then Some (line\<lparr>log_attrs := map (ReplaceAttr duration_text) (log_attrs line)\<rparr>) else None)"

text \<open>No configuration hides the line of a failed request or of a panic.\<close>

lemma errors_always_written:
  assumes "at_level line = LevelError"
  shows "\<exists>line'. written (setupLogger env lvl) dt line = Some line'"
  using assms by (simp add: written_def setupLogger_def less_eq_log_level_def parseLogLevel_def)

lemma Logger_server_error:
  "500 \<le> status \<Longrightarrow> Logger c c' status elapsed errors = Some line \<Longrightarrow> at_level line = LevelError"
  by (auto simp: Logger_def split: if_splits)

text \<open>The logger passes the elapsed time as a text, so its line is written as it is.\<close>

lemma Logger_written:
  "Logger c c' status elapsed errors = Some line \<Longrightarrow> Level h \<le> at_level line \<Longrightarrow>
     written h duration_text line = Some line"
  by (auto simp: Logger_def written_def split: if_splits option.splits)

end
