(* ===== verification/Server.thy ===== *)
theory Server
  imports Handlers Otlp Logging
begin

text \<open>
  The server of \<^verbatim>\<open>internal/infrastructure/http/server.go\<close>: what \<^verbatim>\<open>NewServer\<close> builds from a
  configuration, the chain every request goes through, and \<^verbatim>\<open>Run\<close> and \<^verbatim>\<open>Shutdown\<close>.  With it the
  configuration (\<^verbatim>\<open>config.go\<close>) and the Redis connection.  \<^verbatim>\<open>envconfig\<close>, \<^verbatim>\<open>go-redis\<close> and gin are not modelled:
  what they answer is an argument.
\<close>

subsection \<open>Configuration\<close>

record server_config =
  cfg_Port :: int
  cfg_Env :: string
  cfg_LogLevel :: string
  cfg_CORS :: cors_config
  cfg_HeartbeatTTL :: duration
  cfg_HealthCheckInterval :: duration
  cfg_JWT :: jwt_config
  cfg_TraceExporter :: string
  cfg_TraceOTLPEndpoint :: string
  cfg_TraceServiceName :: string
  cfg_RedisURL :: string
  cfg_RateLimitEnabled :: bool
  cfg_Rate :: rate_config
  cfg_Version :: string

text \<open>The defaults of the struct tags: what \<^verbatim>\<open>Load\<close> gives in an empty environment.\<close>

definition default_config :: "string \<Rightarrow> server_config" where
  "default_config version =
     \<lparr>cfg_Port = 8080, cfg_Env = ''development'', cfg_LogLevel = ''debug'',
      cfg_CORS = \<lparr>AllowedOrigins = [''*''],
        AllowedMethods = [''GET'', ''POST'', ''PUT'', ''DELETE'', ''OPTIONS''],
        AllowedHeaders = [''Origin'', ''Content-Type'', ''Accept'', ''Authorization'', ''X-Request-ID'']\<rparr>,
      cfg_HeartbeatTTL = 30 * second, cfg_HealthCheckInterval = 10 * second,
      cfg_JWT = \<lparr>JWTPublicKey = [], JWTPrivateKey = [], JWTIssuer = ''api-api'',
        JWTInternalTTL = 5 * minute, JWTAllowedIssuers = [''auth-service'']\<rparr>,
      cfg_TraceExporter = ''noop'', cfg_TraceOTLPEndpoint = [], cfg_TraceServiceName = ''gotway'',
      cfg_RedisURL = [], cfg_RateLimitEnabled = False,
      cfg_Rate = \<lparr>RateLimitGlobalRPM = 10000, RateLimitUserRPM = 100, RateLimitIPRPM = 60\<rparr>,
      cfg_Version = version\<rparr>"

definition Load :: "(server_config \<Rightarrow> string + server_config) \<Rightarrow> string \<Rightarrow> string + server_config" where
  "Load process version =
     (case process (default_config []) of
        Inl err \<Rightarrow> Inl err
      | Inr cfg \<Rightarrow> Inr (cfg\<lparr>cfg_Version := version\<rparr>))"

subsection \<open>The parts the server chooses\<close>

datatype span_exporter = NoopExporter | OTLPExporter string string otlp_exporter

definition NewExporter :: "server_config \<Rightarrow> span_exporter" where
  "NewExporter cfg =
     (if cfg_TraceExporter cfg = ''otlp'' then
        (if cfg_TraceOTLPEndpoint cfg = [] then NoopExporter
         else OTLPExporter (cfg_TraceOTLPEndpoint cfg) (cfg_TraceServiceName cfg) NewOTLPExporter)
      else NoopExporter)"

fun export_span :: "span_exporter \<Rightarrow> span_data \<Rightarrow> span_exporter" where
  "export_span NoopExporter sp = NoopExporter"
| "export_span (OTLPExporter ep name e) sp = OTLPExporter ep name (Export e sp)"

text \<open>\<open>parse_url\<close> and \<open>ping\<close> are \<^verbatim>\<open>redis.ParseURL\<close> and the ping; the database comes with the client.\<close>

record 'db redis_driver =
  parse_url :: "string \<Rightarrow> string + 'db redis_client \<times> 'db"
  ping :: "'db redis_client \<Rightarrow> string option"

definition redis_NewClient :: "'db redis_driver \<Rightarrow> string \<Rightarrow> string + 'db redis_client \<times> 'db" where
  "redis_NewClient drv url =
     (if url = [] then Inl ''redis URL is required''
      else
        (case parse_url drv url of
           Inl err \<Rightarrow> Inl (''failed to parse redis URL: '' @ err)
         | Inr (c, db) \<Rightarrow>
             (case ping drv c of
                Some err \<Rightarrow> Inl (''failed to connect to redis: '' @ err)
              | None \<Rightarrow> Inr (c, db))))"

datatype 'db any_limiter = InMemory in_memory_limiter | OverRedis "'db limiter" 'db

fun any_allow ::
    "'db any_limiter \<Rightarrow> string \<Rightarrow> int \<Rightarrow> gotime \<Rightarrow> 'db any_limiter \<times> (string + limit_result)" where
  "any_allow (InMemory l) key limit now =
     (let (l', res) = in_memory_allow l key limit now in (InMemory l', res))"
| "any_allow (OverRedis l db) key limit now =
     (let (db', res) = Limiter_Allow l db key limit now in (OverRedis l db', res))"

fun any_ready :: "'db any_limiter \<Rightarrow> bool" where
  "any_ready (InMemory l) = (0 < window l)"
| "any_ready (OverRedis l db) = (0 < lwindow l \<and> counts_members l)"

interpretation chosen: rate_limiter any_allow any_ready
proof
  fix s :: "'a any_limiter" and key limit now res
  assume ready: "any_ready s"
  show "any_ready (fst (any_allow s key limit now))"
    using ready memory.allow_ready by (cases s) (auto simp: case_prod_beta)
  show "consistent_result limit now res" if "snd (any_allow s key limit now) = Inr res"
    using ready that memory.allow_consistent redis.allow_consistent
    by (cases s) (fastforce simp: case_prod_beta)+
qed

subsection \<open>The server\<close>

text \<open>
  \<open>sv_auth\<close> is the authentication middleware, which holds nothing but the token service;
  \<open>http_server\<close> says whether \<^verbatim>\<open>Run\<close> has created the \<^verbatim>\<open>http.Server\<close>.
\<close>

record ('pub, 'priv, 'db) server =
  sv_config :: server_config
  startTime :: gotime
  sv_registry :: registry
  sv_jwt :: "('pub, 'priv) jwt_service option"
  sv_auth :: "('pub, 'priv) jwt_service option"
  redis_open :: bool
  sv_limiter :: "'db any_limiter option"
  sv_exporter :: span_exporter
  sv_balancer :: round_robin
  http_server :: bool

definition new_limiter ::
    "'db redis_driver \<Rightarrow> server_config \<Rightarrow> string + bool \<times> 'db any_limiter option" where
  "new_limiter drv cfg =
     (if cfg_RateLimitEnabled cfg then
        (if cfg_RedisURL cfg \<noteq> [] then
           (case redis_NewClient drv (cfg_RedisURL cfg) of
              Inl err \<Rightarrow> Inl (''failed to create redis client: '' @ err)
            | Inr (c, db) \<Rightarrow> Inr (True, Some (OverRedis (NewLimiter c) db)))
         else Inr (False, Some (InMemory NewInMemoryLimiter)))
      else Inr (False, None))"

definition NewServer ::
    "('pub, 'priv) jwt_lib \<Rightarrow> ('pub, 'priv) key_lib \<Rightarrow> 'db redis_driver \<Rightarrow> server_config \<Rightarrow> gotime \<Rightarrow>
     string + ('pub, 'priv, 'db) server" where
  "NewServer lib keys drv cfg now =
     (let reg = NewRegistry \<lparr>HeartbeatTTL = cfg_HeartbeatTTL cfg, HealthCheckInterval = cfg_HealthCheckInterval cfg,
                AllowSameServiceOverwrite = False, StrictPatternMatching = False\<rparr>;
          jwt = (if JWTPublicKey (cfg_JWT cfg) \<noteq> [] \<or> JWTPrivateKey (cfg_JWT cfg) \<noteq> [] then
                   (case NewService lib keys (cfg_JWT cfg) of
                      Inl err \<Rightarrow> Inl (''failed to create JWT service: '' @ err)
                    | Inr svc \<Rightarrow> Inr (Some svc))
                 else Inr None)
      in case jwt of
           Inl err \<Rightarrow> Inl err
         | Inr service \<Rightarrow>
             (case new_limiter drv cfg of
                Inl err \<Rightarrow> Inl err
              | Inr (opened, limiter) \<Rightarrow>
                  Inr \<lparr>sv_config = cfg, startTime = now, sv_registry = reg, sv_jwt = service,
                       sv_auth = service, redis_open = opened, sv_limiter = limiter,
                       sv_exporter = NewExporter cfg, sv_balancer = NewRoundRobinBalancer,
                       http_server = False\<rparr>))"

text \<open>
  \<^verbatim>\<open>Run\<close> starts the cleanup goroutine of the registry and creates the HTTP server.  Its error is the one
  with which \<^verbatim>\<open>ListenAndServe\<close> returns: at once when the port cannot be bound, \<^verbatim>\<open>http.ErrServerClosed\<close>
  after a shutdown.
\<close>

definition Run ::
    "('pub, 'priv, 'db) server \<Rightarrow> string option \<Rightarrow> ('pub, 'priv, 'db) server \<times> string option" where
  "Run s listen_error = (s\<lparr>http_server := True\<rparr>, listen_error)"

text \<open>
  \<^verbatim>\<open>Shutdown\<close>: the registry, the exporter, the Redis connection, the HTTP server, in this order.
  \<open>redis_close\<close> and \<open>http_stop\<close> are the errors of closing the two; the error of the exporter (its
  goroutine did not end in time) is only logged.  A second call panics in \<^verbatim>\<open>registry.Stop\<close>, and
  a call before \<^verbatim>\<open>Run\<close> on the missing HTTP server.
\<close>

fun exporter_shutdown :: "span_exporter \<Rightarrow> span_exporter outcome" where
  "exporter_shutdown NoopExporter = Ret NoopExporter"
| "exporter_shutdown (OTLPExporter ep name e) =
     bind_outcome (Exporter_Shutdown e) (\<lambda>e'. Ret (OTLPExporter ep name e'))"

definition Server_Shutdown ::
    "('pub, 'priv, 'db) server \<Rightarrow> string option \<Rightarrow> string option \<Rightarrow>
     (('pub, 'priv, 'db) server \<times> string option) outcome" where
  "Server_Shutdown s redis_close http_stop =
     bind_outcome (Stop (sv_registry s)) (\<lambda>reg.
     bind_outcome (exporter_shutdown (sv_exporter s)) (\<lambda>ex.
       (let s1 = s\<lparr>sv_registry := reg, sv_exporter := ex\<rparr> in
        if redis_open s \<and> redis_close \<noteq> None then Ret (s1, redis_close)
        else if \<not> http_server s then Panic
        else Ret (s1, http_stop))))"

lemma NewServer_parts:
  assumes "NewServer lib keys drv cfg now = Inr s"
  shows "sv_config s = cfg" "sv_auth s = sv_jwt s" "\<not> http_server s" "startTime s = now"
    "sv_registry s = NewRegistry \<lparr>HeartbeatTTL = cfg_HeartbeatTTL cfg,
       HealthCheckInterval = cfg_HealthCheckInterval cfg,
       AllowSameServiceOverwrite = False, StrictPatternMatching = False\<rparr>"
    "sv_jwt s = None \<longleftrightarrow> JWTPublicKey (cfg_JWT cfg) = [] \<and> JWTPrivateKey (cfg_JWT cfg) = []"
    "sv_limiter s = None \<longleftrightarrow> \<not> cfg_RateLimitEnabled cfg"
    "sv_exporter s = NewExporter cfg"
  using assms
  by (auto simp: NewServer_def new_limiter_def Let_def split: sum.splits if_splits)

lemma NewServer_limiter_ready:
  assumes "NewServer lib keys drv cfg now = Inr s" and "sv_limiter s = Some l"
    and "\<And>url c db. parse_url drv url = Inr (c, db) \<Longrightarrow> counts_members (NewLimiter c)"
  shows "any_ready l"
  using assms
  by (auto simp: NewServer_def new_limiter_def redis_NewClient_def Let_def NewLimiter_def NewInMemoryLimiter_def
      minute_def second_def split: sum.splits if_splits option.splits)

end
