(* ===== verification/Gateway.thy ===== *)
theory Gateway
  imports Server
begin

text \<open>
  One request through the whole server, as \<^verbatim>\<open>setupRouter\<close>, \<^verbatim>\<open>setupRegistryRoutes\<close> and
  \<^verbatim>\<open>setupProxyRoute\<close> put it together: recovery, logger, trace, request id, CORS and rate limit in
  this order, then the endpoint.  A middleware that does not reach its \<^verbatim>\<open>c.Next()\<close> ends the chain.
\<close>

subsection \<open>The environment of a request\<close>

text \<open>
  What one request takes from outside: gin's trailing-slash redirect (\<^verbatim>\<open>None\<close> when it does not
  apply), random bytes, fresh ids, clock readings, the decoded bodies, the iteration orders of
  the maps, the state of the registry when the proxy asks for the healthy instances, how the
  exchange with the upstream goes, and for the log the text of the elapsed time and the texts
  of a panic and its stack.
\<close>

record request_env =
  redirect :: "nat option"
  trace_bytes :: "8 word list"
  span_bytes :: "8 word list"
  request_uuid :: string
  instance_uuid :: string
  clock :: gotime
  ended :: gotime
  url_text :: string
  register_body :: "string + register_request"
  id_body :: "string + string"
  check_orders :: "nat \<Rightarrow> string list"
  copy_order :: "string list"
  match_order :: "string list"
  drop_order :: "string list"
  service_order :: "string list"
  service_names :: "string list"
  later_registry :: registry
  upstream :: upstream_answer
  json_codec :: codec
  uptime_text :: "duration \<Rightarrow> string"
  elapsed_text :: string
  panic_text :: "string \<times> string"

datatype endpoint = Health | Ready | RegisterAt | HeartbeatAt | DeregisterAt | ListAt | NoRoute

text \<open>The route table of \<^verbatim>\<open>setupRouter\<close>; everything else is the proxy's.\<close>

definition endpoint_of :: "string \<Rightarrow> string \<Rightarrow> endpoint" where
  "endpoint_of meth path =
     (if meth = ''GET'' \<and> path = ''/health'' then Health
      else if meth = ''GET'' \<and> path = ''/ready'' then Ready
      else if meth = ''POST'' \<and> path = ''/internal/registry/register'' then RegisterAt
      else if meth = ''POST'' \<and> path = ''/internal/registry/heartbeat'' then HeartbeatAt
      else if meth = ''POST'' \<and> path = ''/internal/registry/deregister'' then DeregisterAt
      else if meth = ''GET'' \<and> path = ''/internal/registry/services'' then ListAt
      else NoRoute)"

text \<open>The context as the handlers after some calls see it.\<close>

definition after_calls :: "gin_context \<Rightarrow> gin_call list \<Rightarrow> gin_context" where
  "after_calls c calls =
     c\<lparr>ctx_Keys := apply_keys (ctx_Keys c) calls,
       rq_Header := apply_request_headers (rq_Header c) calls\<rparr>"

subsection \<open>The chain\<close>

text \<open>
  The middleware between the recovery and the endpoint: the new limiter, all calls, and whether
  the last one passed the request on.
\<close>

definition front ::
    "('pub, 'priv, 'db) server \<Rightarrow> request_env \<Rightarrow> gin_context \<Rightarrow>
     'db any_limiter option \<times> gin_call list \<times> trace_context \<times> bool" where
  "front s e c =
     (let (trace_calls, tc) = TraceMiddleware Extract Inject c (trace_bytes e) (span_bytes e);
          c1 = after_calls c trace_calls;
          id_calls = RequestID c1 (request_uuid e);
          c2 = after_calls c1 id_calls;
          cors_calls = CORS (cfg_CORS (sv_config s)) c2;
          calls = trace_calls @ id_calls @ cors_calls
      in if \<not> passes cors_calls then (sv_limiter s, calls, tc, False)
         else
           (case sv_limiter s of
              None \<Rightarrow> (None, calls, tc, True)
            | Some l \<Rightarrow>
                (let (l', limit_calls) =
                   RateLimitMiddleware any_allow (cfg_Rate (sv_config s)) (after_calls c2 cors_calls) l (clock e)
                 in (Some l', calls @ limit_calls, tc, passes limit_calls))))"

text \<open>The group \<^verbatim>\<open>/internal/registry\<close> is guarded exactly when there is a token service.\<close>

definition internal_guard ::
    "('pub, 'priv) jwt_lib \<Rightarrow> ('pub, 'priv, 'db) server \<Rightarrow> request_env \<Rightarrow> gin_context \<Rightarrow> gin_call list" where
  "internal_guard lib s e c =
     (case sv_jwt s of None \<Rightarrow> [Next] | Some service \<Rightarrow> ServiceAuthenticate lib service c (clock e))"

definition internal_endpoint ::
    "endpoint \<Rightarrow> request_env \<Rightarrow> registry \<Rightarrow> gin_context \<Rightarrow> registry \<times> gin_call list" where
  "internal_endpoint ep e r c =
     (case ep of
        RegisterAt \<Rightarrow>
          handle_Register (json_codec e) c (register_body e) r (check_orders e) (instance_uuid e) (clock e)
      | HeartbeatAt \<Rightarrow> handle_Heartbeat (id_body e) r (clock e)
      | DeregisterAt \<Rightarrow> handle_Deregister (id_body e) r (drop_order e)
      | _ \<Rightarrow> (r, handle_ListServices (json_codec e) r (service_order e) (service_names e)))"

definition proxy_auth ::
    "('pub, 'priv) jwt_lib \<Rightarrow> ('pub, 'priv, 'db) server \<Rightarrow> request_env \<Rightarrow>
     (gin_context \<Rightarrow> route_entry \<Rightarrow> string \<Rightarrow> gin_call list \<times> bool) option" where
  "proxy_auth lib s e =
     map_option (\<lambda>service c entry svc. AuthenticateRequest lib service c entry svc (clock e) (clock e)) (sv_auth s)"

definition serve_endpoint ::
    "('pub, 'priv) jwt_lib \<Rightarrow> ('pub, 'priv, 'db) server \<Rightarrow> request_env \<Rightarrow> gin_context \<Rightarrow>
     ('pub, 'priv, 'db) server \<times> proxy_result outcome" where
  "serve_endpoint lib s e c =
     (case endpoint_of (rq_Method c) (rq_Path c) of
        Health \<Rightarrow>
          (s, Ret (Answered (HealthHandler (startTime s) (cfg_Version (sv_config s)) (uptime_text e) (clock e))))
      | Ready \<Rightarrow> (s, Ret (Answered ReadyHandler))
      | NoRoute \<Rightarrow>
          (let (b, res) = Handle Select (proxy_auth lib s e) (sv_registry s) (copy_order e) (match_order e)
                            (later_registry e) c (sv_balancer s)
           in (s\<lparr>sv_balancer := b\<rparr>, bind_outcome res (ServeHTTP (upstream e))))
      | ep \<Rightarrow>
          (let guard = internal_guard lib s e c in
           if \<not> passes guard then (s, Ret (Answered guard))
           else
             (let (r, calls) = internal_endpoint ep e (sv_registry s) (after_calls c guard)
              in (s\<lparr>sv_registry := r\<rparr>, Ret (Answered (guard @ calls))))))"

text \<open>
  The answer to the client.  The status of a response nobody wrote is 200.  Recovery answers a
  panic with a 500 -- which gin drops when a status is already on the wire --, and the trace
  middleware, whose export comes after \<^verbatim>\<open>c.Next()\<close> without a \<^verbatim>\<open>defer\<close>, then exports nothing.
\<close>

definition final_status :: "gin_call list \<Rightarrow> int" where
  "final_status calls = (case responses calls of [] \<Rightarrow> 200 | n # ns \<Rightarrow> int (last (n # ns)))"

fun result_status :: "request_env \<Rightarrow> gin_call list \<Rightarrow> proxy_result \<Rightarrow> int" where
  "result_status e before (Answered calls) = final_status (before @ calls)"
| "result_status e before (Forwarded out) = upstream_status (upstream e)"

datatype reply = Direct "gin_call list" | Proxied "gin_call list" out_request | Recovered "gin_call list" | Redirected nat

definition recovery_calls :: "gin_call list" where
  "recovery_calls = [AbortWithStatusJSON 500 (JObject [(''error'', JString ''Internal Server Error'')])]"

definition export_request ::
    "('pub, 'priv, 'db) server \<Rightarrow> request_env \<Rightarrow> trace_context \<Rightarrow> gin_context \<Rightarrow> int \<Rightarrow> ('pub, 'priv, 'db) server" where
  "export_request s e tc c status =
     s\<lparr>sv_exporter := export_span (sv_exporter s) (request_span tc c (url_text e) (clock e) (ended e) status)\<rparr>"

definition serve ::
    "('pub, 'priv) jwt_lib \<Rightarrow> ('pub, 'priv, 'db) server \<Rightarrow> request_env \<Rightarrow> gin_context \<Rightarrow>
     ('pub, 'priv, 'db) server \<times> reply" where
  "serve lib s e c =
     (case (if endpoint_of (rq_Method c) (rq_Path c) = NoRoute then redirect e else None) of
        Some code \<Rightarrow> (s, Redirected code)
      | None \<Rightarrow>
          (let (limiter, calls, tc, on) = front s e c; s1 = s\<lparr>sv_limiter := limiter\<rparr> in
           if \<not> on then (export_request s1 e tc c (final_status calls), Direct calls)
           else
             (case serve_endpoint lib s1 e (after_calls c calls) of
                (s2, Panic) \<Rightarrow> (s2, Recovered (calls @ recovery_calls))
              | (s2, Ret res) \<Rightarrow>
                  (export_request s2 e tc c (result_status e calls res),
                   case res of
                     Answered answer \<Rightarrow> Direct (calls @ answer)
                   | Forwarded out \<Rightarrow> Proxied (calls @ upstream_calls (upstream e)) out))))"

text \<open>
  What the request writes to the log: the line of the logger, which sits outside the trace
  middleware, or the line of the recovery when a handler panics; nothing for gin's redirects.
  No handler of the repository adds to \<^verbatim>\<open>c.Errors\<close>.
\<close>

fun answer_calls :: "request_env \<Rightarrow> proxy_result \<Rightarrow> gin_call list" where
  "answer_calls e (Answered calls) = calls"
| "answer_calls e (Forwarded out) = upstream_calls (upstream e)"

definition request_log ::
    "('pub, 'priv) jwt_lib \<Rightarrow> ('pub, 'priv, 'db) server \<Rightarrow> request_env \<Rightarrow> gin_context \<Rightarrow> log_line option" where
  "request_log lib s e c =
     (case (if endpoint_of (rq_Method c) (rq_Path c) = NoRoute then redirect e else None) of
        Some code \<Rightarrow> None
      | None \<Rightarrow>
          (let (limiter, calls, tc, on) = front s e c; c1 = after_calls c calls in
           if \<not> on then Logger c c1 (final_status calls) (elapsed_text e) None
           else
             (case snd (serve_endpoint lib (s\<lparr>sv_limiter := limiter\<rparr>) e c1) of
                Panic \<Rightarrow> Some (recovery_line c1 (fst (panic_text e)) (snd (panic_text e)))
              | Ret res \<Rightarrow>
                  Logger c (after_calls c (calls @ answer_calls e res)) (result_status e calls res)
                    (elapsed_text e) None)))"

subsection \<open>What the front of the chain does\<close>

lemma apply_keys_append: "apply_keys m (xs @ ys) = apply_keys (apply_keys m xs) ys"
  by (induction m xs rule: apply_keys.induct) (simp_all del: fun_upd_apply)

lemma responses_append [simp]: "responses (xs @ ys) = responses xs @ responses ys"
  by (induction xs) (simp_all split: option.split)

lemma passes_append [simp]: "passes (xs @ ys) \<longleftrightarrow> passes xs \<or> passes ys"
  by (auto simp: passes_def)

text \<open>No handler of the chain but the authentication touches the request headers.\<close>

definition plain_calls :: "gin_call list \<Rightarrow> bool" where
  "plain_calls calls \<longleftrightarrow> (\<forall>h. apply_request_headers h calls = h)"

lemma plain_append [simp]: "plain_calls xs \<Longrightarrow> plain_calls (xs @ ys) \<longleftrightarrow> plain_calls ys"
  by (simp add: plain_calls_def apply_request_headers_append)

lemma TraceMiddleware_calls [middleware_calls]:
  "responses (fst (TraceMiddleware Extract Inject c tb sb)) = []"
  "plain_calls (fst (TraceMiddleware Extract Inject c tb sb))"
  by (simp_all add: TraceMiddleware_def Inject_def Let_def plain_calls_def)

lemma RequestID_calls [middleware_calls]: "responses (RequestID c x) = []" "plain_calls (RequestID c x)"
  by (simp_all add: RequestID_def Let_def plain_calls_def)

lemma CORS_calls [middleware_calls]:
  "responses (CORS cfg c) = (if rq_Method c = ''OPTIONS'' then [204] else [])"
  "passes (CORS cfg c) \<longleftrightarrow> rq_Method c \<noteq> ''OPTIONS''"
  "plain_calls (CORS cfg c)"
  by (simp_all add: CORS_def Let_def plain_calls_def)

lemma RateLimit_calls [middleware_calls]:
  "responses (snd (RateLimitMiddleware allow cfg c l now)) =
     (if passes (snd (RateLimitMiddleware allow cfg c l now)) then [] else [429])"
  "plain_calls (snd (RateLimitMiddleware allow cfg c l now))"
  by (auto simp: RateLimitMiddleware_def case_prod_beta plain_calls_def limit_headers_def
      split: sum.split)

lemma after_calls_sel [simp]:
  "rq_Method (after_calls c calls) = rq_Method c" "rq_Path (after_calls c calls) = rq_Path c"
  "rq_Host (after_calls c calls) = rq_Host c"
  "plain_calls calls \<Longrightarrow> rq_Header (after_calls c calls) = rq_Header c"
  "plain_calls calls \<Longrightarrow> GetHeader (after_calls c calls) k = GetHeader c k"
  by (simp_all add: after_calls_def plain_calls_def GetHeader_def)

lemma front_calls:
  assumes "front s e c = (l, calls, tc, on)"
  shows "plain_calls calls"
    and "responses calls = (if on then [] else if rq_Method c = ''OPTIONS'' then [204] else [429])"
    and "on \<longleftrightarrow> rq_Method c \<noteq> ''OPTIONS'' \<and> 429 \<notin> set (responses calls)"
    and "sv_limiter s = None \<Longrightarrow> l = None \<and> (on \<longleftrightarrow> rq_Method c \<noteq> ''OPTIONS'')"
    and "rq_Method c = ''OPTIONS'' \<Longrightarrow> l = sv_limiter s"
  using assms by (auto simp: front_def case_prod_beta Let_def middleware_calls split: option.splits if_splits)

lemma RateLimit_ready:
  "any_ready l \<Longrightarrow> any_ready (fst (RateLimitMiddleware any_allow cfg c l now))"
  using chosen.allow_ready by (auto simp: RateLimitMiddleware_def case_prod_beta)

lemma front_ready:
  assumes "front s e c = (l, calls, tc, on)" and "\<And>m. sv_limiter s = Some m \<Longrightarrow> any_ready m" and "l = Some m"
  shows "any_ready m"
  using assms
  by (auto simp: front_def case_prod_beta Let_def RateLimit_ready split: option.splits if_splits)

subsection \<open>What the endpoints answer\<close>

lemma AuthenticateRequest_refuses:
  assumes "\<not> snd (AuthenticateRequest lib s c entry svc tv tg)"
  shows "\<exists>n \<in> {401, 403, 500}. responses (fst (AuthenticateRequest lib s c entry svc tv tg)) = [n]"
  using assms by (auto simp: AuthenticateRequest_def Let_def split: if_splits sum.splits)

lemma Handle_answers_once:
  assumes "MatchRoute r (rq_Method c) (rq_Path c) co ks = Ret m"
    and "\<And>svc. length (GetHealthyInstances r2 svc) < 2 ^ 63"
  shows "\<exists>res. snd (Handle Select (proxy_auth lib s e) r co ks r2 c b) = Ret res \<and>
    (\<forall>calls. res = Answered calls \<longrightarrow> (\<exists>n \<in> {404, 401, 403, 500, 503}. responses calls = [n]))"
proof -
  from rr_proxy.Handle_answer [OF assms, of "proxy_auth lib s e" b]
  obtain res where res: "snd (Handle Select (proxy_auth lib s e) r co ks r2 c b) = Ret res"
    and cases: "case m of
       None \<Rightarrow> res = Answered [JSON 404 route_not_found]
     | Some mr \<Rightarrow>
         (let svc = re_ServiceName (mr_Entry mr);
              (calls, ok) = (case proxy_auth lib s e of None \<Rightarrow> ([], True) | Some a \<Rightarrow> a c (mr_Entry mr) svc)
          in if \<not> ok then res = Answered calls
             else if GetHealthyInstances r2 svc = [] then res = Answered [JSON 503 (no_healthy_instances svc)]
             else (\<exists>inst \<in> set (GetHealthyInstances r2 svc).
               let h = apply_request_headers (rq_Header c) calls in
               res = Forwarded (Director (c\<lparr>rq_Header := h\<rparr>) svc inst
                                  (clone_request (c\<lparr>rq_Header := h\<rparr>) h))))" by blast
  have "\<exists>n \<in> {404, 401, 403, 500, 503}. responses calls = [n]" if "res = Answered calls" for calls
  proof (cases m)
    case None
    with cases that show ?thesis by simp
  next
    case (Some mr)
    with cases that show ?thesis
      by (cases "sv_auth s")
         (auto simp: proxy_auth_def Let_def case_prod_beta prod_eq_iff
           dest!: AuthenticateRequest_refuses split: if_splits)
  qed
  with res show ?thesis by blast
qed

end
