(* ===== verification/Gateway_Props.thy ===== *)
theory Gateway_Props
  imports Gateway
begin

text \<open>
  What holds of one request through the whole server: how often it is answered and which span it
  leaves, however the exchange with the upstream ends; that it changes the registry only through the
  internal API; and that a preflight goes no further than CORS.
\<close>

subsection \<open>A concrete server\<close>

definition sample_env :: "registry \<Rightarrow> request_env" where
  "sample_env later =
     \<lparr>redirect = None, trace_bytes = replicate 16 1, span_bytes = replicate 8 2, request_uuid = ''req-1'',
      instance_uuid = ''id-1'', clock = 0, ended = 1, url_text = ''/x'',
      register_body = Inr (sample_request ''user-1''), id_body = Inr ''id-1'', check_orders = (\<lambda>_. []),
      copy_order = [], match_order = [], drop_order = [], service_order = [], service_names = [],
      later_registry = later, upstream = Responded 200,
      json_codec = \<lparr>time_text = \<lambda>_. [], metadata_json = \<lambda>_. JNull\<rparr>, uptime_text = \<lambda>_. ''0s'',
      elapsed_text = ''1ms'', panic_text = ([], [])\<rparr>"

definition sample_server :: "(nat, nat) jwt_service option \<Rightarrow> registry \<Rightarrow> (nat, nat, unit) server" where
  "sample_server service r =
     \<lparr>sv_config = default_config [], startTime = 0, sv_registry = r, sv_jwt = service, sv_auth = service,
      redis_open = False, sv_limiter = None, sv_exporter = NoopExporter,
      sv_balancer = NewRoundRobinBalancer, http_server = True\<rparr>"

definition sample_get :: "string \<Rightarrow> string \<Rightarrow> headers \<Rightarrow> gin_context" where
  "sample_get meth path h =
     \<lparr>rq_Method = meth, rq_Path = path, rq_RawQuery = [], rq_Host = ''gateway'', rq_TLS = False,
      rq_Header = h, ctx_Keys = Map.empty, ctx_ClientIP = ''10.0.0.9'', ctx_FullPath = []\<rparr>"

lemmas sample_server_defs = sample_env_def sample_server_def sample_get_def

lemma sample_sel [simp]:
  "sv_registry (sample_server service r) = r" "sv_jwt (sample_server service r) = service"
  "sv_auth (sample_server service r) = service" "sv_limiter (sample_server service r) = None"
  "sv_exporter (sample_server service r) = NoopExporter"
  "redirect (sample_env r) = None" "clock (sample_env r) = 0" "instance_uuid (sample_env r) = ''id-1''"
  "register_body (sample_env r) = Inr (sample_request ''user-1'')" "check_orders (sample_env r) = (\<lambda>_. [])"
  "copy_order (sample_env r) = []" "match_order (sample_env r) = []" "later_registry (sample_env r) = r"
  "rq_Method (sample_get m p h) = m" "rq_Path (sample_get m p h) = p" "rq_Header (sample_get m p h) = h"
  "ctx_Keys (sample_get m p h) = Map.empty"
  by (simp_all add: sample_server_defs)

lemma serve_internal:
  assumes "endpoint_of (rq_Method c) (rq_Path c) = ep" and "ep \<in> {RegisterAt, HeartbeatAt, DeregisterAt}"
    and "passes (internal_guard lib s e c)"
  shows "serve_endpoint lib s e c =
    (let (r, calls) = internal_endpoint ep e (sv_registry s) (after_calls c (internal_guard lib s e c))
     in (s\<lparr>sv_registry := r\<rparr>, Ret (Answered (internal_guard lib s e c @ calls))))"
  using assms by (auto simp: serve_endpoint_def Let_def)

text \<open>The three ways a request can end behind the front, with the line each writes.\<close>

lemma serve_views:
  assumes "(if endpoint_of (rq_Method c) (rq_Path c) = NoRoute then redirect e else None) = None"
    and "front s e c = (l, calls, tc, on)"
    and "serve_endpoint lib (s\<lparr>sv_limiter := l\<rparr>) e (after_calls c calls) = (s2, out)"
  shows "\<not> on \<Longrightarrow> serve lib s e c =
      (s\<lparr>sv_limiter := l, sv_exporter := export_span (sv_exporter s)
          (request_span tc c (url_text e) (clock e) (ended e) (final_status calls))\<rparr>, Direct calls)"
    and "\<not> on \<Longrightarrow> request_log lib s e c =
      Logger c (after_calls c calls) (final_status calls) (elapsed_text e) None"
    and "on \<Longrightarrow> out = Panic \<Longrightarrow> serve lib s e c = (s2, Recovered (calls @ recovery_calls))"
    and "on \<Longrightarrow> out = Panic \<Longrightarrow> request_log lib s e c =
      Some (recovery_line (after_calls c calls) (fst (panic_text e)) (snd (panic_text e)))"
    and "on \<Longrightarrow> out = Ret res \<Longrightarrow> serve lib s e c =
      (s2\<lparr>sv_exporter := export_span (sv_exporter s2)
          (request_span tc c (url_text e) (clock e) (ended e) (result_status e calls res))\<rparr>,
       case res of Answered answer \<Rightarrow> Direct (calls @ answer) | Forwarded out \<Rightarrow> Proxied (calls @ upstream_calls (upstream e)) out)"
    and "on \<Longrightarrow> out = Ret res \<Longrightarrow> request_log lib s e c =
      Logger c (after_calls c (calls @ answer_calls e res)) (result_status e calls res) (elapsed_text e) None"
  using assms by (simp_all add: serve_def request_log_def export_request_def Let_def)

lemma serve_on:
  assumes "(if endpoint_of (rq_Method c) (rq_Path c) = NoRoute then redirect e else None) = None"
    and "front s e c = (l, calls, tc, True)"
  shows "sv_registry (fst (serve lib s e c)) =
      sv_registry (fst (serve_endpoint lib (s\<lparr>sv_limiter := l\<rparr>) e (after_calls c calls)))"
    and "sv_balancer (fst (serve lib s e c)) =
      sv_balancer (fst (serve_endpoint lib (s\<lparr>sv_limiter := l\<rparr>) e (after_calls c calls)))"
    and "snd (serve lib s e c) =
      (case snd (serve_endpoint lib (s\<lparr>sv_limiter := l\<rparr>) e (after_calls c calls)) of
         Panic \<Rightarrow> Recovered (calls @ recovery_calls)
       | Ret (Answered answer) \<Rightarrow> Direct (calls @ answer)
       | Ret (Forwarded out) \<Rightarrow> Proxied (calls @ upstream_calls (upstream e)) out)"
proof -
  obtain s2 out where run: "serve_endpoint lib (s\<lparr>sv_limiter := l\<rparr>) e (after_calls c calls) = (s2, out)"
    by fastforce
  note views = serve_views(3,5) [OF assms run TrueI]
  show "sv_registry (fst (serve lib s e c)) =
      sv_registry (fst (serve_endpoint lib (s\<lparr>sv_limiter := l\<rparr>) e (after_calls c calls)))"
    using views by (cases out) (simp_all add: run)
  show "sv_balancer (fst (serve lib s e c)) =
      sv_balancer (fst (serve_endpoint lib (s\<lparr>sv_limiter := l\<rparr>) e (after_calls c calls)))"
    using views by (cases out) (simp_all add: run)
  show "snd (serve lib s e c) =
      (case snd (serve_endpoint lib (s\<lparr>sv_limiter := l\<rparr>) e (after_calls c calls)) of
         Panic \<Rightarrow> Recovered (calls @ recovery_calls)
       | Ret (Answered answer) \<Rightarrow> Direct (calls @ answer)
       | Ret (Forwarded out) \<Rightarrow> Proxied (calls @ upstream_calls (upstream e)) out)"
    using views by (cases out) (simp_all add: run split: proxy_result.split)
qed

text \<open>Without a rate limiter only a preflight is stopped by the front of the chain.\<close>

lemma serve_past_front:
  assumes "sv_limiter s = None" and "rq_Method c \<noteq> ''OPTIONS''"
    and "endpoint_of (rq_Method c) (rq_Path c) = NoRoute \<Longrightarrow> redirect e = None"
  obtains calls tc where "front s e c = (None, calls, tc, True)" and "plain_calls calls" and "responses calls = []"
    and "sv_registry (fst (serve lib s e c)) = sv_registry (fst (serve_endpoint lib s e (after_calls c calls)))"
    and "sv_balancer (fst (serve lib s e c)) = sv_balancer (fst (serve_endpoint lib s e (after_calls c calls)))"
    and "snd (serve lib s e c) =
      (case snd (serve_endpoint lib s e (after_calls c calls)) of
         Panic \<Rightarrow> Recovered (calls @ recovery_calls)
       | Ret (Answered answer) \<Rightarrow> Direct (calls @ answer)
       | Ret (Forwarded out) \<Rightarrow> Proxied (calls @ upstream_calls (upstream e)) out)"
proof -
  obtain l calls tc on where f: "front s e c = (l, calls, tc, on)" by (metis prod_cases4)
  note front = front_calls [OF f]
  with assms have on: "on" "l = None" "plain_calls calls" "responses calls = []" by auto
  have s: "s\<lparr>sv_limiter := None\<rparr> = s" using assms(1) by simp
  have plain: "(if endpoint_of (rq_Method c) (rq_Path c) = NoRoute then redirect e else None) = None"
    using assms(3) by simp
  have f': "front s e c = (None, calls, tc, True)" using f on by simp
  show thesis by (rule that [OF f' on(3,4) serve_on [OF plain f', of lib, unfolded s]])
qed

subsection \<open>Answers\<close>

lemma guard_cases:
  "passes (internal_guard lib s e c) \<and> responses (internal_guard lib s e c) = [] \<or>
   \<not> passes (internal_guard lib s e c) \<and> responses (internal_guard lib s e c) = [401]"
  by (auto simp: internal_guard_def ServiceAuthenticate_def Let_def split: option.splits sum.splits)

lemma internal_endpoint_once: "\<exists>n. responses (snd (internal_endpoint ep e r c)) = [n]"
proof -
  have "\<exists>n. responses (snd (handle_Heartbeat b r now)) = [n]" for b r now
    by (auto simp: handle_Heartbeat_def bind_failed_def split: sum.split prod.split option.split)
  moreover have "\<exists>n. responses (snd (handle_Deregister b r ks)) = [n]" for b r ks
    by (auto simp: handle_Deregister_def bind_failed_def split: sum.split prod.split option.split)
  moreover have "\<exists>n. responses (handle_ListServices cd r ks ns) = [n]" for cd ks ns
    by (simp add: handle_ListServices_def Let_def)
  moreover have "\<exists>n. responses (snd (handle_Register cd c b r ord x now)) = [n]" for cd b ord x now
    using handle_Register_status [of cd c b r ord x now] by (metis surjective_pairing)
  ultimately show ?thesis by (cases ep) (simp_all add: internal_endpoint_def)
qed

lemma serve_endpoint_once:
  assumes orders: "range_order (copy_order e) (routes (sv_registry s))"
      "range_order (match_order e) (routes (sv_registry s))"
    and small: "\<And>svc. length (GetHealthyInstances (later_registry e) svc) < 2 ^ 63"
  shows "(\<exists>calls n. snd (serve_endpoint lib s e c) = Ret (Answered calls) \<and> responses calls = [n]) \<or>
    (\<exists>out. snd (serve_endpoint lib s e c) = ServeHTTP (upstream e) (Forwarded out))"
proof -
  have internal: "\<exists>n. responses (internal_guard lib s e c @
      snd (internal_endpoint ep e (sv_registry s) (after_calls c (internal_guard lib s e c)))) = [n]"
    if "passes (internal_guard lib s e c)" for ep
    using that guard_cases [of lib s e c] internal_endpoint_once by auto
  obtain m where "MatchRoute (sv_registry s) (rq_Method c) (rq_Path c) (copy_order e) (match_order e) = Ret m"
    using MatchRoute_found [OF orders] by blast
  from Handle_answers_once [OF this small, where b = "sv_balancer s" and lib = lib and s = s and e = e]
  obtain res where proxy: "snd (Handle Select (proxy_auth lib s e) (sv_registry s) (copy_order e) (match_order e)
      (later_registry e) c (sv_balancer s)) = Ret res"
      "\<forall>calls. res = Answered calls \<longrightarrow> (\<exists>n. responses calls = [n])" by blast
  show ?thesis
    using internal guard_cases [of lib s e c] proxy
    by (cases "endpoint_of (rq_Method c) (rq_Path c)"; cases res)
       (auto simp: serve_endpoint_def case_prod_beta Let_def HealthHandler_def ReadyHandler_def)
qed

lemma final_status_single: "responses calls = [n] \<Longrightarrow> final_status calls = int n"
  by (simp add: final_status_def)

lemma serve_endpoint_exporter [server_frame]: "sv_exporter (fst (serve_endpoint lib s e c)) = sv_exporter s"
  by (simp add: serve_endpoint_def case_prod_beta Let_def split: endpoint.split)

text \<open>
  C5. A request that gin does not redirect on its own is answered once, whatever arrives.  Either
  the gateway answers, with exactly one status; or the upstream's status is passed on, and the
  gateway writes none; or the transport fails, and the gateway writes one 502.  In each of these
  cases exactly one span is handed to the exporter (the no-op exporter drops it), with the request's
  trace and the status the client saw.  No handler panics, with one exception:
  \<^verbatim>\<open>ReverseProxy\<close> aborts when the body of the upstream breaks off.  The recovery then wants to write a 500
  although the upstream's status is on the wire, and no span is exported.
\<close>

theorem every_request_answered_once:
  assumes "range_order (copy_order e) (routes (sv_registry s))"
    and "range_order (match_order e) (routes (sv_registry s))"
    and "\<forall>svc. length (GetHealthyInstances (later_registry e) svc) < 2 ^ 63"
    and "serve lib s e c = (s', answer)"
  shows "case answer of
      Redirected code \<Rightarrow> s' = s \<and> redirect e = Some code
    | Recovered calls \<Rightarrow> responses calls = [500] \<and> sv_exporter s' = sv_exporter s \<and>
        (\<exists>n. upstream e = BodyAborted n)
    | Direct calls \<Rightarrow> \<exists>n tc. responses calls = [n] \<and> sv_exporter s' =
        export_span (sv_exporter s) (request_span tc c (url_text e) (clock e) (ended e) (int n))
    | Proxied calls out \<Rightarrow> \<exists>n tc. sv_exporter s' =
        export_span (sv_exporter s) (request_span tc c (url_text e) (clock e) (ended e) n) \<and>
        (case upstream e of
           Responded status \<Rightarrow> responses calls = [] \<and> n = status
         | TransportError err \<Rightarrow> responses calls = [502] \<and> n = 502
         | BodyAborted status \<Rightarrow> False)"
proof (cases "if endpoint_of (rq_Method c) (rq_Path c) = NoRoute then redirect e else None")
  case (Some code)
  with assms(4) show ?thesis by (auto simp: serve_def split: if_splits)
next
  case None
  obtain l calls tc on where f: "front s e c = (l, calls, tc, on)" by (metis prod_cases4)
  note front = front_calls [OF f]
  obtain s2 out where run: "serve_endpoint lib (s\<lparr>sv_limiter := l\<rparr>) e (after_calls c calls) = (s2, out)"
    by fastforce
  note views = serve_views [OF None f run]
  have span: "sv_exporter s2 = sv_exporter s"
    using serve_endpoint_exporter [of lib "s\<lparr>sv_limiter := l\<rparr>" e "after_calls c calls"] by (simp add: run)
  show ?thesis
  proof (cases on)
    case False
    with front(2) obtain n where n: "responses calls = [n]" by (auto split: if_splits)
    with views(1) [OF False] assms(4) show ?thesis by (auto simp: final_status_single [OF n])
  next
    case True
    with front(2) have silent: "responses calls = []" by simp
    have "(\<exists>more n. out = Ret (Answered more) \<and> responses more = [n]) \<or> (\<exists>q. out = ServeHTTP (upstream e) (Forwarded q))"
      using serve_endpoint_once [of e "s\<lparr>sv_limiter := l\<rparr>" lib "after_calls c calls"] assms(1-3) by (simp add: run)
    then consider (answered) more n where "out = Ret (Answered more)" "responses more = [n]"
      | (forwarded) q where "out = Ret (Forwarded q)" "\<nexists>n. upstream e = BodyAborted n"
      | (aborted) n where "out = Panic" "upstream e = BodyAborted n"
      by (auto simp: ServeHTTP_forwarded split: if_splits)
    then show ?thesis
    proof cases
      case answered
      have "final_status (calls @ more) = int n" by (rule final_status_single) (simp add: silent answered)
      with views(5) [OF True answered(1)] answered(2) silent span assms(4) show ?thesis by auto
    next
      case forwarded
      with views(5) [OF True forwarded(1)] silent span assms(4) show ?thesis
        by (cases "upstream e") (auto simp: upstream_error_def)
    next
      case aborted
      with views(3) [OF True aborted(1)] silent span assms(4) show ?thesis by (auto simp: recovery_calls_def)
    qed
  qed
qed

theorem every_request_answered_once_witness:
  "\<exists>calls. snd (serve slib (sample_server None (NewRegistry (sample_config 30))) (sample_env (NewRegistry (sample_config 30)))
      (sample_get ''GET'' ''/health'' Map.empty)) = Direct calls \<and> (\<exists>n. responses calls = [n])"
proof -
  let ?r = "NewRegistry (sample_config 30)"
  let ?s = "sample_server None ?r" and ?e = "sample_env ?r" and ?c = "sample_get ''GET'' ''/health'' Map.empty"
  have "sv_limiter ?s = None" "rq_Method ?c \<noteq> ''OPTIONS''" "redirect ?e = None"
    by (simp_all add: sample_server_defs)
  from serve_past_front [OF this(1,2), of ?e slib] this(3) obtain calls where
    "snd (serve slib ?s ?e ?c) =
      (case snd (serve_endpoint slib ?s ?e (after_calls ?c calls)) of
         Panic \<Rightarrow> Recovered (calls @ recovery_calls)
       | Ret (Answered answer) \<Rightarrow> Direct (calls @ answer)
       | Ret (Forwarded out) \<Rightarrow> Proxied (calls @ upstream_calls (upstream ?e)) out)" by metis
  then obtain s' answer where run: "serve slib ?s ?e ?c = (s', Direct answer)"
    by (cases "serve slib ?s ?e ?c") (simp add: serve_endpoint_def endpoint_of_def sample_get_def)
  have orders: "range_order (copy_order ?e) (routes (sv_registry ?s))"
      "range_order (match_order ?e) (routes (sv_registry ?s))"
      "\<forall>svc. length (GetHealthyInstances (later_registry ?e) svc) < 2 ^ 63"
    by (simp_all add: sample_server_defs NewRegistry_def range_order_empty GetHealthyInstances_def)
  from every_request_answered_once [OF orders run] run show ?thesis by auto
qed

subsection \<open>Who changes the registry\<close>

lemma serve_registry:
  assumes "serve lib s e c = (s', answer)"
  shows "sv_registry s' = sv_registry s \<or>
    (\<exists>l calls tc. front s e c = (l, calls, tc, True) \<and>
       sv_registry s' = sv_registry (fst (serve_endpoint lib (s\<lparr>sv_limiter := l\<rparr>) e (after_calls c calls))))"
  using assms
  by (cases "front s e c")
     (auto simp: serve_def export_request_def case_prod_beta Let_def prod_eq_iff
        split: option.splits outcome.splits if_splits prod.splits)

lemma serve_endpoint_registry:
  assumes "sv_registry (fst (serve_endpoint lib s e c)) \<noteq> sv_registry s"
  shows "endpoint_of (rq_Method c) (rq_Path c) \<in> {RegisterAt, HeartbeatAt, DeregisterAt} \<and>
    passes (internal_guard lib s e c) \<and>
    sv_registry (fst (serve_endpoint lib s e c)) =
      fst (internal_endpoint (endpoint_of (rq_Method c) (rq_Path c)) e (sv_registry s)
             (after_calls c (internal_guard lib s e c)))"
  using assms
  by (auto simp: serve_endpoint_def case_prod_beta Let_def internal_endpoint_def
        split: endpoint.splits if_splits)

lemma endpoint_of_internal:
  "endpoint_of m p = RegisterAt \<longleftrightarrow> m = ''POST'' \<and> p = ''/internal/registry/register''"
  "endpoint_of m p = HeartbeatAt \<longleftrightarrow> m = ''POST'' \<and> p = ''/internal/registry/heartbeat''"
  "endpoint_of m p = DeregisterAt \<longleftrightarrow> m = ''POST'' \<and> p = ''/internal/registry/deregister''"
  by (simp_all add: endpoint_of_def)

text \<open>What a change of the registry by one request is.\<close>

definition registry_change :: "request_env \<Rightarrow> string \<Rightarrow> registry \<Rightarrow> registry \<Rightarrow> string \<Rightarrow> bool" where
  "registry_change e path r r' name \<longleftrightarrow>
     path = ''/internal/registry/register'' \<and>
       (\<exists>req resp. register_body e = Inr req \<and> rr_ServiceName req = name \<and>
          Register r req (check_orders e) (instance_uuid e) (clock e) = (r', Inr resp)) \<or>
     path = ''/internal/registry/heartbeat'' \<and>
       (\<exists>x. id_body e = Inr x \<and> Heartbeat r x (clock e) = (r', None)) \<or>
     path = ''/internal/registry/deregister'' \<and>
       (\<exists>x. id_body e = Inr x \<and> Deregister r x (drop_order e) = (r', None))"

lemma heartbeat_change:
  "fst (handle_Heartbeat b r now) \<noteq> r \<Longrightarrow>
     \<exists>x. b = Inr x \<and> Heartbeat r x now = (fst (handle_Heartbeat b r now), None)"
  by (auto simp: handle_Heartbeat_def Heartbeat_def split: sum.splits option.splits)

lemma deregister_change:
  "fst (handle_Deregister b r ks) \<noteq> r \<Longrightarrow>
     \<exists>x. b = Inr x \<and> Deregister r x ks = (fst (handle_Deregister b r ks), None)"
  by (cases b) (auto simp: handle_Deregister_def Deregister_eq split: if_splits prod.splits)

lemma register_change:
  assumes "ctx_Keys c ''service_name'' = Some (VString name)"
    and "r' = fst (handle_Register cd c bound r ord x now)" and "r' \<noteq> r"
  shows "\<exists>req resp. bound = Inr req \<and> rr_ServiceName req = name \<and> Register r req ord x now = (r', Inr resp)"
  using handle_Register_changes [OF _ assms(3)] assms(1,2) by (metis prod.collapse)

lemma internal_endpoint_change:
  assumes ep: "endpoint_of m p \<in> {RegisterAt, HeartbeatAt, DeregisterAt}"
    and name: "ctx_Keys c ''service_name'' = Some (VString name)"
    and r': "r' = fst (internal_endpoint (endpoint_of m p) e r c)" "r' \<noteq> r"
  shows "registry_change e p r r' name"
proof -
  from ep consider "endpoint_of m p = RegisterAt" | "endpoint_of m p = HeartbeatAt" | "endpoint_of m p = DeregisterAt"
    by auto
  then show ?thesis
  proof cases
    case 1
    with r' register_change [OF name, of r' "json_codec e" "register_body e" r "check_orders e" "instance_uuid e" "clock e"]
    show ?thesis by (simp add: registry_change_def endpoint_of_internal internal_endpoint_def)
  next
    case 2
    with r' heartbeat_change [of "id_body e" r "clock e"] show ?thesis
      by (simp add: registry_change_def endpoint_of_internal internal_endpoint_def)
  next
    case 3
    with r' deregister_change [of "id_body e" r "drop_order e"] show ?thesis
      by (simp add: registry_change_def endpoint_of_internal internal_endpoint_def)
  qed
qed

text \<open>
  C3. With a key configured, one request changes the registry only through the internal API and
  only with a valid service token: by a registration in the name of the token's subject, by a
  heartbeat, or by a deregistration.  No proxied request, no health check and no request
  without such a token changes it.
\<close>

theorem registry_guarded:
  assumes jwt: "sv_jwt s = Some service" and run: "serve lib s e c = (s', answer)"
    and changed: "sv_registry s' \<noteq> sv_registry s"
  shows "rq_Method c = ''POST'' \<and>
    (\<exists>name. ValidateServiceToken lib service (GetHeader c ''X-Service-Token'') (clock e) = Inr name \<and>
       registry_change e (rq_Path c) (sv_registry s) (sv_registry s') name)"
proof -
  from serve_registry [OF run] changed obtain l calls tc where f: "front s e c = (l, calls, tc, True)"
    and reg: "sv_registry s' =
      sv_registry (fst (serve_endpoint lib (s\<lparr>sv_limiter := l\<rparr>) e (after_calls c calls)))" by blast
  let ?s = "s\<lparr>sv_limiter := l\<rparr>" and ?c = "after_calls c calls"
  let ?guard = "internal_guard lib ?s e ?c"
  have "sv_registry (fst (serve_endpoint lib ?s e ?c)) \<noteq> sv_registry ?s" using changed reg by simp
  note change = serve_endpoint_registry [OF this]
  have guard: "?guard = ServiceAuthenticate lib service ?c (clock e)" by (simp add: internal_guard_def jwt)
  have token: "GetHeader ?c ''X-Service-Token'' = GetHeader c ''X-Service-Token''"
    using front_calls(1) [OF f] by simp
  from change guard obtain name where
    name: "ValidateServiceToken lib service (GetHeader c ''X-Service-Token'') (clock e) = Inr name"
    and key: "apply_keys (ctx_Keys ?c) ?guard ''service_name'' = Some (VString name)"
    by (auto simp: ServiceAuthenticate_passes token)
  let ?c2 = "after_calls ?c ?guard"
  have key2: "ctx_Keys ?c2 ''service_name'' = Some (VString name)" using key by (simp add: after_calls_def)
  let ?ep = "endpoint_of (rq_Method c) (rq_Path c)"
  have sv: "sv_registry s' = fst (internal_endpoint ?ep e (sv_registry s) ?c2)" using change reg by simp
  with change changed key2 have "registry_change e (rq_Path c) (sv_registry s) (sv_registry s') name"
    by (intro internal_endpoint_change) simp_all
  with name change show ?thesis by (auto simp: endpoint_of_internal)
qed

theorem registry_guarded_witness:
  "\<exists>s' answer. serve slib (sample_server (Some sample_service) (NewRegistry (sample_config 30)))
      (sample_env (NewRegistry (sample_config 30)))
      (sample_get ''POST'' ''/internal/registry/register'' [''X-Service-Token'' \<mapsto> [''t3'']]) = (s', answer) \<and>
     sv_registry s' \<noteq> NewRegistry (sample_config 30) \<and>
     ValidateServiceToken slib sample_service ''t3'' 0 = Inr ''user-1''"
proof -
  let ?r = "NewRegistry (sample_config 30)"
  let ?s = "sample_server (Some sample_service) ?r" and ?e = "sample_env ?r"
  let ?c = "sample_get ''POST'' ''/internal/registry/register'' [''X-Service-Token'' \<mapsto> [''t3'']]"
  have key: "canonical_key ''X-Service-Token'' = ''X-Service-Token''" by code_simp
  have tok: "GetHeader ?c ''X-Service-Token'' = ''t3''"
    by (simp add: GetHeader_def header_get_def key get_slice_def sample_get_def)
  have "unexpired [''sub'' \<mapsto> JString ''user-1'', ''aud'' \<mapsto> JString ''api-gateway''] 0"
    by (simp add: unexpired_def)
  then have valid: "ValidateServiceToken slib sample_service ''t3'' 0 = Inr ''user-1''"
    by (simp add: ValidateServiceToken_def sample_service_def NewServiceWithKeys_def parsed_claims_def
        sample_tokens_def sample_tab_def rsa_keyfunc_def rs256_RSA getStringClaim_def)
  have ep: "endpoint_of (rq_Method ?c) (rq_Path ?c) = RegisterAt" by (simp add: sample_get_def endpoint_of_def)
  have "sv_limiter ?s = None" "rq_Method ?c \<noteq> ''OPTIONS''" by (simp_all add: sample_server_defs)
  from serve_past_front [OF this, of ?e slib] ep obtain calls where plain: "plain_calls calls"
    and reg: "sv_registry (fst (serve slib ?s ?e ?c)) =
      sv_registry (fst (serve_endpoint slib ?s ?e (after_calls ?c calls)))" by (metis endpoint.distinct)
  let ?c1 = "after_calls ?c calls"
  have guard: "internal_guard slib ?s ?e ?c1 = [SetKey ''service_name'' (VString ''user-1''), Next]"
    using plain tok valid by (simp add: internal_guard_def ServiceAuthenticate_def)
  obtain r' resp where register: "Register ?r (sample_request ''user-1'') (\<lambda>_. []) ''id-1'' 0 = (r', Inr resp)"
    and new: "instances r' ''id-1'' \<noteq> None"
    by (simp add: Register_def Register_check_fresh sample_request_valid case_prod_beta)
  have "sv_registry (fst (serve_endpoint slib ?s ?e ?c1)) = r'"
    using serve_internal [of ?c1 RegisterAt slib ?s ?e] ep register
    by (simp add: guard internal_endpoint_def handle_Register_def case_prod_beta)
       (simp add: after_calls_def)
  with new reg have changed: "sv_registry (fst (serve slib ?s ?e ?c)) \<noteq> sv_registry ?s"
    by (auto simp: NewRegistry_def sample_server_def)
  have run: "serve slib ?s ?e ?c = (fst (serve slib ?s ?e ?c), snd (serve slib ?s ?e ?c))" by simp
  have jwt: "sv_jwt ?s = Some sample_service" by (simp add: sample_server_def)
  from registry_guarded [OF jwt run changed] obtain name where
    "ValidateServiceToken slib sample_service (GetHeader ?c ''X-Service-Token'') (clock ?e) = Inr name" by blast
  then have "ValidateServiceToken slib sample_service ''t3'' 0 = Inr ''user-1''"
    using tok valid by (simp add: sample_env_def)
  with changed run show ?thesis by (metis sample_sel(1))
qed

subsection \<open>Preflights\<close>

lemma response_headers_append [simp]:
  "response_headers (xs @ ys) = response_headers xs @ response_headers ys"
  by (induction xs) (auto simp: response_headers_def List.map_filter_simps split: option.split)

lemma CORS_headers:
  "(''Access-Control-Allow-Credentials'', ''true'') \<in> set (response_headers (CORS cfg c))"
  "GetHeader c ''Origin'' \<noteq> [] \<Longrightarrow> GetHeader c ''Origin'' \<noteq> ''*'' \<Longrightarrow>
   (''Access-Control-Allow-Origin'', GetHeader c ''Origin'') \<in> set (response_headers (CORS cfg c)) \<longleftrightarrow>
     ''*'' \<in> set (AllowedOrigins cfg) \<or> GetHeader c ''Origin'' \<in> set (AllowedOrigins cfg)"
  by (simp_all add: CORS_def Let_def isOriginAllowed_iff contains_iff response_headers_def
      List.map_filter_simps)

lemma TraceMiddleware_no_origin:
  "(''Access-Control-Allow-Origin'', v) \<notin>
     set (response_headers (fst (TraceMiddleware Extract Inject c tb sb)))"
  by (auto simp: TraceMiddleware_def Inject_def Let_def response_headers_def List.map_filter_simps)

lemma RequestID_no_origin:
  "(''Access-Control-Allow-Origin'', v) \<notin> set (response_headers (RequestID c x))"
  by (auto simp: RequestID_def Let_def response_headers_def List.map_filter_simps)

text \<open>The calls of a preflight: those of trace and request id, then those of CORS.\<close>

lemma front_preflight:
  assumes "front s e c = (l, calls, tc, on)" and "rq_Method c = ''OPTIONS''"
  obtains pre where "calls = pre @ CORS (cfg_CORS (sv_config s)) (after_calls c pre)" and "plain_calls pre"
    and "\<And>v. (''Access-Control-Allow-Origin'', v) \<notin> set (response_headers pre)"
proof -
  let ?t = "fst (TraceMiddleware Extract Inject c (trace_bytes e) (span_bytes e))"
  let ?r = "RequestID (after_calls c ?t) (request_uuid e)"
  have twice: "after_calls (after_calls c ?t) ?r = after_calls c (?t @ ?r)"
    by (simp add: after_calls_def apply_request_headers_append apply_keys_append)
  have "calls = (?t @ ?r) @ CORS (cfg_CORS (sv_config s)) (after_calls c (?t @ ?r))"
    unfolding twice [symmetric] using assms by (simp add: front_def case_prod_beta Let_def CORS_calls)
  moreover have "plain_calls (?t @ ?r)" by (simp add: middleware_calls)
  moreover have "(''Access-Control-Allow-Origin'', v) \<notin> set (response_headers (?t @ ?r))" for v
    using TraceMiddleware_no_origin RequestID_no_origin by simp
  ultimately show thesis using that by blast
qed

text \<open>
  C33. An \<^verbatim>\<open>OPTIONS\<close> request never reaches a service or an endpoint, whatever is registered: CORS
  answers it with 204, before the rate limit, and the registry, the balancer and the limiter
  stay as they are.  Its origin is allowed by name exactly when it is listed or the list has a
  star, and always with credentials.
\<close>

theorem preflights_never_forwarded:
  assumes run: "serve lib s e c = (s', answer)" and opt: "rq_Method c = ''OPTIONS''" and plain: "redirect e = None"
  shows "\<exists>calls. answer = Direct calls \<and> responses calls = [204] \<and>
    sv_registry s' = sv_registry s \<and> sv_balancer s' = sv_balancer s \<and> sv_limiter s' = sv_limiter s \<and>
    (''Access-Control-Allow-Credentials'', ''true'') \<in> set (response_headers calls) \<and>
    (GetHeader c ''Origin'' \<noteq> [] \<longrightarrow> GetHeader c ''Origin'' \<noteq> ''*'' \<longrightarrow>
      ((''Access-Control-Allow-Origin'', GetHeader c ''Origin'') \<in> set (response_headers calls) \<longleftrightarrow>
       ''*'' \<in> set (AllowedOrigins (cfg_CORS (sv_config s))) \<or>
       GetHeader c ''Origin'' \<in> set (AllowedOrigins (cfg_CORS (sv_config s)))))"
proof -
  obtain l calls tc on where f: "front s e c = (l, calls, tc, on)" by (metis prod_cases4)
  note front = front_calls [OF f]
  have off: "\<not> on" "l = sv_limiter s" "responses calls = [204]" using front opt by (auto split: if_splits)
  from front_preflight [OF f opt] obtain pre where
    calls: "calls = pre @ CORS (cfg_CORS (sv_config s)) (after_calls c pre)" and plain_pre: "plain_calls pre"
    and pre: "\<And>v. (''Access-Control-Allow-Origin'', v) \<notin> set (response_headers pre)" by blast
  have "GetHeader (after_calls c pre) ''Origin'' = GetHeader c ''Origin''" using plain_pre by simp
  then have cors: "(''Access-Control-Allow-Credentials'', ''true'') \<in> set (response_headers calls)"
    "GetHeader c ''Origin'' \<noteq> [] \<Longrightarrow> GetHeader c ''Origin'' \<noteq> ''*'' \<Longrightarrow>
     (''Access-Control-Allow-Origin'', GetHeader c ''Origin'') \<in> set (response_headers calls) \<longleftrightarrow>
       ''*'' \<in> set (AllowedOrigins (cfg_CORS (sv_config s))) \<or>
       GetHeader c ''Origin'' \<in> set (AllowedOrigins (cfg_CORS (sv_config s)))"
    using CORS_headers(1) [of "cfg_CORS (sv_config s)" "after_calls c pre"]
      CORS_headers(2) [of "after_calls c pre" "cfg_CORS (sv_config s)"] pre by (auto simp: calls)
  from run f off(1) plain have "answer = Direct calls" "sv_registry s' = sv_registry s"
    "sv_balancer s' = sv_balancer s" "sv_limiter s' = l"
    by (auto simp: serve_def export_request_def split: if_splits)
  with off cors show ?thesis by simp
qed

theorem preflights_never_forwarded_witness:
  "\<exists>calls. snd (serve slib (sample_server None (sample_registry (sample_config 30)))
      (sample_env (sample_registry (sample_config 30)))
      (sample_get ''OPTIONS'' ''/api/users'' [''Origin'' \<mapsto> [''https://evil.example'']])) = Direct calls \<and>
    (''Access-Control-Allow-Origin'', ''https://evil.example'') \<in> set (response_headers calls)"
proof -
  let ?r = "sample_registry (sample_config 30)"
  let ?s = "sample_server None ?r" and ?c = "sample_get ''OPTIONS'' ''/api/users'' [''Origin'' \<mapsto> [''https://evil.example'']]"
  have "canonical_key ''Origin'' = ''Origin''" by code_simp
  then have origin: "GetHeader ?c ''Origin'' = ''https://evil.example''"
    by (simp add: GetHeader_def header_get_def get_slice_def)
  have star: "''*'' \<in> set (AllowedOrigins (cfg_CORS (sv_config ?s)))"
    by (simp add: sample_server_def default_config_def)
  have run: "serve slib ?s (sample_env ?r) ?c = (fst (serve slib ?s (sample_env ?r) ?c), snd (serve slib ?s (sample_env ?r) ?c))"
    by simp
  from preflights_never_forwarded [OF run] origin star show ?thesis by auto
qed

end
