(* ===== verification/Gateway_Log.thy ===== *)
theory Gateway_Log
  imports Gateway_Props
begin

text \<open>
  The log beside the trace: the line a request writes carries the identifiers and the status of
  the span it leaves, so that a line can be found from a trace and back.
\<close>

subsection \<open>Who writes the keys of the trace\<close>

definition keeps_trace :: "gin_call list \<Rightarrow> bool" where
  "keeps_trace calls \<longleftrightarrow> (\<forall>k \<in> {''trace_id'', ''span_id''}. \<forall>v. SetKey k v \<notin> set calls)"

lemma keeps_trace_append [simp]: "keeps_trace (xs @ ys) \<longleftrightarrow> keeps_trace xs \<and> keeps_trace ys"
  by (auto simp: keeps_trace_def)

lemma apply_keys_other: "(\<forall>v. SetKey k v \<notin> set calls) \<Longrightarrow> apply_keys m calls k = m k"
  by (induction m calls rule: apply_keys.induct) auto

lemma keeps_trace_keys:
  "keeps_trace calls \<Longrightarrow> apply_keys m calls ''trace_id'' = m ''trace_id''"
  "keeps_trace calls \<Longrightarrow> apply_keys m calls ''span_id'' = m ''span_id''"
  by (auto simp: keeps_trace_def intro: apply_keys_other)

lemma keeps_trace_middleware:
  "keeps_trace (RequestID c x)" "keeps_trace (CORS cfg c)"
  "keeps_trace (snd (RateLimitMiddleware allow rcfg c2 l now))"
  by (auto simp: keeps_trace_def RequestID_def CORS_def RateLimitMiddleware_def limit_headers_def
      case_prod_beta Let_def split: sum.splits)

lemma keeps_trace_guard: "keeps_trace (internal_guard lib s e c)"
  by (auto simp: keeps_trace_def internal_guard_def ServiceAuthenticate_def Let_def
      split: option.splits sum.splits)

lemma keeps_trace_internal: "keeps_trace (snd (internal_endpoint ep e r c))"
proof -
  have "keeps_trace (snd (handle_Heartbeat b r now))" for b now
    by (auto simp: keeps_trace_def handle_Heartbeat_def bind_failed_def split: sum.split prod.split option.split)
  moreover have "keeps_trace (snd (handle_Deregister b r ks))" for b ks
    by (auto simp: keeps_trace_def handle_Deregister_def bind_failed_def split: sum.split prod.split option.split)
  moreover have "keeps_trace (handle_ListServices cd r ks ns)" for cd ks ns
    by (simp add: keeps_trace_def handle_ListServices_def Let_def)
  moreover have "keeps_trace (snd (handle_Register cd c b r ord x now))" for cd b ord x now
    by (auto simp: keeps_trace_def handle_Register_def bind_failed_def
        split: sum.split prod.split option.split ctx_value.split register_error.split)
  ultimately show ?thesis by (cases ep) (simp_all add: internal_endpoint_def)
qed

lemma keeps_trace_proxy:
  assumes "snd (Handle Select (proxy_auth lib s e) r co ks r2 c b) = Ret (Answered calls)"
  shows "keeps_trace calls"
  using assms
  by (auto simp: keeps_trace_def Handle_def proxy_auth_def AuthenticateRequest_def case_prod_beta Let_def
      split: outcome.splits option.splits if_splits sum.splits)

lemma bind_ServeHTTP: "bind_outcome x (ServeHTTP u) = Ret res \<Longrightarrow> x = Ret res"
  by (cases x) (auto dest: ServeHTTP_Ret)

lemma keeps_trace_endpoint:
  assumes "snd (serve_endpoint lib s e c) = Ret res"
  shows "keeps_trace (answer_calls e res)"
proof (cases res)
  case (Answered calls)
  have health: "keeps_trace (HealthHandler (startTime s) (cfg_Version (sv_config s)) (uptime_text e) (clock e))"
      "keeps_trace ReadyHandler"
    by (simp_all add: HealthHandler_def ReadyHandler_def keeps_trace_def)
  from Answered assms have "calls = internal_guard lib s e c \<or>
      (\<exists>ep. calls = internal_guard lib s e c @ snd (internal_endpoint ep e (sv_registry s)
         (after_calls c (internal_guard lib s e c)))) \<or>
      calls = HealthHandler (startTime s) (cfg_Version (sv_config s)) (uptime_text e) (clock e) \<or>
      calls = ReadyHandler \<or>
      snd (Handle Select (proxy_auth lib s e) (sv_registry s) (copy_order e) (match_order e)
        (later_registry e) c (sv_balancer s)) = Ret (Answered calls)"
    by (auto simp: serve_endpoint_def case_prod_beta Let_def dest: bind_ServeHTTP split: endpoint.splits if_splits)
  then have "keeps_trace calls"
    using keeps_trace_guard [of lib s e c] keeps_trace_internal health keeps_trace_proxy by auto
  with Answered show ?thesis by simp
next
  case (Forwarded out)
  then show ?thesis by (cases "upstream e") (simp_all add: keeps_trace_def upstream_error_def)
qed

lemma front_trace_ids:
  assumes "front s e c = (l, calls, tc, on)"
  shows "apply_keys m calls ''trace_id'' = Some (VString (TraceID tc)) \<and>
    apply_keys m calls ''span_id'' = Some (VString (SpanID tc))"
proof -
  obtain trace rest where calls: "calls = trace @ rest" and rest: "keeps_trace rest"
    and tm: "TraceMiddleware Extract Inject c (trace_bytes e) (span_bytes e) = (trace, tc)"
    using assms keeps_trace_middleware
    by (fastforce simp: front_def case_prod_beta Let_def split: option.splits if_splits)
  from tm have "apply_keys m trace ''trace_id'' = Some (VString (TraceID tc)) \<and>
      apply_keys m trace ''span_id'' = Some (VString (SpanID tc))"
    by (auto simp: TraceMiddleware_def Inject_def Let_def)
  with rest show ?thesis by (simp add: calls apply_keys_append keeps_trace_keys)
qed

subsection \<open>One line per span\<close>

definition names_span :: "log_line option \<Rightarrow> gin_context \<Rightarrow> trace_context \<Rightarrow> int \<Rightarrow> bool" where
  "names_span line c tc status \<longleftrightarrow>
     (if rq_Path c \<in> {''/health'', ''/ready''} then line = None
      else (case line of
              None \<Rightarrow> False
            | Some l \<Rightarrow>
                {(''status'', LInt status), (''path'', LString (rq_Path c)),
                 (''trace_id'', LAny (Some (VString (TraceID tc)))),
                 (''span_id'', LAny (Some (VString (SpanID tc))))} \<subseteq> set (log_attrs l)))"

lemma Logger_names_span:
  assumes "front s e c = (l, calls, tc, on)" and "keeps_trace after"
  shows "names_span (Logger c (after_calls c (calls @ after)) status elapsed errors) c tc status"
  using front_trace_ids [OF assms(1), of "ctx_Keys c"] assms(2)
  by (simp add: names_span_def Logger_def after_calls_def apply_keys_append keeps_trace_keys)

text \<open>
  C40. A request's line in the log and its span tell the same story: both carry the same trace and
  span ids, and the status the client saw; the two health paths leave a span but no line.  A
  panic is the exception: it is logged as an error by the recovery, and its span is lost.
\<close>

theorem log_line_names_span:
  assumes "serve lib s e c = (s', answer)"
  shows "case answer of
      Redirected code \<Rightarrow> request_log lib s e c = None \<and> sv_exporter s' = sv_exporter s
    | Recovered calls \<Rightarrow> sv_exporter s' = sv_exporter s \<and>
        (\<exists>line. request_log lib s e c = Some line \<and> at_level line = LevelError)
    | _ \<Rightarrow> \<exists>tc n. names_span (request_log lib s e c) c tc n \<and> sv_exporter s' =
        export_span (sv_exporter s) (request_span tc c (url_text e) (clock e) (ended e) n)"
proof (cases "if endpoint_of (rq_Method c) (rq_Path c) = NoRoute then redirect e else None")
  case (Some code)
  with assms show ?thesis by (auto simp: serve_def request_log_def)
next
  case None
  obtain l calls tc on where f: "front s e c = (l, calls, tc, on)" by (metis prod_cases4)
  obtain s2 out where run: "serve_endpoint lib (s\<lparr>sv_limiter := l\<rparr>) e (after_calls c calls) = (s2, out)"
    by fastforce
  note views = serve_views [OF None f run]
  have same: "sv_exporter s2 = sv_exporter s"
    using serve_endpoint_exporter [of lib "s\<lparr>sv_limiter := l\<rparr>" e "after_calls c calls"] by (simp add: run)
  consider (off) "\<not> on" | (panic) on "out = Panic" | (ret) res where on "out = Ret res" by (cases out) auto
  then show ?thesis
  proof cases
    case off
    have "keeps_trace []" by (simp add: keeps_trace_def)
    from Logger_names_span [OF f this, of "final_status calls" "elapsed_text e" None] show ?thesis
      using views(1,2) [OF off] assms by auto
  next
    case panic
    with views(3,4) same assms show ?thesis by (auto simp: recovery_line_def)
  next
    case ret
    have "keeps_trace (answer_calls e res)"
      using run ret(2) keeps_trace_endpoint by (metis snd_conv)
    from Logger_names_span [OF f this, of "result_status e calls res" "elapsed_text e" None] show ?thesis
      using views(5,6) [OF ret] same assms by (cases res) auto
  qed
qed

theorem log_line_names_span_witness:
  "\<exists>tc n. names_span (request_log slib (sample_server None (NewRegistry (sample_config 30)))
      (sample_env (NewRegistry (sample_config 30))) (sample_get ''OPTIONS'' ''/x'' Map.empty))
    (sample_get ''OPTIONS'' ''/x'' Map.empty) tc n"
proof -
  let ?r = "NewRegistry (sample_config 30)"
  let ?s = "sample_server None ?r" and ?e = "sample_env ?r" and ?c = "sample_get ''OPTIONS'' ''/x'' Map.empty"
  obtain s' answer where run: "serve slib ?s ?e ?c = (s', answer)" by fastforce
  obtain l calls tc on where f: "front ?s ?e ?c = (l, calls, tc, on)" by (metis prod_cases4)
  have off: "\<not> on" using front_calls(4) [OF f] by simp
  have "snd (serve slib ?s ?e ?c) = Direct calls" by (simp add: serve_def f off)
  with run have "answer = Direct calls" by simp
  with log_line_names_span [OF run] show ?thesis by auto
qed

end
