(* ===== verification/Gateway_Machine.thy ===== *)
theory Gateway_Machine
  imports Gateway_Props
begin

text \<open>
  The server as a state machine: requests, ticks of the cleanup, the exporter's goroutine and
  the shutdown, in any order.  The invariants of the parts hold together, and a registration
  through the API makes its routes reachable through the proxy.
\<close>

subsection \<open>Steps\<close>

text \<open>
  What the runtime guarantees of the environment of a request: a fresh UUID, as many random
  bytes as the buffers hold, and iteration orders that visit each key of the map once.
\<close>

definition env_ok :: "request_env \<Rightarrow> registry \<Rightarrow> bool" where
  "env_ok e r \<longleftrightarrow>
     instances r (instance_uuid e) = None \<and> length (trace_bytes e) = 16 \<and> length (span_bytes e) = 8 \<and>
     range_order (drop_order e) (routes r) \<and> range_order (copy_order e) (routes r) \<and>
     range_order (match_order e) (routes r)"

inductive server_step ::
    "('pub, 'priv) jwt_lib \<Rightarrow> ('pub, 'priv, 'db) server \<Rightarrow> ('pub, 'priv, 'db) server \<Rightarrow> bool"
  for lib where
  request: "env_ok e (sv_registry s) \<Longrightarrow> serve lib s e c = (s', answer) \<Longrightarrow> server_step lib s s'"
| tick: "range_order ks (instances (sv_registry s)) \<Longrightarrow>
    routes_orders (sv_registry s) ord \<Longrightarrow>
    server_step lib s (s\<lparr>sv_registry := cleanup (sv_registry s) now ks ord\<rparr>)"
| goroutine: "sv_exporter s = OTLPExporter ep name x \<Longrightarrow> goroutine_step x x' \<Longrightarrow>
    server_step lib s (s\<lparr>sv_exporter := OTLPExporter ep name x'\<rparr>)"
| start: "server_step lib s (fst (Run s listen_error))"
| shutdown: "Server_Shutdown s redis_close http_stop = Ret (s', err) \<Longrightarrow> server_step lib s s'"

inductive_cases server_stepE: "server_step lib s s'"

fun exporter_ok :: "span_exporter \<Rightarrow> bool" where
  "exporter_ok NoopExporter = True"
| "exporter_ok (OTLPExporter ep name x) = exporter_inv x"

definition server_inv :: "('pub, 'priv, 'db) server \<Rightarrow> bool" where
  "server_inv s \<longleftrightarrow> reg_inv (sv_registry s) \<and> (\<forall>l. sv_limiter s = Some l \<longrightarrow> any_ready l) \<and>
     exporter_ok (sv_exporter s) \<and> sv_auth s = sv_jwt s"

subsection \<open>Every step keeps the invariant\<close>

fun_cases exporter_shutdown_RetE: "exporter_shutdown x = Ret y"
fun_cases bind_outcome_RetE: "bind_outcome x f = Ret y"

lemma exporter_ok_export: "exporter_ok x \<Longrightarrow> exporter_ok (export_span x sp)"
  by (cases x) (simp_all add: inv_Export)

lemma internal_endpoint_inv:
  assumes "reg_inv r" and "env_ok e r"
  shows "reg_inv (fst (internal_endpoint ep e r c))"
proof -
  have "reg_inv (fst (handle_Heartbeat b r now))" for b now
    using assms(1) reg_inv_Heartbeat [of r _ now] heartbeat_change [of b r now]
    by (cases "fst (handle_Heartbeat b r now) = r") (auto, metis fst_conv)
  moreover have "reg_inv (fst (handle_Deregister b r (drop_order e)))" for b
    using assms reg_inv_Deregister [of r "drop_order e"] deregister_change [of b r "drop_order e"]
    by (cases "fst (handle_Deregister b r (drop_order e)) = r") (auto simp: env_ok_def, metis fst_conv)
  moreover have "reg_inv (fst (handle_Register cd c b r ord (instance_uuid e) now))" for cd b ord now
    using assms reg_inv_Register [of r "instance_uuid e" _ ord now]
      handle_Register_changes [of cd c b r ord "instance_uuid e" now "fst (handle_Register cd c b r ord (instance_uuid e) now)"]
    by (cases "fst (handle_Register cd c b r ord (instance_uuid e) now) = r")
       (auto simp: env_ok_def, metis fst_conv prod.collapse)
  ultimately show ?thesis using assms(1) by (cases ep) (simp_all add: internal_endpoint_def)
qed

lemma serve_endpoint_frame [server_frame]:
  "sv_limiter (fst (serve_endpoint lib s e c)) = sv_limiter s"
  "sv_auth (fst (serve_endpoint lib s e c)) = sv_auth s"
  "sv_jwt (fst (serve_endpoint lib s e c)) = sv_jwt s"
  by (simp_all add: serve_endpoint_def case_prod_beta Let_def split: endpoint.split)

lemma serve_endpoint_inv:
  assumes "reg_inv (sv_registry s)" and "env_ok e (sv_registry s)"
  shows "reg_inv (sv_registry (fst (serve_endpoint lib s e c)))"
  using assms internal_endpoint_inv [OF assms] serve_endpoint_registry [of lib s e c] by metis

lemma serve_inv:
  assumes inv: "server_inv s" and env: "env_ok e (sv_registry s)" and run: "serve lib s e c = (s', answer)"
  shows "server_inv s'"
proof -
  obtain l calls tc on where f: "front s e c = (l, calls, tc, on)" by (metis prod_cases4)
  have ready: "any_ready m" if "l = Some m" for m
    using front_ready [OF f _ that] inv by (simp add: server_inv_def)
  let ?fin = "serve_endpoint lib (s\<lparr>sv_limiter := l\<rparr>) e (after_calls c calls)"
  have reg: "reg_inv (sv_registry (fst ?fin))"
    using inv env by (intro serve_endpoint_inv) (simp_all add: server_inv_def)
  obtain s2 res where e: "?fin = (s2, res)" by fastforce
  have frame: "sv_limiter s2 = l" "sv_auth s2 = sv_auth s" "sv_jwt s2 = sv_jwt s" "sv_exporter s2 = sv_exporter s"
    using server_frame [of lib "s\<lparr>sv_limiter := l\<rparr>" e "after_calls c calls"] by (simp_all add: e)
  have "exporter_ok (export_span (sv_exporter s) sp)" for sp
    using inv exporter_ok_export by (auto simp: server_inv_def)
  with run f e inv ready reg frame show ?thesis
    by (auto simp: serve_def server_inv_def export_request_def Let_def
        split: option.splits if_splits outcome.splits)
qed

lemma server_step_inv: "server_step lib s s' \<Longrightarrow> server_inv s \<Longrightarrow> server_inv s'"
proof (induction rule: server_step.induct)
  case (request e s c s' answer)
  show ?case by (rule serve_inv [OF request.prems request.hyps])
next
  case (tick s ks ord now)
  then show ?case by (simp add: server_inv_def reg_inv_cleanup)
next
  case (goroutine s ep name x x')
  have "exporter_inv x'"
    using goroutine_step_inv [OF goroutine(2)] goroutine(1) goroutine.prems by (simp add: server_inv_def)
  with goroutine.prems show ?case by (simp add: server_inv_def)
next
  case (start s listen_error)
  then show ?case by (simp add: server_inv_def Run_def)
next
  case (shutdown s redis_close http_stop s' err)
  then obtain r x where r: "Stop (sv_registry s) = Ret r" and x: "exporter_shutdown (sv_exporter s) = Ret x"
    and s': "s' = s\<lparr>sv_registry := r, sv_exporter := x\<rparr>"
    by (cases "Stop (sv_registry s)"; cases "exporter_shutdown (sv_exporter s)")
       (auto simp: Server_Shutdown_def Let_def split: if_splits)
  have "exporter_ok (sv_exporter s)" using shutdown.prems by (simp add: server_inv_def)
  with x have "exporter_ok x"
    by (elim exporter_shutdown_RetE) (auto intro: exporter_step_inv [OF do_shutdown] elim!: bind_outcome_RetE [OF sym])
  moreover have "reg_inv r" using r shutdown.prems by (auto dest!: Stop_sel simp: reg_inv_stopped server_inv_def)
  ultimately show ?case using shutdown.prems by (simp add: server_inv_def s')
qed

interpretation server_machine: invariant_system "server_step lib" server_inv
  by unfold_locales (rule server_step_inv)

subsection \<open>Properties of the whole server\<close>

lemma NewServer_inv:
  assumes "NewServer lib keys drv cfg now = Inr s"
    and "\<And>url c db. parse_url drv url = Inr (c, db) \<Longrightarrow> counts_members (NewLimiter c)"
  shows "server_inv s"
  using NewServer_parts [OF assms(1)] NewServer_limiter_ready [OF assms(1) _ assms(2)] reg_inv_NewRegistry
  by (auto simp: server_inv_def NewExporter_def exporter_inv_new)

text \<open>
  C12. Whatever runs on the server after it was built, in any order -- requests of any kind, cleanup
  ticks, the exporter's goroutine, a shutdown --, every route has a live instance behind it, the
  limiter stays usable, and the exporter still holds or has flushed every span it accepted.
\<close>

theorem server_parts_stay_sound:
  assumes built: "NewServer lib keys drv cfg now = Inr s0"
    and redis: "\<forall>url c db. parse_url drv url = Inr (c, db) \<longrightarrow> counts_members (NewLimiter c)"
    and run: "(server_step lib)\<^sup>*\<^sup>* s0 s"
  shows "(\<forall>k entry. routes (sv_registry s) k = Some entry \<longrightarrow>
        (\<exists>x i. instances (sv_registry s) x = Some i \<and> si_ServiceName i = re_ServiceName entry)) \<and>
    (\<forall>l. sv_limiter s = Some l \<longrightarrow> any_ready l) \<and>
    (\<forall>ep name x. sv_exporter s = OTLPExporter ep name x \<longrightarrow>
        concat (flushed x) @ batch x @ chan x = accepted_spans x)"
proof -
  have "server_inv s0" using NewServer_inv [OF built] redis by blast
  with run have inv: "server_inv s" by (rule server_machine.run_keeps)
  then have reg: "reg_inv (sv_registry s)" by (simp add: server_inv_def)
  have "\<exists>x i. instances (sv_registry s) x = Some i \<and> si_ServiceName i = re_ServiceName entry"
    if "routes (sv_registry s) k = Some entry" for k entry
    using reg_invD(5) [OF reg that] reg_inv_services_dom [OF reg] by blast
  moreover have "concat (flushed x) @ batch x @ chan x = accepted_spans x"
    if "sv_exporter s = OTLPExporter ep name x" for ep name x
    using inv that by (simp add: server_inv_def exporter_inv_def)
  ultimately show ?thesis using inv by (simp add: server_inv_def)
qed

definition no_keys :: "(nat, nat) key_lib" where
  "no_keys =
     \<lparr>pem_Decode = (\<lambda>_. None), ParsePKIXPublicKey = (\<lambda>_. Inl []), ParsePKCS1PublicKey = (\<lambda>_. Inl []),
      ParsePKCS8PrivateKey = (\<lambda>_. Inl []), ParsePKCS1PrivateKey = (\<lambda>_. Inl [])\<rparr>"

definition no_redis :: "unit redis_driver" where
  "no_redis = \<lparr>parse_url = (\<lambda>_. Inl ''no server''), ping = (\<lambda>_. None)\<rparr>"

theorem server_parts_stay_sound_witness:
  "\<exists>s0 s. NewServer slib no_keys no_redis ((default_config [])\<lparr>cfg_RateLimitEnabled := True\<rparr>) 0 = Inr s0 \<and>
     server_step slib s0 s \<and> (\<exists>l. sv_limiter s = Some l \<and> any_ready l)"
proof -
  let ?cfg = "(default_config [])\<lparr>cfg_RateLimitEnabled := True\<rparr>"
  obtain s0 where built: "NewServer slib no_keys no_redis ?cfg 0 = Inr s0"
    and limiter: "sv_limiter s0 = Some (InMemory NewInMemoryLimiter)"
    by (simp add: NewServer_def new_limiter_def default_config_def)
  have step: "server_step slib s0 (fst (Run s0 None))" by (rule start)
  have redis: "\<forall>url c db. parse_url no_redis url = Inr (c, db) \<longrightarrow> counts_members (NewLimiter c)"
    by (simp add: no_redis_def)
  have "sv_limiter (fst (Run s0 None)) = Some (InMemory NewInMemoryLimiter)" using limiter by (simp add: Run_def)
  with server_parts_stay_sound [OF built redis r_into_rtranclp, OF step] built step show ?thesis by blast
qed

lemma MatchRoute_exact:
  assumes "range_order co (routes r)" and "range_order ks (routes r)" and "routes r (m @ '':'' @ p) = Some entry"
  shows "MatchRoute r m p co ks = Ret (Some \<lparr>mr_Entry = entry, mr_Params = None\<rparr>)"
  using MatchRoute_found [OF assms(1,2), of m p] assms(3) by auto

lemma Handle_open:
  assumes match: "MatchRoute r (rq_Method c) (rq_Path c) co ks = Ret (Some \<lparr>mr_Entry = entry, mr_Params = params\<rparr>)"
    and pass: "\<And>a. auth = Some a \<Longrightarrow> a c entry (re_ServiceName entry) = ([], True)"
    and small: "\<And>svc. length (GetHealthyInstances r2 svc) < 2 ^ 63"
    and healthy: "GetHealthyInstances r2 (re_ServiceName entry) \<noteq> []"
  shows "\<exists>inst \<in> set (GetHealthyInstances r2 (re_ServiceName entry)).
    snd (Handle Select auth r co ks r2 c b) =
      Ret (Forwarded (Director c (re_ServiceName entry) inst (clone_request c (rq_Header c))))"
  using rr_proxy.Handle_answer [OF match small, of auth b] pass healthy
  by (cases auth) (auto simp: Let_def)

lemma accepted_registration:
  assumes "reg_inv r" and "instances r x = None" and "Register r req ord x now = (r', Inr resp)"
    and "rt \<in> set (rr_Routes req)"
  obtains rt' where "rt' \<in> set (rr_Routes req)" and "Key rt' (rr_BasePath req) = Key rt (rr_BasePath req)"
    and "routes r' (Method rt @ '':'' @ FullPath rt (rr_BasePath req)) =
      Some \<lparr>re_ServiceName = rr_ServiceName req, re_BasePath = rr_BasePath req, re_Route = rt', re_RegisteredAt = now\<rparr>"
    and "GetHealthyInstances r' (rr_ServiceName req) \<noteq> []" and "reg_inv r'"
proof -
  from assms(3) obtain req' where ok: "Register_check r req ord = Inr req'"
    and r': "r' = fst (Register_commit r req' x now)"
    by (rule Register_ok)
  note same = Validate_same_request [OF Register_check_ok(1) [OF ok]]
  have "new_instance req' x now \<in> set (GetHealthyInstances r' (rr_ServiceName req))"
    using after_commit_healthy [OF assms(1,2), of req' now] same by (simp add: r')
  then have healthy: "GetHealthyInstances r' (rr_ServiceName req) \<noteq> []" by auto
  have "reg_inv r'" using reg_inv_commit [OF assms(1,2), of req' now] by (simp add: r')
  moreover define twins where "twins = filter (\<lambda>rt'. Key rt' (rr_BasePath req) = Key rt (rr_BasePath req)) (rr_Routes req)"
  have "twins \<noteq> []" using assms(4) by (auto simp: twins_def filter_empty_conv)
  then have "last twins \<in> set twins" by simp
  then have "last twins \<in> set (rr_Routes req)" "Key (last twins) (rr_BasePath req) = Key rt (rr_BasePath req)"
    by (simp_all add: twins_def)
  moreover have "routes r' (Key rt (rr_BasePath req)) = Some (entry_of req' now (last twins))"
    using register_routes_last [of rt "rr_Routes req'" req' now "routes r" "[]"] assms(4) same
    by (simp add: r' twins_def)
  ultimately show thesis using that healthy same by (simp add: Key_def entry_of_def)
qed

lemma handle_Register_created:
  assumes "201 \<in> set (responses (snd (handle_Register cd c bound r ord x now)))"
  shows "\<exists>req resp. bound = Inr req \<and>
    Register r req ord x now = (fst (handle_Register cd c bound r ord x now), Inr resp)"
  using assms
  by (auto simp: handle_Register_def bind_failed_def
      split: sum.splits if_splits prod.splits register_error.splits option.splits ctx_value.splits)

lemma serve_frame:
  "sv_auth (fst (serve lib s e c)) = sv_auth s"
  "sv_limiter s = None \<Longrightarrow> sv_limiter (fst (serve lib s e c)) = None"
proof -
  obtain l calls tc on where f: "front s e c = (l, calls, tc, on)" by (metis prod_cases4)
  obtain s2 res where r: "serve_endpoint lib (s\<lparr>sv_limiter := l\<rparr>) e (after_calls c calls) = (s2, res)" by fastforce
  note frame = serve_endpoint_frame [of lib "s\<lparr>sv_limiter := l\<rparr>" e "after_calls c calls", unfolded r]
  show "sv_auth (fst (serve lib s e c)) = sv_auth s"
    using frame by (simp add: serve_def export_request_def f r Let_def split: option.split outcome.split)
  show "sv_limiter (fst (serve lib s e c)) = None" if "sv_limiter s = None"
  proof -
    have l: "l = None" using front_calls(4) [OF f that] by simp
    show ?thesis
      using frame(1) that
      by (simp add: l serve_def export_request_def f r [unfolded l] Let_def split: option.split outcome.split)
  qed
qed

text \<open>The answer of the registration endpoint, through the whole chain.\<close>

lemma serve_created:
  assumes post: "rq_Method c = ''POST''" "rq_Path c = ''/internal/registry/register''"
    and run: "serve lib s e c = (s', Direct calls)" and created: "responses calls = [201]"
  obtains req resp where "register_body e = Inr req"
    and "Register (sv_registry s) req (check_orders e) (instance_uuid e) (clock e) = (sv_registry s', Inr resp)"
proof -
  have ep: "endpoint_of (rq_Method c) (rq_Path c) = RegisterAt" by (simp add: endpoint_of_internal post)
  then have plain: "(if endpoint_of (rq_Method c) (rq_Path c) = NoRoute then redirect e else None) = None" by simp
  obtain l pre tc on where f: "front s e c = (l, pre, tc, on)" by (metis prod_cases4)
  let ?s = "s\<lparr>sv_limiter := l\<rparr>"
  have on
  proof (rule ccontr)
    assume off: "\<not> on"
    then have "snd (serve lib s e c) = Direct pre" using plain by (simp add: serve_def f)
    with run created front_calls(2) [OF f] off post show False by simp
  qed
  with f have f: "front s e c = (l, pre, tc, True)" by simp
  note silent = front_calls(2) [OF f, simplified]
  note reg = serve_on(1) [OF plain f, of lib] and answer = serve_on(3) [OF plain f, of lib]
  let ?c = "after_calls c pre"
  let ?guard = "internal_guard lib ?s e ?c"
  let ?h = "handle_Register (json_codec e) (after_calls ?c ?guard) (register_body e) (sv_registry s)
      (check_orders e) (instance_uuid e) (clock e)"
  have pass: "passes ?guard"
  proof (rule ccontr)
    assume "\<not> passes ?guard"
    then have "snd (serve_endpoint lib ?s e ?c) = Ret (Answered ?guard)" and "responses ?guard = [401]"
      using ep guard_cases [of lib ?s e ?c] by (simp_all add: serve_endpoint_def Let_def)
    with answer run created silent show False by simp
  qed
  have end_run: "serve_endpoint lib ?s e ?c = (?s\<lparr>sv_registry := fst ?h\<rparr>, Ret (Answered (?guard @ snd ?h)))"
    using serve_internal [of ?c RegisterAt lib ?s e] ep pass
    by (simp add: internal_endpoint_def case_prod_beta)
  have "responses (snd ?h) = [201]"
    using end_run answer run created silent guard_cases [of lib ?s e ?c] pass by simp
  then have "201 \<in> set (responses (snd ?h))" by simp
  from handle_Register_created [OF this] that reg run end_run show thesis by auto
qed

text \<open>Without a key, a registration that the registry accepts is answered with 201.\<close>

lemma front_keys:
  "apply_keys m (fst (TraceMiddleware Extract Inject c tb sb)) ''service_name'' = m ''service_name''"
  "apply_keys m (RequestID c x) ''service_name'' = m ''service_name''"
  "apply_keys m (CORS cfg c) ''service_name'' = m ''service_name''"
  by (simp_all add: TraceMiddleware_def Inject_def RequestID_def CORS_def Let_def)

lemma front_service_name:
  assumes "front s e c = (l, calls, tc, on)" and "sv_limiter s = None"
  shows "apply_keys m calls ''service_name'' = m ''service_name''"
proof -
  have "\<exists>c1 c2. calls = fst (TraceMiddleware Extract Inject c (trace_bytes e) (span_bytes e)) @
      RequestID c1 (request_uuid e) @ CORS (cfg_CORS (sv_config s)) c2"
    using assms by (auto simp: front_def case_prod_beta Let_def split: if_splits)
  then show ?thesis by (auto simp: apply_keys_append front_keys)
qed

lemma open_registration:
  assumes open_to_all: "sv_jwt s = None" "sv_limiter s = None" "ctx_Keys c ''service_name'' = None"
    and post: "rq_Method c = ''POST''" "rq_Path c = ''/internal/registry/register''"
    and body: "register_body e = Inr req"
    and reg: "Register (sv_registry s) req (check_orders e) (instance_uuid e) (clock e) = (r', Inr resp)"
  shows "\<exists>s' calls. serve lib s e c = (s', Direct calls) \<and> responses calls = [201] \<and> sv_registry s' = r'"
proof -
  have ep: "endpoint_of (rq_Method c) (rq_Path c) = RegisterAt" by (simp add: endpoint_of_internal post)
  then have noredirect: "endpoint_of (rq_Method c) (rq_Path c) = NoRoute \<Longrightarrow> redirect e = None" by simp
  have "rq_Method c \<noteq> ''OPTIONS''" using post by simp
  from serve_past_front [OF open_to_all(2) this noredirect, of lib] obtain pre tc where
    f: "front s e c = (None, pre, tc, True)" and silent: "responses pre = []"
    and end_reg: "sv_registry (fst (serve lib s e c)) = sv_registry (fst (serve_endpoint lib s e (after_calls c pre)))"
    and answer: "snd (serve lib s e c) =
      (case snd (serve_endpoint lib s e (after_calls c pre)) of
         Panic \<Rightarrow> Recovered (pre @ recovery_calls)
       | Ret (Answered answer) \<Rightarrow> Direct (pre @ answer)
       | Ret (Forwarded out) \<Rightarrow> Proxied (pre @ upstream_calls (upstream e)) out)" by blast
  have guard: "internal_guard lib s e (after_calls c pre) = [Next]" by (simp add: internal_guard_def open_to_all)
  have key: "ctx_Keys (after_calls (after_calls c pre) [Next]) ''service_name'' = None"
    using front_service_name [OF f open_to_all(2)] open_to_all(3) by (simp add: after_calls_def)
  have "handle_Register (json_codec e) (after_calls (after_calls c pre) [Next]) (register_body e) (sv_registry s)
      (check_orders e) (instance_uuid e) (clock e) = (r', [JSON 201 (response_json resp)])"
    by (simp add: handle_Register_def key body reg)
  then have "serve_endpoint lib s e (after_calls c pre) =
      (s\<lparr>sv_registry := r'\<rparr>, Ret (Answered [Next, JSON 201 (response_json resp)]))"
    using serve_internal [of "after_calls c pre" RegisterAt lib s e] ep
    by (simp add: guard internal_endpoint_def)
  with end_reg answer silent show ?thesis
    by (intro exI [of _ "fst (serve lib s e c)"] exI [of _ "pre @ [Next, JSON 201 (response_json resp)]"])
       (simp add: prod_eq_iff)
qed

text \<open>A request the endpoint forwards, whatever the front of the chain has set.\<close>

lemma serve_forwarded:
  assumes "rq_Method c \<noteq> ''OPTIONS''" and "redirect e = None"
    and fwd: "\<And>l pre. \<exists>inst \<in> insts. snd (serve_endpoint lib (s\<lparr>sv_limiter := l\<rparr>) e (after_calls c pre)) =
      Ret (Forwarded (Director (after_calls c pre) svc inst
        (clone_request (after_calls c pre) (rq_Header (after_calls c pre)))))"
  shows "(\<exists>calls out. snd (serve lib s e c) = Proxied calls out \<and>
      header_get (out_Header out) ''X-Forwarded-Service'' = svc \<and> (\<exists>inst \<in> insts. out_Host out = Address inst)) \<or>
    sv_limiter s \<noteq> None \<and> (\<exists>calls. snd (serve lib s e c) = Direct calls \<and> responses calls = [429])"
proof -
  have plain: "(if endpoint_of (rq_Method c) (rq_Path c) = NoRoute then redirect e else None) = None"
    using assms(2) by simp
  obtain l pre tc on where f: "front s e c = (l, pre, tc, on)" by (metis prod_cases4)
  show ?thesis
  proof (cases on)
    case False
    with f plain have "snd (serve lib s e c) = Direct pre" by (simp add: serve_def)
    with False front_calls(2,4) [OF f] assms(1) show ?thesis by auto
  next
    case True
    with f have "front s e c = (l, pre, tc, True)" by simp
    note answer = serve_on(3) [OF plain this, of lib]
    from fwd obtain inst where "inst \<in> insts"
      and "snd (serve_endpoint lib (s\<lparr>sv_limiter := l\<rparr>) e (after_calls c pre)) =
        Ret (Forwarded (Director (after_calls c pre) svc inst
          (clone_request (after_calls c pre) (rq_Header (after_calls c pre)))))" by blast
    with answer have "snd (serve lib s e c) = Proxied (pre @ upstream_calls (upstream e))
        (Director (after_calls c pre) svc inst
          (clone_request (after_calls c pre) (rq_Header (after_calls c pre))))" by simp
    moreover have "header_get (out_Header (Director c' svc inst (clone_request c' h))) ''X-Forwarded-Service'' = svc"
      "out_Host (Director c' svc inst (clone_request c' h)) = Address inst" for c' h
      by (simp_all add: header_get_def canonical_fixed Director_fixed Director_request)
    ultimately show ?thesis using \<open>inst \<in> insts\<close> by blast
  qed
qed

text \<open>
  C6. Registration is what makes a service reachable.  Let the API accept a registration with 201, and
  let one of its routes be open: no key is configured, or every listed route of the same method and
  path is public.  Then the next request for that route, before anything else changes the registry, is
  forwarded to a healthy instance of the service, named in the headers -- or refused with 429 by the
  rate limiter, when there is one.  The route must not be one of method \<^verbatim>\<open>OPTIONS\<close>, which is never
  forwarded, nor one of the gateway's own paths; gin must not redirect the request, and the body
  of the upstream must not break off.
\<close>

theorem registered_route_is_served:
  assumes inv: "reg_inv (sv_registry s)" "instances (sv_registry s) (instance_uuid e) = None"
    and post: "rq_Method c = ''POST''" "rq_Path c = ''/internal/registry/register''"
    and run: "serve lib s e c = (s', Direct calls)" and created: "responses calls = [201]"
    and body: "register_body e = Inr req" and route: "rt \<in> set (rr_Routes req)"
    and open_to_all: "sv_auth s = None \<or>
      (\<forall>rt' \<in> set (rr_Routes req). Key rt' (rr_BasePath req) = Key rt (rr_BasePath req) \<longrightarrow> Public rt')"
    and get: "rq_Method c2 = Method rt" "rq_Path c2 = FullPath rt (rr_BasePath req)"
    and own: "Method rt \<noteq> ''OPTIONS''" "endpoint_of (Method rt) (FullPath rt (rr_BasePath req)) = NoRoute"
      "redirect e2 = None" "\<forall>n. upstream e2 \<noteq> BodyAborted n"
    and orders: "range_order (copy_order e2) (routes (sv_registry s'))"
      "range_order (match_order e2) (routes (sv_registry s'))"
    and quiet: "later_registry e2 = sv_registry s'" "\<forall>svc. length (GetHealthyInstances (sv_registry s') svc) < 2 ^ 63"
  shows "(\<exists>calls2 out. snd (serve lib s' e2 c2) = Proxied calls2 out \<and>
      header_get (out_Header out) ''X-Forwarded-Service'' = rr_ServiceName req \<and>
      (\<exists>inst \<in> set (GetHealthyInstances (sv_registry s') (rr_ServiceName req)). out_Host out = Address inst)) \<or>
    sv_limiter s \<noteq> None \<and> (\<exists>calls2. snd (serve lib s' e2 c2) = Direct calls2 \<and> responses calls2 = [429])"
proof -
  from serve_created [OF post run created] body obtain resp where
    "Register (sv_registry s) req (check_orders e) (instance_uuid e) (clock e) = (sv_registry s', Inr resp)" by auto
  from accepted_registration [OF inv this route] obtain rt' where rt': "rt' \<in> set (rr_Routes req)"
      "Key rt' (rr_BasePath req) = Key rt (rr_BasePath req)"
    and hit: "routes (sv_registry s') (Method rt @ '':'' @ FullPath rt (rr_BasePath req)) =
      Some \<lparr>re_ServiceName = rr_ServiceName req, re_BasePath = rr_BasePath req, re_Route = rt',
            re_RegisteredAt = clock e\<rparr>" (is "_ = Some ?entry")
    and healthy: "GetHealthyInstances (sv_registry s') (rr_ServiceName req) \<noteq> []" by blast
  have s': "sv_auth s' = sv_auth s" "sv_limiter s = None \<Longrightarrow> sv_limiter s' = None"
    using serve_frame(1) [of lib s e c] serve_frame(2) [of s lib e c] run by simp_all
  have "\<exists>inst \<in> set (GetHealthyInstances (sv_registry s') (rr_ServiceName req)).
      snd (serve_endpoint lib (s'\<lparr>sv_limiter := l\<rparr>) e2 (after_calls c2 pre)) =
        Ret (Forwarded (Director (after_calls c2 pre) (rr_ServiceName req) inst
          (clone_request (after_calls c2 pre) (rq_Header (after_calls c2 pre)))))" for l pre
  proof -
    let ?c = "after_calls c2 pre" and ?s = "s'\<lparr>sv_limiter := l\<rparr>"
    have match: "MatchRoute (sv_registry s') (rq_Method ?c) (rq_Path ?c) (copy_order e2) (match_order e2) =
        Ret (Some \<lparr>mr_Entry = ?entry, mr_Params = None\<rparr>)"
      using MatchRoute_exact [OF orders hit] get by simp
    have pass: "a ?c ?entry (re_ServiceName ?entry) = ([], True)" if "proxy_auth lib ?s e2 = Some a" for a
      using open_to_all rt' that by (auto simp: proxy_auth_def s' AuthenticateRequest_def)
    have "endpoint_of (rq_Method ?c) (rq_Path ?c) = NoRoute" using get own by simp
    then show ?thesis
      using Handle_open [where c = ?c and auth = "proxy_auth lib ?s e2" and ?r2.0 = "later_registry e2"
          and b = "sv_balancer s'", OF match] pass quiet healthy own(4)
      by (auto simp: serve_endpoint_def case_prod_beta ServeHTTP_forwarded)
  qed
  from serve_forwarded [OF _ own(3) this] get own(1) s'(2) show ?thesis by auto
qed

theorem registered_route_is_served_witness:
  "\<exists>s' calls calls2 out.
     serve slib (sample_server None (NewRegistry (sample_config 30))) (sample_env (NewRegistry (sample_config 30)))
       (sample_get ''POST'' ''/internal/registry/register'' Map.empty) = (s', Direct calls) \<and>
     snd (serve slib s' ((sample_env (sv_registry s'))\<lparr>copy_order := [''GET:/api/users''], match_order := [''GET:/api/users'']\<rparr>)
       (sample_get ''GET'' ''/api/users'' Map.empty)) = Proxied calls2 out \<and>
     header_get (out_Header out) ''X-Forwarded-Service'' = ''user-1''"
proof -
  let ?r = "NewRegistry (sample_config 30)" and ?req = "sample_request ''user-1''"
  let ?s = "sample_server None ?r" and ?e = "sample_env ?r"
  let ?c = "sample_get ''POST'' ''/internal/registry/register'' Map.empty"
  let ?r' = "fst (Register_commit ?r ?req ''id-1'' 0)"
  have reg: "Register ?r ?req (\<lambda>_. []) ''id-1'' 0 = (?r', Inr (snd (Register_commit ?r ?req ''id-1'' 0)))"
    by (simp add: Register_def Register_check_fresh sample_request_valid case_prod_beta)
  obtain s' calls where run: "serve slib ?s ?e ?c = (s', Direct calls)" and ok: "responses calls = [201]"
    and s': "sv_registry s' = ?r'"
  proof -
    have "\<exists>s' calls. serve slib ?s ?e ?c = (s', Direct calls) \<and> responses calls = [201] \<and> sv_registry s' = ?r'"
      by (rule open_registration [where req = ?req]) (simp_all add: reg)
    then show thesis using that by blast
  qed
  let ?e2 = "(sample_env (sv_registry s'))\<lparr>copy_order := [''GET:/api/users''], match_order := [''GET:/api/users'']\<rparr>"
  let ?c2 = "sample_get ''GET'' ''/api/users'' Map.empty"
  have routes: "dom (routes ?r') = {''GET:/api/users''}" "''GET:/api/users'' = sample_key"
    by (auto simp: Register_commit_def NewRegistry_def Let_def Key_def FullPath_def sample_route_def)
  have orders: "range_order (copy_order ?e2) (routes (sv_registry s'))"
    "range_order (match_order ?e2) (routes (sv_registry s'))" using routes(1) by (simp_all add: range_order_def s')
  have "services ?r' = [''user-1'' \<mapsto> [''id-1'']]" by (simp add: NewRegistry_def)
  then have "get_slice (services ?r') svc = (if svc = ''user-1'' then [''id-1''] else [])" for svc
    by (simp add: get_slice_def)
  then have small: "\<forall>svc. length (GetHealthyInstances (sv_registry s') svc) < 2 ^ 63"
    by (simp add: s' GetHealthyInstances_def)
  have inv: "reg_inv (sv_registry ?s)" "instances (sv_registry ?s) (instance_uuid ?e) = None"
    by (simp_all add: reg_inv_NewRegistry) (simp add: NewRegistry_def)
  have route: "sample_route \<in> set (rr_Routes ?req)" by simp
  have path: "FullPath sample_route ''/api'' = ''/api/users''" "Method sample_route = ''GET''"
    by (simp_all add: sample_route_def FullPath_def)
  have intact: "\<forall>n. upstream ?e2 \<noteq> BodyAborted n" by (simp add: sample_env_def)
  have "(\<exists>calls2 out. snd (serve slib s' ?e2 ?c2) = Proxied calls2 out \<and>
      header_get (out_Header out) ''X-Forwarded-Service'' = rr_ServiceName ?req \<and>
      (\<exists>inst \<in> set (GetHealthyInstances (sv_registry s') (rr_ServiceName ?req)). out_Host out = Address inst)) \<or>
    sv_limiter ?s \<noteq> None \<and> (\<exists>calls2. snd (serve slib s' ?e2 ?c2) = Direct calls2 \<and> responses calls2 = [429])"
    by (rule registered_route_is_served [OF inv _ _ run ok _ route _ _ _ _ _ _ intact orders _ small])
       (simp_all add: path endpoint_of_def)
  with run show ?thesis by auto
qed

end
