(* ===== verification/Gateway_Spans.thy ===== *)
theory Gateway_Spans
  imports Gateway_Machine
begin

text \<open>
  Two invariants that follow the exporter through the whole server: which spans it holds, and
  when its channel \<^verbatim>\<open>done\<close> is closed.  With them what reaches the collector is well-formed, and a
  shutdown after a start works exactly once.
\<close>

subsection \<open>The spans of the server\<close>

fun exporter_target :: "span_exporter \<Rightarrow> (string \<times> string) option" where
  "exporter_target NoopExporter = None"
| "exporter_target (OTLPExporter ep name x) = Some (ep, name)"

fun exporter_accepted :: "span_exporter \<Rightarrow> span_data list" where
  "exporter_accepted NoopExporter = []"
| "exporter_accepted (OTLPExporter ep name x) = accepted_spans x"

fun exporter_closed :: "span_exporter \<Rightarrow> bool" where
  "exporter_closed NoopExporter = False"
| "exporter_closed (OTLPExporter ep name x) = done_closed x"

lemma export_span_frame [server_frame]:
  "exporter_target (export_span x sp) = exporter_target x"
  "exporter_closed (export_span x sp) = exporter_closed x"
  "set (exporter_accepted (export_span x sp)) \<subseteq> insert sp (set (exporter_accepted x))"
  by (cases x; auto simp: Export_def)+

lemma exporter_shutdown_frame:
  assumes "exporter_shutdown x = Ret x'"
  shows "exporter_target x' = exporter_target x" "exporter_accepted x' = exporter_accepted x"
    "\<not> exporter_closed x"
  using assms by (cases x; auto simp: Exporter_Shutdown_def split: if_splits)+

lemma exporter_shutdown_open: "\<not> exporter_closed x \<Longrightarrow> \<exists>x'. exporter_shutdown x = Ret x'"
  by (cases x) (simp_all add: Exporter_Shutdown_def)

text \<open>
  What a server keeps from its construction on: where it sends its spans and whether it holds a
  Redis connection; and: only well-formed spans, and no closed exporter before the registry is
  stopped.
\<close>

definition telemetry_inv :: "(string \<times> string) option \<Rightarrow> bool \<Rightarrow> ('pub, 'priv, 'db) server \<Rightarrow> bool" where
  "telemetry_inv target redis s \<longleftrightarrow>
     exporter_target (sv_exporter s) = target \<and> redis_open s = redis \<and>
     (\<forall>sp \<in> set (exporter_accepted (sv_exporter s)). span_ok sp) \<and>
     (exporter_closed (sv_exporter s) \<longrightarrow> stopped (sv_registry s))"

lemma front_span_ok:
  assumes "front s e c = (l, calls, tc, on)" and "length (trace_bytes e) = 16" and "length (span_bytes e) = 8"
  shows "span_ok (request_span tc c url start finish status)"
proof -
  obtain pre tc' where tm: "TraceMiddleware Extract Inject c (trace_bytes e) (span_bytes e) = (pre, tc')"
    by fastforce
  with assms(1) have "tc' = tc"
    by (auto simp: front_def case_prod_beta Let_def split: option.splits if_splits)
  with request_span_ok [OF tm assms(2,3)] show ?thesis by simp
qed

text \<open>Requests neither stop the registry nor touch the connection.\<close>

lemma Heartbeat_stopped: "stopped (fst (Heartbeat r x now)) = stopped r"
  by (simp add: Heartbeat_def split: option.split)

lemma cleanup_stopped: "stopped (cleanup r now ks ord) = stopped r"
proof -
  have remove: "stopped (removeInstanceLocked r k ks) = stopped r" for r k ks
    by (simp add: removeInstanceLocked_def Let_def case_prod_beta split: option.split)
  have "stopped (remove_all r ord j ks) = stopped r" for r j ks
    by (induction r ord j ks rule: remove_all.induct) (simp_all add: remove)
  then show ?thesis by (simp add: cleanup_def case_prod_beta)
qed

lemma internal_endpoint_stopped [server_frame]:
  "stopped (fst (internal_endpoint ep e r c)) = stopped r"
proof -
  have "stopped (fst (handle_Heartbeat b r now)) = stopped r" for b now
    using Heartbeat_stopped [of r _ now] heartbeat_change [of b r now] by (metis fst_conv)
  moreover have "stopped (fst (handle_Deregister b r ks)) = stopped r" for b ks
    by (auto simp: handle_Deregister_def Deregister_def Let_def split: sum.split prod.split option.split)
  moreover have "stopped (fst (handle_Register cd c b r ord x now)) = stopped r" for cd b ord x now
    by (auto simp: handle_Register_def Register_def Register_commit_def Let_def
        split: sum.split prod.split option.split ctx_value.split register_error.split)
  ultimately show ?thesis by (cases ep) (simp_all add: internal_endpoint_def)
qed

lemma serve_endpoint_stopped [server_frame]:
  "stopped (sv_registry (fst (serve_endpoint lib s e c))) = stopped (sv_registry s)"
  "redis_open (fst (serve_endpoint lib s e c)) = redis_open s"
  "http_server (fst (serve_endpoint lib s e c)) = http_server s"
  by (simp_all add: serve_endpoint_def case_prod_beta Let_def internal_endpoint_stopped split: endpoint.split)

lemma serve_fields:
  assumes "serve lib s e c = (s', answer)"
  shows "stopped (sv_registry s') = stopped (sv_registry s)" "redis_open s' = redis_open s"
    "http_server s' = http_server s"
    "\<exists>l calls tc on. front s e c = (l, calls, tc, on) \<and>
      (sv_exporter s' = sv_exporter s \<or>
       (\<exists>status. sv_exporter s' =
          export_span (sv_exporter s) (request_span tc c (url_text e) (clock e) (ended e) status)))"
proof -
  obtain l calls tc on where f: "front s e c = (l, calls, tc, on)" by (metis prod_cases4)
  obtain s2 out where run: "serve_endpoint lib (s\<lparr>sv_limiter := l\<rparr>) e (after_calls c calls) = (s2, out)"
    by fastforce
  note frame = serve_endpoint_stopped [of lib "s\<lparr>sv_limiter := l\<rparr>" e "after_calls c calls", unfolded run]
    serve_endpoint_exporter [of lib "s\<lparr>sv_limiter := l\<rparr>" e "after_calls c calls", unfolded run]
  from assms consider "s' = s" | n where "s' = export_request (s\<lparr>sv_limiter := l\<rparr>) e tc c n"
    | "s' = s2" | n where "s' = export_request s2 e tc c n"
    by (auto simp: serve_def f run Let_def split: option.splits if_splits outcome.splits)
  then have "stopped (sv_registry s') = stopped (sv_registry s) \<and> redis_open s' = redis_open s \<and>
      http_server s' = http_server s \<and> (sv_exporter s' = sv_exporter s \<or>
       (\<exists>status. sv_exporter s' =
          export_span (sv_exporter s) (request_span tc c (url_text e) (clock e) (ended e) status)))"
    using frame by cases (auto simp: export_request_def)
  with f show "stopped (sv_registry s') = stopped (sv_registry s)" "redis_open s' = redis_open s"
    "http_server s' = http_server s"
    "\<exists>l calls tc on. front s e c = (l, calls, tc, on) \<and>
      (sv_exporter s' = sv_exporter s \<or>
       (\<exists>status. sv_exporter s' =
          export_span (sv_exporter s) (request_span tc c (url_text e) (clock e) (ended e) status)))"
    by blast+
qed

subsection \<open>Every step keeps them\<close>

lemma telemetry_step:
  "server_step lib s s' \<Longrightarrow> telemetry_inv target redis s \<Longrightarrow> telemetry_inv target redis s'"
proof (induction rule: server_step.induct)
  case (request e s c s' answer)
  note fields = serve_fields [OF request(2)]
  from fields(4) obtain l calls tc on where f: "front s e c = (l, calls, tc, on)"
    and x: "sv_exporter s' = sv_exporter s \<or>
      (\<exists>status. sv_exporter s' =
        export_span (sv_exporter s) (request_span tc c (url_text e) (clock e) (ended e) status))" by blast
  have "span_ok (request_span tc c url start finish status)" for url start finish status
    using front_span_ok [OF f] request(1) by (simp add: env_ok_def)
  then have "\<forall>sp \<in> set (exporter_accepted (sv_exporter s')). span_ok sp"
    using x request.prems export_span_frame(3) [of "sv_exporter s"] by (fastforce simp: telemetry_inv_def)
  moreover have "exporter_target (sv_exporter s') = exporter_target (sv_exporter s)"
    "exporter_closed (sv_exporter s') = exporter_closed (sv_exporter s)"
    using x export_span_frame(1,2) by fastforce+
  ultimately show ?case using request.prems fields(1-3) by (simp add: telemetry_inv_def)
next
  case (tick s ks ord now)
  then show ?case by (simp add: telemetry_inv_def cleanup_stopped)
next
  case (goroutine s ep name x x')
  with goroutine_frame [OF goroutine(2)] show ?case by (simp add: telemetry_inv_def)
next
  case (start s listen_error)
  then show ?case by (simp add: telemetry_inv_def Run_def)
next
  case (shutdown s redis_close http_stop s' err)
  then obtain r x where r: "Stop (sv_registry s) = Ret r" and x: "exporter_shutdown (sv_exporter s) = Ret x"
    and s': "s' = s\<lparr>sv_registry := r, sv_exporter := x\<rparr>"
    by (cases "Stop (sv_registry s)"; cases "exporter_shutdown (sv_exporter s)")
       (auto simp: Server_Shutdown_def Let_def split: if_splits)
  have "stopped r" using Stop_sel [OF r] by simp
  with exporter_shutdown_frame [OF x] shutdown.prems show ?case by (simp add: telemetry_inv_def s')
qed

interpretation telemetry: invariant_system "server_step lib" "telemetry_inv target redis"
  by unfold_locales (rule telemetry_step)


lemma NewServer_telemetry:
  assumes "NewServer lib keys drv cfg now = Inr s"
  shows "telemetry_inv (exporter_target (NewExporter cfg)) (redis_open s) s"
  using NewServer_parts(8) [OF assms]
  by (auto simp: telemetry_inv_def NewExporter_def NewOTLPExporter_def)

lemma server_telemetry:
  assumes "NewServer lib keys drv cfg now = Inr s0" and "(server_step lib)\<^sup>*\<^sup>* s0 s"
  shows "telemetry_inv (exporter_target (NewExporter cfg)) (redis_open s0) s"
  using assms(2) NewServer_telemetry [OF assms(1)] by (rule telemetry.run_keeps)

text \<open>
  C39. What the collector gets is well-formed.  Whatever requests the server has served, every batch
  it flushed has between 1 and 64 spans, and in the message built from it each span has a trace
  id of 16 bytes, a span id of 8, a parent id of 0 or 8, the server kind and the five
  attributes, in whatever order the range visits them.  If the batch is posted, it is posted as
  protocol buffers to the configured endpoint.
\<close>

theorem collector_gets_typed_spans:
  assumes built: "NewServer lib keys drv cfg now = Inr s0"
    and redis: "\<forall>url c db. parse_url drv url = Inr (c, db) \<longrightarrow> counts_members (NewLimiter c)"
    and run: "(server_step lib)\<^sup>*\<^sup>* s0 s"
    and exporter: "sv_exporter s = OTLPExporter ep name x" "b \<in> set (flushed x)"
    and orders: "\<forall>sp \<in> set b. range_order (order sp) (sp_Attributes sp)"
  shows "1 \<le> length b \<and> length b \<le> 64 \<and>
    (\<forall>ps \<in> set (td_spans (buildProto name order b)). proto_ok ps) \<and>
    td_service_name (buildProto name order b) = cfg_TraceServiceName cfg \<and>
    (\<forall>req res. flush_batch col ep name order b = (Some req, res) \<longrightarrow>
       po_url req = cfg_TraceOTLPEndpoint cfg @ ''/v1/traces'' \<and>
       proto_Marshal col (buildProto name order b) = Inr (po_body req))"
proof -
  have "server_inv s0" using NewServer_inv [OF built] redis by blast
  with run have "server_inv s" by (rule server_machine.run_keeps)
  then have inv: "exporter_inv x" by (simp add: server_inv_def exporter(1))
  note telemetry = server_telemetry [OF built run, unfolded telemetry_inv_def exporter(1)]
  then have target: "ep = cfg_TraceOTLPEndpoint cfg" "name = cfg_TraceServiceName cfg"
    by (auto simp: NewExporter_def split: if_splits)
  have "set (concat (flushed x)) \<subseteq> set (accepted_spans x)"
    using inv unfolding exporter_inv_def by (metis set_append sup_ge1)
  with exporter(2) telemetry have "span_ok sp" if "sp \<in> set b" for sp using that by auto
  then have typed: "\<forall>ps \<in> set (td_spans (buildProto name order b)). proto_ok ps"
    using orders by (auto simp: buildProto_def intro!: spanDataToProto_ok)
  have len: "1 \<le> length b" "length b \<le> 64"
    using inv exporter(2) by (auto simp: exporter_inv_def defaultBatchSize_def Suc_le_eq)
  have service: "td_service_name (buildProto name order b) = cfg_TraceServiceName cfg"
    by (simp add: buildProto_def target)
  have posted: "po_url req = cfg_TraceOTLPEndpoint cfg @ ''/v1/traces'' \<and>
      proto_Marshal col (buildProto name order b) = Inr (po_body req)"
    if "flush_batch col ep name order b = (Some req, res)" for req res
    using flush_batch_post [OF that] target by simp
  show ?thesis using len typed service posted by blast
qed

text \<open>A preflight on a server with a collector, and the batch the ticker flushes after it.\<close>

definition otlp_config :: server_config where
  "otlp_config = (default_config [])\<lparr>cfg_TraceExporter := ''otlp'', cfg_TraceOTLPEndpoint := ''http://otel''\<rparr>"

definition attribute_order :: "string list" where
  "attribute_order = [''http.method'', ''http.url'', ''http.status_code'', ''http.route'', ''net.peer.ip'']"

lemma request_span_order: "range_order attribute_order (sp_Attributes (request_span tc c url start finish status))"
  by (auto simp: range_order_def attribute_order_def request_span_def)

lemma NewServer_otlp:
  obtains s0 where "NewServer slib no_keys no_redis otlp_config 0 = Inr s0"
    and "sv_exporter s0 = OTLPExporter ''http://otel'' ''gotway'' NewOTLPExporter"
    and "sv_registry s0 = NewRegistry (config (sv_registry s0))" and "sv_limiter s0 = None"
  by (simp add: NewServer_def new_limiter_def otlp_config_def default_config_def NewExporter_def NewRegistry_def)

lemma flushed_after_preflight:
  assumes "sv_exporter s = OTLPExporter ep name NewOTLPExporter" and "sv_registry s = NewRegistry cfg"
    and "sv_limiter s = None"
  shows "\<exists>s' x sp. (server_step lib)\<^sup>*\<^sup>* s s' \<and> sv_exporter s' = OTLPExporter ep name x \<and> flushed x = [[sp]] \<and>
    range_order attribute_order (sp_Attributes sp)"
proof -
  let ?e = "sample_env (NewRegistry cfg)" and ?c = "sample_get ''OPTIONS'' ''/x'' Map.empty"
  obtain s1 answer where run: "serve lib s ?e ?c = (s1, answer)" by fastforce
  obtain l calls tc on where f: "front s ?e ?c = (l, calls, tc, on)" by (metis prod_cases4)
  have off: "\<not> on" using front_calls(4) [OF f assms(3)] by simp
  define sp where "sp = request_span tc ?c (url_text ?e) (clock ?e) (ended ?e) (final_status calls)"
  define x1 where "x1 = Export NewOTLPExporter sp"
  have "sv_exporter (fst (serve lib s ?e ?c)) = OTLPExporter ep name x1"
    by (simp add: serve_def f off export_request_def assms(1) sp_def x1_def)
  then have s1: "sv_exporter s1 = OTLPExporter ep name x1" by (simp add: run)
  have x1: "chan x1 = [sp]" "batch x1 = []" "flushed x1 = []" "\<not> returned x1" "\<not> draining x1"
    by (simp_all add: x1_def Export_def NewOTLPExporter_def defaultBufferSize_def)
  have "env_ok ?e (sv_registry s)"
    by (simp add: env_ok_def assms(2) sample_env_def NewRegistry_def range_order_empty)
  then have "server_step lib s s1" using run by (rule server_step.request)
  moreover have "goroutine_step x1 (receive x1)" using x1 by (intro do_receive) simp_all
  with s1 have "server_step lib s1 (s1\<lparr>sv_exporter := OTLPExporter ep name (receive x1)\<rparr>)"
    by (rule server_step.goroutine)
  moreover have x2: "batch (receive x1) = [sp]" "flushed (receive x1) = []" "\<not> returned (receive x1)"
      "\<not> draining (receive x1)"
    using x1 by (simp_all add: receive_def defaultBatchSize_def)
  then have "goroutine_step (receive x1) (on_tick (receive x1))" by (intro do_tick)
  then have "server_step lib (s1\<lparr>sv_exporter := OTLPExporter ep name (receive x1)\<rparr>)
      (s1\<lparr>sv_exporter := OTLPExporter ep name (on_tick (receive x1))\<rparr>)"
    using server_step.goroutine [of "s1\<lparr>sv_exporter := OTLPExporter ep name (receive x1)\<rparr>" ep name "receive x1"
        "on_tick (receive x1)" lib] by simp
  ultimately have "(server_step lib)\<^sup>*\<^sup>* s (s1\<lparr>sv_exporter := OTLPExporter ep name (on_tick (receive x1))\<rparr>)"
    by (meson converse_rtranclp_into_rtranclp rtranclp.rtrancl_refl)
  moreover have "flushed (on_tick (receive x1)) = [[sp]]" using x2 by (simp add: on_tick_def flush_def)
  moreover have "range_order attribute_order (sp_Attributes sp)" by (simp add: sp_def request_span_order)
  ultimately show ?thesis by (metis server.select_convs(8) server.update_convs(8) server.surjective)
qed

theorem collector_gets_typed_spans_witness:
  "\<exists>s0 s ep name x b. NewServer slib no_keys no_redis otlp_config 0 = Inr s0 \<and> (server_step slib)\<^sup>*\<^sup>* s0 s \<and>
     sv_exporter s = OTLPExporter ep name x \<and> b \<in> set (flushed x) \<and> b \<noteq> [] \<and>
     (\<forall>ps \<in> set (td_spans (buildProto name (\<lambda>_. attribute_order) b)). proto_ok ps)"
proof -
  obtain s0 where built: "NewServer slib no_keys no_redis otlp_config 0 = Inr s0"
    and s0: "sv_exporter s0 = OTLPExporter ''http://otel'' ''gotway'' NewOTLPExporter"
      "sv_registry s0 = NewRegistry (config (sv_registry s0))" "sv_limiter s0 = None"
    by (rule NewServer_otlp)
  from flushed_after_preflight [OF s0, of slib] obtain s x sp where run: "(server_step slib)\<^sup>*\<^sup>* s0 s"
    and x: "sv_exporter s = OTLPExporter ''http://otel'' ''gotway'' x" "flushed x = [[sp]]"
    and order: "range_order attribute_order (sp_Attributes sp)" by blast
  have redis: "\<forall>url c db. parse_url no_redis url = Inr (c, db) \<longrightarrow> counts_members (NewLimiter c)"
    by (simp add: no_redis_def)
  have b: "[sp] \<in> set (flushed x)" and orders: "\<forall>sp \<in> set [sp]. range_order attribute_order (sp_Attributes sp)"
    using x(2) order by simp_all
  from collector_gets_typed_spans [OF built redis run x(1) b, of "\<lambda>_. attribute_order"] orders
  have "\<forall>ps \<in> set (td_spans (buildProto ''gotway'' (\<lambda>_. attribute_order) [sp])). proto_ok ps" by simp
  with built run x(1) b show ?thesis by blast
qed

end
