(* ===== verification/Program.thy ===== *)
theory Program
  imports Gateway_Spans
begin

text \<open>
  \<^verbatim>\<open>cmd/api/main.go\<close>: load the configuration, build the server, run it in a goroutine until a signal
  arrives, and shut it down.  \<open>serving\<close> is the server at the signal, whatever happened in between;
  \<open>listen_error\<close> is the error with which \<^verbatim>\<open>ListenAndServe\<close> returns, \<open>redis_close\<close> and \<open>http_stop\<close> are
  the errors of closing the connection and the HTTP server.
\<close>

datatype exit_status = Exit nat | Crash

text \<open>
  \<open>pe_log\<close> are the lines of \<^verbatim>\<open>main\<close> itself and \<open>pe_run_log\<close> those of the goroutine that runs the
  server, the last of which comes when \<^verbatim>\<open>Run\<close> returns; nobody waits for it.
\<close>

record program_end =
  pe_handler :: "slog_handler option"
  pe_log :: "log_line list"
  pe_run_log :: "log_line list"
  pe_exit :: exit_status

definition error_line :: "string \<Rightarrow> string \<Rightarrow> log_line" where
  "error_line msg err = \<lparr>at_level = LevelError, log_message = msg, log_attrs = [(''error'', LString err)]\<rparr>"

definition info_line :: "string \<Rightarrow> log_line" where
  "info_line msg = \<lparr>at_level = LevelInfo, log_message = msg, log_attrs = []\<rparr>"

definition starting_line :: "server_config \<Rightarrow> string \<Rightarrow> string \<Rightarrow> string \<Rightarrow> log_line" where
  "starting_line cfg version commit buildDate =
     \<lparr>at_level = LevelInfo, log_message = ''starting server'',
      log_attrs = [(''port'', LInt (cfg_Port cfg)), (''env'', LString (cfg_Env cfg)), (''version'', LString version),
        (''commit'', LString commit), (''build_date'', LString buildDate)]\<rparr>"

text \<open>The goroutine: what it makes of the server, and its lines.\<close>

definition run_goroutine ::
    "server_config \<Rightarrow> string \<Rightarrow> string \<Rightarrow> string \<Rightarrow> ('pub, 'priv, 'db) server \<Rightarrow> string option \<Rightarrow>
     ('pub, 'priv, 'db) server \<times> log_line list" where
  "run_goroutine cfg version commit buildDate s listen_error =
     (let (s', err) = Run s listen_error
      in (s', [starting_line cfg version commit buildDate] @
            (case err of None \<Rightarrow> [] | Some e \<Rightarrow> [error_line ''server error'' e])))"

definition main ::
    "(server_config \<Rightarrow> string + server_config) \<Rightarrow> string \<Rightarrow> string \<Rightarrow> string \<Rightarrow>
     ('pub, 'priv) jwt_lib \<Rightarrow> ('pub, 'priv) key_lib \<Rightarrow> 'db redis_driver \<Rightarrow> gotime \<Rightarrow>
     (('pub, 'priv, 'db) server \<Rightarrow> ('pub, 'priv, 'db) server) \<Rightarrow>
     string option \<Rightarrow> string option \<Rightarrow> string option \<Rightarrow> program_end" where
  "main process version commit buildDate lib keys drv now serving listen_error redis_close http_stop =
     (case Load process version of
        Inl err \<Rightarrow>
          \<lparr>pe_handler = None, pe_log = [error_line ''failed to load config'' err], pe_run_log = [], pe_exit = Exit 1\<rparr>
      | Inr cfg \<Rightarrow>
          (let h = Some (setupLogger (cfg_Env cfg) (cfg_LogLevel cfg)) in
           case NewServer lib keys drv cfg now of
             Inl err \<Rightarrow>
               \<lparr>pe_handler = h, pe_log = [error_line ''failed to create server'' err], pe_run_log = [], pe_exit = Exit 1\<rparr>
           | Inr s \<Rightarrow>
               (let run_log = snd (run_goroutine cfg version commit buildDate s listen_error);
                    log = [info_line ''shutting down server''] in
                case Server_Shutdown (serving s) redis_close http_stop of
                  Panic \<Rightarrow> \<lparr>pe_handler = h, pe_log = log, pe_run_log = run_log, pe_exit = Crash\<rparr>
                | Ret (s', Some err) \<Rightarrow>
                    \<lparr>pe_handler = h, pe_log = log @ [error_line ''server forced to shutdown'' err],
                     pe_run_log = run_log, pe_exit = Exit 1\<rparr>
                | Ret (s', None) \<Rightarrow>
                    \<lparr>pe_handler = h, pe_log = log @ [info_line ''server exited''],
                     pe_run_log = run_log, pe_exit = Exit 0\<rparr>)))"

subsection \<open>Shutting down\<close>

lemma Stop_open: "\<not> stopped r \<Longrightarrow> Stop r = Ret (r\<lparr>stopped := True\<rparr>)"
  by (simp add: Stop_def)

text \<open>A shutdown that returns, and one that does not.\<close>

lemma Shutdown_stopped:
  assumes "Server_Shutdown s redis_close http_stop = Ret (s', err)"
  shows "\<not> stopped (sv_registry s) \<and> stopped (sv_registry s')"
  using assms
  by (cases "Stop (sv_registry s)"; cases "exporter_shutdown (sv_exporter s)")
     (auto simp: Server_Shutdown_def Stop_def Let_def split: if_splits)

lemma stopped_panics: "stopped (sv_registry s) \<Longrightarrow> Server_Shutdown s redis_close http_stop = Panic"
  by (simp add: Server_Shutdown_def Stop_def)

lemma first_Shutdown:
  assumes "telemetry_inv target redis s" and "\<not> stopped (sv_registry s)"
  obtains s' where "Server_Shutdown s redis_close http_stop =
    (if redis \<and> redis_close \<noteq> None then Ret (s', redis_close)
     else if \<not> http_server s then Panic else Ret (s', http_stop))"
proof -
  from assms have "\<not> exporter_closed (sv_exporter s)" by (auto simp: telemetry_inv_def)
  with exporter_shutdown_open obtain x where x: "exporter_shutdown (sv_exporter s) = Ret x" by blast
  show thesis
  proof (rule that)
    show "Server_Shutdown s redis_close http_stop =
      (if redis \<and> redis_close \<noteq> None
       then Ret (s\<lparr>sv_registry := (sv_registry s)\<lparr>stopped := True\<rparr>, sv_exporter := x\<rparr>, redis_close)
       else if \<not> http_server s then Panic
       else Ret (s\<lparr>sv_registry := (sv_registry s)\<lparr>stopped := True\<rparr>, sv_exporter := x\<rparr>, http_stop))"
      using assms by (simp add: Server_Shutdown_def Stop_open x telemetry_inv_def Let_def)
  qed
qed

lemma stopped_step: "server_step lib s s' \<Longrightarrow> stopped (sv_registry s) \<Longrightarrow> stopped (sv_registry s')"
  by (induction rule: server_step.induct)
     (auto dest: serve_fields(1) Shutdown_stopped simp: Run_def cleanup_stopped)

lemma stopped_run: "(server_step lib)\<^sup>*\<^sup>* s s' \<Longrightarrow> stopped (sv_registry s) \<Longrightarrow> stopped (sv_registry s')"
  by (induction rule: rtranclp_induct) (auto dest: stopped_step)

text \<open>
  C38. How the program ends.  It exits with 1 when the configuration or the server cannot be built,
  when closing Redis fails or the HTTP server does not stop in time, and with 0 otherwise, after
  any run of the server -- with one exception: a signal that arrives before \<^verbatim>\<open>Run\<close> has created
  the HTTP server crashes it.  The error with which \<^verbatim>\<open>Run\<close> returns has no part in this: it is only
  logged, so a server that could not bind its port waits for the signal and exits with 0.  No request
  can make the one shutdown panic, and a second shutdown, whenever it comes, always does.
\<close>

theorem main_exit_status:
  assumes serving: "\<forall>cfg s0. NewServer lib keys drv cfg now = Inr s0 \<longrightarrow>
      (server_step lib)\<^sup>*\<^sup>* s0 (serving s0) \<and> \<not> stopped (sv_registry (serving s0))"
  shows "pe_exit (main process version commit buildDate lib keys drv now serving listen_error redis_close http_stop) =
      (case Load process version of
         Inl err \<Rightarrow> Exit 1
       | Inr cfg \<Rightarrow>
           (case NewServer lib keys drv cfg now of
              Inl err \<Rightarrow> Exit 1
            | Inr s0 \<Rightarrow>
                if redis_open s0 \<and> redis_close \<noteq> None then Exit 1
                else if \<not> http_server (serving s0) then Crash
                else if http_stop \<noteq> None then Exit 1 else Exit 0)) \<and>
    (\<forall>cfg s0 err. Load process version = Inr cfg \<longrightarrow> NewServer lib keys drv cfg now = Inr s0 \<longrightarrow>
       listen_error = Some err \<longrightarrow>
       error_line ''server error'' err \<in> set (pe_run_log
         (main process version commit buildDate lib keys drv now serving listen_error redis_close http_stop))) \<and>
    (\<forall>s s1 err s2 rc hs. Server_Shutdown s redis_close http_stop = Ret (s1, err) \<longrightarrow>
       (server_step lib)\<^sup>*\<^sup>* s1 s2 \<longrightarrow> Server_Shutdown s2 rc hs = Panic)"
proof -
  let ?fin = "main process version commit buildDate lib keys drv now serving listen_error redis_close http_stop"
  have once: "\<forall>s s1 err s2 rc hs. Server_Shutdown s redis_close http_stop = Ret (s1, err) \<longrightarrow>
      (server_step lib)\<^sup>*\<^sup>* s1 s2 \<longrightarrow> Server_Shutdown s2 rc hs = Panic"
    using Shutdown_stopped stopped_run stopped_panics by metis
  have logged: "error_line ''server error'' err \<in> set (pe_run_log ?fin)"
    if "Load process version = Inr cfg" "NewServer lib keys drv cfg now = Inr s0" "listen_error = Some err" for cfg s0 err
    using that by (simp add: main_def run_goroutine_def Run_def Let_def split: outcome.split option.split prod.split)
  have "pe_exit ?fin =
      (case Load process version of
         Inl err \<Rightarrow> Exit 1
       | Inr cfg \<Rightarrow>
           (case NewServer lib keys drv cfg now of
              Inl err \<Rightarrow> Exit 1
            | Inr s0 \<Rightarrow>
                if redis_open s0 \<and> redis_close \<noteq> None then Exit 1
                else if \<not> http_server (serving s0) then Crash
                else if http_stop \<noteq> None then Exit 1 else Exit 0))"
  proof (cases "Load process version")
    case cfg: (Inr cfg)
    show ?thesis
    proof (cases "NewServer lib keys drv cfg now")
      case (Inr s0)
      with serving have run: "(server_step lib)\<^sup>*\<^sup>* s0 (serving s0)" and up: "\<not> stopped (sv_registry (serving s0))"
        by blast+
      from first_Shutdown [OF server_telemetry [OF Inr run] up, of redis_close http_stop] obtain s' where
        "Server_Shutdown (serving s0) redis_close http_stop =
          (if redis_open s0 \<and> redis_close \<noteq> None then Ret (s', redis_close)
           else if \<not> http_server (serving s0) then Panic else Ret (s', http_stop))" .
      with cfg Inr show ?thesis by (auto simp: main_def Let_def split: option.split)
    qed (simp add: main_def cfg Let_def)
  qed (simp add: main_def)
  with once logged show ?thesis by blast
qed

text \<open>Two clean ends -- the second of a server that never got its port -- and the early signal.\<close>

theorem main_exit_status_witness:
  "pe_exit (main Inr ''v1'' [] [] slib no_keys no_redis 0 (\<lambda>s. fst (Run s None)) None None None) = Exit 0 \<and>
   pe_exit (main Inr ''v1'' [] [] slib no_keys no_redis 0 (\<lambda>s. fst (Run s None)) (Some ''address in use'') None None) = Exit 0 \<and>
   pe_exit (main Inr ''v1'' [] [] slib no_keys no_redis 0 (\<lambda>s. s) None None None) = Crash"
proof -
  have fresh: "\<not> stopped (sv_registry s)" "\<not> http_server s" if "NewServer slib no_keys no_redis cfg 0 = Inr s" for cfg s
    using NewServer_parts [OF that] by (simp_all add: NewRegistry_def)
  have load: "Load Inr ''v1'' = Inr (default_config ''v1'')" by (simp add: Load_def default_config_def)
  obtain s0 where built: "NewServer slib no_keys no_redis (default_config ''v1'') 0 = Inr s0" "\<not> redis_open s0"
    by (simp add: NewServer_def new_limiter_def default_config_def)
  have up: "http_server (fst (Run s0 None))" by (simp add: Run_def)
  have started: "\<forall>cfg s0. NewServer slib no_keys no_redis cfg 0 = Inr s0 \<longrightarrow>
      (server_step slib)\<^sup>*\<^sup>* s0 (fst (Run s0 None)) \<and> \<not> stopped (sv_registry (fst (Run s0 None)))"
    using fresh(1) server_step.start [of slib] by (auto simp: Run_def)
  have early: "\<forall>cfg s0. NewServer slib no_keys no_redis cfg 0 = Inr s0 \<longrightarrow>
      (server_step slib)\<^sup>*\<^sup>* s0 s0 \<and> \<not> stopped (sv_registry s0)"
    using fresh(1) by blast
  have "pe_exit (main Inr ''v1'' [] [] slib no_keys no_redis 0 (\<lambda>s. fst (Run s None)) listen None None) = Exit 0" for listen
    using conjunct1 [OF main_exit_status [OF started, of Inr "''v1''" "[]" "[]" listen None None]] built
    by (simp add: load up)
  moreover have "pe_exit (main Inr ''v1'' [] [] slib no_keys no_redis 0 (\<lambda>s. s) None None None) = Crash"
    using conjunct1 [OF main_exit_status [OF early, of Inr "''v1''" "[]" "[]" None None None]] built fresh(2) [OF built(1)]
    by (simp add: load)
  ultimately show ?thesis by blast
qed

end
