(* ===== verification/Client.thy ===== *)
theory Client
  imports Registry_Props Jwt
begin

text \<open>
  The registration client of \<^verbatim>\<open>pkg/client\<close>: one registration attempt, the retries with their
  back-off, heartbeats with re-registration, deregistration and shutdown.  What the network
  answers is an argument, and so is the JSON decoder.
\<close>

subsection \<open>Errors and replies\<close>

record client_collision =
  cc_Method :: string
  cc_Path :: string
  cc_CollisionType :: string
  cc_RegisteredBy :: string

datatype client_error =
    ClientError string
  | InstanceNotFound
  | RouteCollisions "client_collision list"
  | ContextDone string
  | RetriesExhausted nat "client_error option"

fun client_error_text :: "client_error \<Rightarrow> string" where
  "client_error_text (ClientError m) = m"
| "client_error_text InstanceNotFound = ''instance not found''"
| "client_error_text (RouteCollisions cs) =
     ''route collision: '' @ Itoa (int (length cs)) @ '' route(s) already registered''"
| "client_error_text (ContextDone m) = m"
| "client_error_text (RetriesExhausted n None) = ''operation failed after '' @ Itoa (int n) @ '' retries''"
| "client_error_text (RetriesExhausted n (Some e)) =
     ''operation failed after '' @ Itoa (int n) @ '' retries: '' @ client_error_text e"

text \<open>\<^verbatim>\<open>errors.As(err, &collisionError)\<close>, through the wrapping of the retries.\<close>

fun is_collision :: "client_error \<Rightarrow> bool" where
  "is_collision (RouteCollisions cs) = True"
| "is_collision (RetriesExhausted n (Some e)) = is_collision e"
| "is_collision _ = False"

datatype http_reply = SendFailed string | BodyFailed string | Reply nat string

record decoder =
  decode_collisions :: "string \<Rightarrow> string + client_collision list"
  decode_response :: "string \<Rightarrow> string + register_response"

subsection \<open>One request\<close>

definition serviceToken :: "('pub, 'priv) jwt_lib \<Rightarrow> string \<Rightarrow> 'priv \<Rightarrow> gotime \<Rightarrow> string + string" where
  "serviceToken lib serviceName priv now =
     jwt_Sign lib
       [''sub'' \<mapsto> JString serviceName, ''aud'' \<mapsto> JString ''api-gateway'', ''iss'' \<mapsto> JString serviceName,
        ''iat'' \<mapsto> JNumber (of_int (unix now)), ''exp'' \<mapsto> JNumber (of_int (unix (now + 5 * minute)))] priv"

text \<open>
  \<open>url_error\<close> is the error of \<^verbatim>\<open>http.NewRequestWithContext\<close>, \<open>token\<close> the result of
  \<^verbatim>\<open>serviceToken\<close>, \<open>reply\<close> what the exchange and the reading of the body gave.
\<close>

definition doRegister ::
    "decoder \<Rightarrow> string option \<Rightarrow> string + string \<Rightarrow> http_reply \<Rightarrow> client_error + register_response" where
  "doRegister dec url_error token reply =
     (case url_error of
        Some err \<Rightarrow> Inl (ClientError (''failed to create request: '' @ err))
      | None \<Rightarrow>
          (case token of
             Inl err \<Rightarrow> Inl (ClientError (''failed to generate service token: '' @ err))
           | Inr tok \<Rightarrow>
               (case reply of
                  SendFailed err \<Rightarrow> Inl (ClientError (''failed to send request: '' @ err))
                | BodyFailed err \<Rightarrow> Inl (ClientError (''failed to read response: '' @ err))
                | Reply status body \<Rightarrow>
                    if status = 409 then
                      (case decode_collisions dec body of
                         Inr cs \<Rightarrow> Inl (RouteCollisions cs)
                       | Inl err \<Rightarrow> Inl (ClientError (''route collision: '' @ body)))
                    else if status \<noteq> 201 then
                      Inl (ClientError (''registration failed with status '' @ Itoa (int status) @ '': '' @ body))
                    else
                      (case decode_response dec body of
                         Inl err \<Rightarrow> Inl (ClientError (''failed to unmarshal response: '' @ err))
                       | Inr resp \<Rightarrow> Inr resp))))"

definition sendHeartbeat ::
    "string \<Rightarrow> string option \<Rightarrow> string + string \<Rightarrow> http_reply \<Rightarrow> client_error option" where
  "sendHeartbeat instanceID url_error token reply =
     (if instanceID = [] then Some (ClientError ''not registered'')
      else
        (case url_error of
           Some err \<Rightarrow> Some (ClientError (''failed to create request: '' @ err))
         | None \<Rightarrow>
             (case token of
                Inl err \<Rightarrow> Some (ClientError (''failed to generate service token: '' @ err))
              | Inr tok \<Rightarrow>
                  (case reply of
                     SendFailed err \<Rightarrow> Some (ClientError (''failed to send heartbeat: '' @ err))
                   | BodyFailed err \<Rightarrow> Some (ClientError ''heartbeat failed'')
                   | Reply status body \<Rightarrow>
                       if status = 404 then Some InstanceNotFound
                       else if status \<noteq> 200 then
                         Some (ClientError (''heartbeat failed with status '' @ Itoa (int status) @ '': '' @ body))
                       else None))))"

definition sendDeregister ::
    "string \<Rightarrow> string option \<Rightarrow> string + string \<Rightarrow> http_reply \<Rightarrow> client_error option" where
  "sendDeregister instanceID url_error token reply =
     (if instanceID = [] then None
      else
        (case url_error of
           Some err \<Rightarrow> Some (ClientError (''failed to create request: '' @ err))
         | None \<Rightarrow>
             (case token of
                Inl err \<Rightarrow> Some (ClientError (''failed to generate service token: '' @ err))
              | Inr tok \<Rightarrow>
                  (case reply of
                     SendFailed err \<Rightarrow> Some (ClientError (''failed to send deregister: '' @ err))
                   | BodyFailed err \<Rightarrow> Some (ClientError ''deregister failed'')
                   | Reply status body \<Rightarrow>
                       if status \<noteq> 200 \<and> status \<noteq> 404 then
                         Some (ClientError (''deregister failed with status '' @ Itoa (int status) @ '': '' @ body))
                       else None))))"

subsection \<open>Retries\<close>

text \<open>
  \<open>fn k\<close> is the result of attempt \<open>k\<close>; \<open>ctx k\<close> is the error of the context when it is done
  before the wait after attempt \<open>k\<close> is over.  Besides its result the loop returns the waits it
  started.
\<close>

definition next_backoff :: "duration \<Rightarrow> duration" where
  "next_backoff b = (if b * 2 > 30 * second then 30 * second else b * 2)"

function retry_loop ::
    "nat \<Rightarrow> (nat \<Rightarrow> client_error + 'a) \<Rightarrow> (nat \<Rightarrow> string option) \<Rightarrow> nat \<Rightarrow> duration \<Rightarrow> client_error option \<Rightarrow>
     (client_error + 'a) \<times> duration list" where
  "retry_loop maxRetries fn ctx attempt backoff lastErr =
     (if attempt \<le> maxRetries then
        (case fn attempt of
           Inr v \<Rightarrow> (Inr v, [])
         | Inl err \<Rightarrow>
             if is_collision err then (Inl err, [])
             else if attempt < maxRetries then
               (case ctx attempt of
                  Some e \<Rightarrow> (Inl (ContextDone e), [backoff])
                | None \<Rightarrow>
                    (let (res, waits) =
                       retry_loop maxRetries fn ctx (Suc attempt) (next_backoff backoff) (Some err)
                     in (res, backoff # waits)))
             else retry_loop maxRetries fn ctx (Suc attempt) backoff (Some err))
      else (Inl (RetriesExhausted maxRetries lastErr), []))"
  by pat_completeness auto
termination
  by (relation "measure (\<lambda>(maxRetries, _, _, attempt, _, _). Suc maxRetries - attempt)") auto

declare retry_loop.simps [simp del]

definition retryWithBackoff ::
    "nat \<Rightarrow> (nat \<Rightarrow> client_error + 'a) \<Rightarrow> (nat \<Rightarrow> string option) \<Rightarrow> (client_error + 'a) \<times> duration list" where
  "retryWithBackoff maxRetries fn ctx = retry_loop maxRetries fn ctx 0 second None"

text \<open>The waits, in closed form: doubling from one second, at most thirty.\<close>

definition backoff_at :: "nat \<Rightarrow> duration" where
  "backoff_at k = min (2 ^ k * second) (30 * second)"

lemma backoff_at_0: "backoff_at 0 = second"
  by (simp add: backoff_at_def second_def)

lemma next_backoff_at: "next_backoff (backoff_at k) = backoff_at (Suc k)"
  by (simp add: next_backoff_def backoff_at_def second_def min_def)

definition failing :: "(nat \<Rightarrow> client_error + 'a) \<Rightarrow> nat \<Rightarrow> bool" where
  "failing fn k \<longleftrightarrow> (\<exists>err. fn k = Inl err \<and> \<not> is_collision err)"

text \<open>How the loop ends at the attempt that is not followed by another.\<close>

definition retry_end ::
    "nat \<Rightarrow> (nat \<Rightarrow> client_error + 'a) \<Rightarrow> (nat \<Rightarrow> string option) \<Rightarrow> nat \<Rightarrow> (client_error + 'a) \<Rightarrow> nat \<Rightarrow> bool" where
  "retry_end n fn ctx k res waits \<longleftrightarrow>
     (case fn k of
        Inr v \<Rightarrow> res = Inr v \<and> waits = k
      | Inl err \<Rightarrow>
          if is_collision err then res = Inl err \<and> waits = k
          else if k < n then (\<exists>e. ctx k = Some e \<and> res = Inl (ContextDone e)) \<and> waits = Suc k
          else res = Inl (RetriesExhausted n (Some err)) \<and> waits = k)"

lemma retry_loop_ends:
  assumes "a \<le> n"
  shows "\<exists>k waits. a \<le> k \<and> k \<le> n \<and> (\<forall>j. a \<le> j \<and> j < k \<longrightarrow> failing fn j \<and> ctx j = None) \<and>
    snd (retry_loop n fn ctx a (backoff_at a) lastErr) = map backoff_at [a..<waits] \<and> a \<le> waits \<and>
    retry_end n fn ctx k (fst (retry_loop n fn ctx a (backoff_at a) lastErr)) waits"
  using assms
proof (induction "n - a" arbitrary: a lastErr)
  case 0
  then have a: "a = n" by simp
  show ?case
    by (intro exI [of _ a] conjI exI [of _ a])
       (auto simp: a retry_loop.simps [of n fn ctx n] retry_loop.simps [of n fn ctx "Suc n"] retry_end_def
          split: sum.splits)
next
  case (Suc d)
  then have less: "a < n" by simp
  consider v where "fn a = Inr v" | err where "fn a = Inl err" "is_collision err"
    | err e where "fn a = Inl err" "\<not> is_collision err" "ctx a = Some e"
    | err where "fn a = Inl err" "\<not> is_collision err" "ctx a = None"
    by (cases "fn a"; cases "ctx a") auto
  then show ?case
  proof cases
    case 1
    then show ?thesis using less
      by (intro exI [of _ a] conjI exI [of _ a]) (auto simp: retry_loop.simps [of n fn ctx a] retry_end_def)
  next
    case 2
    then show ?thesis using less
      by (intro exI [of _ a] conjI exI [of _ a]) (auto simp: retry_loop.simps [of n fn ctx a] retry_end_def)
  next
    case 3
    then show ?thesis using less
      by (intro exI [of _ a] exI [of _ "Suc a"]) (auto simp: retry_loop.simps [of n fn ctx a] retry_end_def)
  next
    case 4
    from less Suc have "d = n - Suc a" "Suc a \<le> n" by simp_all
    from Suc.hyps(1) [OF this, of "Some err"] obtain k waits where
      k: "Suc a \<le> k" "k \<le> n" "\<forall>j. Suc a \<le> j \<and> j < k \<longrightarrow> failing fn j \<and> ctx j = None"
      and w: "snd (retry_loop n fn ctx (Suc a) (backoff_at (Suc a)) (Some err)) = map backoff_at [Suc a..<waits]"
        "Suc a \<le> waits"
      and e: "retry_end n fn ctx k (fst (retry_loop n fn ctx (Suc a) (backoff_at (Suc a)) (Some err))) waits"
      by blast
    have step: "retry_loop n fn ctx a (backoff_at a) lastErr =
        (let (res, ws) = retry_loop n fn ctx (Suc a) (backoff_at (Suc a)) (Some err) in (res, backoff_at a # ws))"
      using 4 less by (simp add: retry_loop.simps [of n fn ctx a] next_backoff_at)
    have "failing fn a \<and> ctx a = None" using 4 by (simp add: failing_def)
    with k(3) have "\<forall>j. a \<le> j \<and> j < k \<longrightarrow> failing fn j \<and> ctx j = None"
      by (metis Suc_leI le_neq_implies_less)
    moreover have "snd (retry_loop n fn ctx a (backoff_at a) lastErr) = map backoff_at [a..<waits]"
      using w by (simp add: step case_prod_beta upt_conv_Cons)
    moreover have "retry_end n fn ctx k (fst (retry_loop n fn ctx a (backoff_at a) lastErr)) waits"
      using e by (simp add: step case_prod_beta)
    ultimately show ?thesis using k(1,2) w(2) by (intro exI [of _ k] exI [of _ waits]) simp
  qed
qed


text \<open>
  C20. What a retried call does, whatever the attempts give: it returns; every attempt before
  the last failed with an error other than a collision and was waited out; the waits are one
  second doubling to at most thirty; and the last attempt succeeded, or hit a collision (not
  retried), or its wait was cut short by the context, or was the last one allowed.
\<close>

theorem retry_spec:
  "\<exists>k waits. k \<le> n \<and> (\<forall>j < k. failing fn j \<and> ctx j = None) \<and>
     snd (retryWithBackoff n fn ctx) = map (\<lambda>j. min (2 ^ j * second) (30 * second)) [0..<waits] \<and>
     retry_end n fn ctx k (fst (retryWithBackoff n fn ctx)) waits"
  using retry_loop_ends [of 0 n fn ctx None]
  by (simp add: retryWithBackoff_def backoff_at_0) (simp add: backoff_at_def [abs_def])

theorem retry_spec_witness:
  "fst (retryWithBackoff 5 (\<lambda>_. Inl InstanceNotFound :: client_error + nat) (\<lambda>_. None)) =
     Inl (RetriesExhausted 5 (Some InstanceNotFound)) \<and>
   snd (retryWithBackoff 5 (\<lambda>_. Inl InstanceNotFound :: client_error + nat) (\<lambda>_. None)) =
     [second, 2 * second, 4 * second, 8 * second, 16 * second]"
proof -
  let ?fn = "\<lambda>_. Inl InstanceNotFound :: client_error + nat"
  obtain k waits where k: "k \<le> 5" and e: "retry_end 5 ?fn (\<lambda>_. None) k (fst (retryWithBackoff 5 ?fn (\<lambda>_. None))) waits"
    and w: "snd (retryWithBackoff 5 ?fn (\<lambda>_. None)) = map (\<lambda>j. min (2 ^ j * second) (30 * second)) [0..<waits]"
    using retry_spec [of 5 ?fn "\<lambda>_. None"] by blast
  from e k have "waits = 5 \<and> fst (retryWithBackoff 5 ?fn (\<lambda>_. None)) = Inl (RetriesExhausted 5 (Some InstanceNotFound))"
    by (cases "k < 5") (simp_all add: retry_end_def)
  then show ?thesis using w by (simp add: second_def upt_rec)
qed

subsection \<open>The client\<close>

text \<open>
  \<open>tickers\<close> holds the interval of every heartbeat goroutine that runs.  The stop channel is
  closed exactly when \<open>cl_stopped\<close>.
\<close>

record registry_client =
  cl_serviceName :: string
  cl_instanceID :: string
  cl_lastRegisterReq :: "register_request option"
  cl_heartbeatInterval :: duration
  cl_registered :: bool
  cl_stopped :: bool
  tickers :: "duration list"

text \<open>The client parses its key with a copy of the gateway's functions.\<close>

definition client_normalizePEM :: "string \<Rightarrow> string" where
  "client_normalizePEM s =
     (if newline \<in> set s then s
      else
        (let t = TrimSpace (replace_marks ''END'' [newline] [] (replace_marks ''BEGIN'' [] [newline] s)) in
         case SplitN2 newline t of
           [header, rest] \<Rightarrow>
             (case SplitN2 newline rest of
                [body, footer] \<Rightarrow>
                  header @ [newline] @ replace_char CHR '' '' newline body @ [newline] @ footer @ [newline]
              | _ \<Rightarrow> t)
         | _ \<Rightarrow> t))"

definition client_parseRSAPrivateKey :: "('pub, 'priv) key_lib \<Rightarrow> string \<Rightarrow> string + 'priv" where
  "client_parseRSAPrivateKey kl pemStr =
     (case pem_Decode kl (client_normalizePEM pemStr) of
        None \<Rightarrow> Inl ''failed to decode PEM block''
      | Some block \<Rightarrow>
          (case ParsePKCS8PrivateKey kl block of
             Inr (RSAKey k) \<Rightarrow> Inr k
           | Inr OtherKey \<Rightarrow> Inl ''not an RSA private key''
           | Inl err \<Rightarrow> ParsePKCS1PrivateKey kl block))"

lemma client_parse_eq: "client_parseRSAPrivateKey kl s = parseRSAPrivateKey kl s"
  by (simp add: client_parseRSAPrivateKey_def parseRSAPrivateKey_def client_normalizePEM_def normalizePEM_def)

definition NewRegistryClient ::
    "('pub, 'priv) key_lib \<Rightarrow> string \<Rightarrow> string \<Rightarrow> string + ('priv \<times> registry_client)" where
  "NewRegistryClient keys privateKeyPEM serviceName =
     (case client_parseRSAPrivateKey keys privateKeyPEM of
        Inl err \<Rightarrow> Inl (''failed to parse private key: '' @ err)
      | Inr priv \<Rightarrow>
          Inr (priv, \<lparr>cl_serviceName = serviceName, cl_instanceID = [], cl_lastRegisterReq = None,
                     cl_heartbeatInterval = 0, cl_registered = False, cl_stopped = False, tickers = []\<rparr>))"

text \<open>The first critical section of \<^verbatim>\<open>Register\<close>, and the second, shared with \<^verbatim>\<open>reregister\<close>.\<close>

definition register_begin ::
    "registry_client \<Rightarrow> register_request \<Rightarrow> client_error + registry_client" where
  "register_begin c req =
     (if cl_registered c then Inl (ClientError ''already registered, call Shutdown first'')
      else Inr (c\<lparr>cl_lastRegisterReq := Some req\<rparr>))"

definition take_response :: "registry_client \<Rightarrow> register_response \<Rightarrow> registry_client" where
  "take_response c resp =
     c\<lparr>cl_instanceID := InstanceID resp,
       cl_heartbeatInterval := wrap64 (HeartbeatInterval resp * second)\<rparr>"

text \<open>\<^verbatim>\<open>time.NewTicker\<close> panics on an interval that is not positive.\<close>

definition startHeartbeat :: "registry_client \<Rightarrow> registry_client outcome" where
  "startHeartbeat c =
     (let interval = (if cl_heartbeatInterval c = 0 then 10 * second else cl_heartbeatInterval c) in
      if interval \<le> 0 then Panic else Ret (c\<lparr>tickers := interval # tickers c\<rparr>))"

text \<open>The rest of \<^verbatim>\<open>Register\<close>, given what the attempts answer.\<close>

definition register_finish ::
    "registry_client \<Rightarrow> (nat \<Rightarrow> client_error + register_response) \<Rightarrow> (nat \<Rightarrow> string option) \<Rightarrow>
     (registry_client \<times> (client_error + register_response)) outcome" where
  "register_finish c fn ctx =
     (case fst (retryWithBackoff 5 fn ctx) of
        Inl err \<Rightarrow> Ret (c, Inl err)
      | Inr resp \<Rightarrow>
          bind_outcome (startHeartbeat ((take_response c resp)\<lparr>cl_registered := True\<rparr>))
            (\<lambda>c'. Ret (c', Inr resp)))"

definition client_Register ::
    "registry_client \<Rightarrow> register_request \<Rightarrow> (nat \<Rightarrow> client_error + register_response) \<Rightarrow>
     (nat \<Rightarrow> string option) \<Rightarrow> (registry_client \<times> (client_error + register_response)) outcome" where
  "client_Register c req fn ctx =
     (case register_begin c req of
        Inl err \<Rightarrow> Ret (c, Inl err)
      | Inr c' \<Rightarrow> register_finish c' fn ctx)"

definition reregister ::
    "registry_client \<Rightarrow> (nat \<Rightarrow> client_error + register_response) \<Rightarrow> (nat \<Rightarrow> string option) \<Rightarrow>
     registry_client \<times> client_error option" where
  "reregister c fn ctx =
     (case fst (retryWithBackoff 5 fn ctx) of
        Inl err \<Rightarrow> (c, Some err)
      | Inr resp \<Rightarrow> (take_response c resp, None))"

text \<open>One tick of a heartbeat goroutine, given the result of its \<^verbatim>\<open>sendHeartbeat\<close>.\<close>

definition heartbeat_tick ::
    "registry_client \<Rightarrow> client_error option \<Rightarrow> (nat \<Rightarrow> client_error + register_response) \<Rightarrow>
     (nat \<Rightarrow> string option) \<Rightarrow> registry_client" where
  "heartbeat_tick c beat fn ctx =
     (case beat of
        None \<Rightarrow> c
      | Some err \<Rightarrow> if err = InstanceNotFound then fst (reregister c fn ctx) else c)"

text \<open>
  \<open>joined\<close>: the heartbeats ended before the context did.  \<open>dereg\<close> is the result of the
  \<^verbatim>\<open>Deregister\<close> that follows.
\<close>

definition client_Shutdown ::
    "registry_client \<Rightarrow> bool \<Rightarrow> client_error option \<Rightarrow> registry_client \<times> client_error option" where
  "client_Shutdown c joined dereg =
     (if cl_stopped c then (c, None)
      else if joined then (c\<lparr>cl_stopped := True, tickers := []\<rparr>, dereg)
      else (c\<lparr>cl_stopped := True\<rparr>,
            Some (ClientError ''shutdown timed out waiting for heartbeat to stop'')))"

text \<open>
  The client under any number of callers: a call of \<^verbatim>\<open>Register\<close> is two steps with the network
  exchange in between, and \<open>calls\<close> counts those between their two halves.
\<close>

record client_sys =
  this_client :: registry_client
  in_flight :: nat

inductive client_step :: "client_sys \<Rightarrow> client_sys \<Rightarrow> bool" where
  client_begin: "register_begin (this_client s) req = Inr c \<Longrightarrow>
    client_step s (s\<lparr>this_client := c, in_flight := Suc (in_flight s)\<rparr>)"
| client_finish: "in_flight s = Suc n \<Longrightarrow> register_finish (this_client s) fn ctx = Ret (c, res) \<Longrightarrow>
    client_step s (s\<lparr>this_client := c, in_flight := n\<rparr>)"
| client_tick: "tickers (this_client s) \<noteq> [] \<Longrightarrow>
    client_step s (s\<lparr>this_client := heartbeat_tick (this_client s) beat fn ctx\<rparr>)"
| client_ended: "cl_stopped (this_client s) \<Longrightarrow> tickers (this_client s) = xs @ t # ys \<Longrightarrow>
    client_step s (s\<lparr>this_client := (this_client s)\<lparr>tickers := xs @ ys\<rparr>\<rparr>)"
| client_stop: "client_step s (s\<lparr>this_client := fst (client_Shutdown (this_client s) joined dereg)\<rparr>)"

inductive_cases client_stepE: "client_step s t"

subsection \<open>A client registers once\<close>

lemma client_step_spent:
  assumes "client_step s t" and "cl_registered (this_client s)" and "in_flight s = 0"
  shows "cl_registered (this_client t) \<and> in_flight t = 0 \<and> set (tickers (this_client t)) \<subseteq> set (tickers (this_client s))"
  using assms
  by (elim client_stepE)
     (auto simp: register_begin_def heartbeat_tick_def reregister_def take_response_def client_Shutdown_def
        split: option.splits sum.splits if_splits)

text \<open>
  Once registered and with no call under way, the client stays registered in its own eyes
  for good, through re-registrations, failures and \<^verbatim>\<open>Shutdown\<close>: every later \<^verbatim>\<open>Register\<close> is refused
  with the advice to call \<^verbatim>\<open>Shutdown\<close> first, and no heartbeat loop is ever started again.
\<close>

lemma registered_for_good:
  assumes "client_step\<^sup>*\<^sup>* s t" and "cl_registered (this_client s)" and "in_flight s = 0"
  shows "client_Register (this_client t) req fn ctx =
           Ret (this_client t, Inl (ClientError ''already registered, call Shutdown first'')) \<and>
         set (tickers (this_client t)) \<subseteq> set (tickers (this_client s))"
proof -
  have "cl_registered (this_client t) \<and> in_flight t = 0 \<and> set (tickers (this_client t)) \<subseteq> set (tickers (this_client s))"
    using assms(1)
  proof (induction rule: rtranclp_induct)
    case base
    then show ?case using assms(2,3) by simp
  next
    case (step t u)
    then show ?case using client_step_spent [of t u] by blast
  qed
  then show ?thesis by (simp add: client_Register_def register_begin_def)
qed

definition sample_registry_client :: registry_client where
  "sample_registry_client =
     \<lparr>cl_serviceName = ''svc-a'', cl_instanceID = ''id-a'', cl_lastRegisterReq = Some (sample_request ''svc-a''),
      cl_heartbeatInterval = 30 * second, cl_registered = True, cl_stopped = False,
      tickers = [30 * second]\<rparr>"

lemma sample_registry_client_registered:
  "client_Register (sample_registry_client\<lparr>cl_registered := False, cl_instanceID := [], cl_heartbeatInterval := 0,
       cl_lastRegisterReq := None, tickers := []\<rparr>) (sample_request ''svc-a'')
     (\<lambda>_. Inr \<lparr>InstanceID = ''id-a'', HeartbeatInterval = 30, HeartbeatURL = [], RegisteredRoutes = []\<rparr>)
     (\<lambda>_. None) =
   Ret (sample_registry_client, Inr \<lparr>InstanceID = ''id-a'', HeartbeatInterval = 30, HeartbeatURL = [], RegisteredRoutes = []\<rparr>)"
  by (simp add: client_Register_def register_begin_def register_finish_def retryWithBackoff_def
      retry_loop.simps [of _ _ _ 0] startHeartbeat_def take_response_def sample_registry_client_def wrap64_def second_def)

end
