(* ===== verification/Spec2Isabelle.thy ===== *)
theory Spec2Isabelle
  imports Registry_Props Routing Gateway_Log Program Client
begin

text \<open>
  \<^bold>\<open>gotway\<close> is an API gateway in Go.  Backends register themselves and their routes over an
  internal HTTP API and keep themselves alive with heartbeats; the gateway matches every other
  request against the registered routes, authenticates it, picks a healthy instance and forwards
  it with an internal token.  This library is a model of the program in HOL and the theorems that
  make it correct.

  \<^bold>\<open>How the parts interact.\<close>  \<^verbatim>\<open>cmd/api/main.go\<close> loads the configuration, builds the server
  (\<^verbatim>\<open>internal/infrastructure/http/server.go\<close>) and shuts it down on a signal.  The server owns one
  registry (\<^verbatim>\<open>internal/application\<close>), whose cleanup goroutine removes silent instances, one token
  service, at most one rate limiter, one span exporter with its goroutine, and one round-robin
  balancer.  A request runs through recovery, logger, trace, request id, CORS and rate limit and
  then reaches a health handler, a handler of the internal API (behind the service authentication)
  or the proxy.  Backends use the SDKs of \<^verbatim>\<open>pkg/auth\<close> (validate and issue tokens) and \<^verbatim>\<open>pkg/client\<close>
  (register, send heartbeats, retry).

  \<^bold>\<open>Theories and the code they model.\<close>

  \<^item> \<open>Prelude\<close>: times and durations (Go's \<^verbatim>\<open>int64\<close> nanoseconds), truncated division, the
    \<open>outcome\<close> of code that may panic, map iteration orders, the locales \<open>invariant_system\<close> and
    \<open>simulation\<close>.  \<open>Go_Strings\<close>: the functions of \<^verbatim>\<open>strings\<close> and \<^verbatim>\<open>strconv\<close> the program calls.
    \<open>Float64\<close>: the rounding of 64-bit floats, and \<^verbatim>\<open>int(d.Seconds())\<close> of \<^verbatim>\<open>registration.go\<close>.
  \<^item> \<open>Domain\<close>: \<^verbatim>\<open>internal/domain\<close> without the tokens.  \<open>Paths\<close>: \<^verbatim>\<open>normalizePath\<close> and \<^verbatim>\<open>pathsOverlap\<close>
    of \<^verbatim>\<open>collision.go\<close>.
  \<^item> \<open>Registry\<close>: every operation of \<^verbatim>\<open>internal/application\<close> but the balancer.  \<open>Registry_Inv\<close>: the
    invariant \<open>reg_inv\<close> and its preservation by each operation.  \<open>Registry_Spec\<close>: the abstract
    registry, in which a service owns its routes exactly as long as it has a live instance.
    \<open>Registry_Machine\<close>: three step relations -- \<open>reg_step\<close> with atomic registrations, \<open>maint_step\<close>
    for everything else, \<open>sys_step\<close> in which the check and the commit of a registration are
    separate critical sections, as in the code.  \<open>Registry_Safety\<close>: their properties.
    \<open>Registry_Props\<close>: what each operation answers and leaves behind, with the conflicts of a
    registration stated independently of the loops of \<^verbatim>\<open>collision.go\<close>.
  \<^item> \<open>LoadBalancer\<close>: \<^verbatim>\<open>loadbalancer.go\<close>, the counter kept as a 64-bit word.  \<open>Matcher\<close>:
    \<^verbatim>\<open>proxy/matcher.go\<close> against a segmentwise reference.  \<open>Routing\<close>: registration and matching
    together, with the invariant of strict pattern matching.
  \<^item> \<open>RateLimit\<close>: \<^verbatim>\<open>ratelimit/limiter.go\<close>, both limiters behind the locale \<open>rate_limiter\<close>, and the
    reference limiter that keeps the whole history.
  \<^item> \<open>Http\<close>: gin's context as a record, and a handler as a function to the list of its calls on it.
    \<open>Middleware\<close>: \<^verbatim>\<open>auth.go\<close>, \<^verbatim>\<open>service_auth.go\<close>, \<^verbatim>\<open>cors.go\<close>, \<^verbatim>\<open>ratelimit.go\<close>, \<^verbatim>\<open>requestid.go\<close>.
    \<open>Handlers\<close>: \<^verbatim>\<open>handler/registry.go\<close>, \<^verbatim>\<open>handler/health.go\<close>.  \<open>Proxy\<close>: \<^verbatim>\<open>proxy/proxy.go\<close>, up to how
    the exchange with the upstream ends (\<open>upstream_answer\<close>, \<open>ServeHTTP\<close>).
  \<^item> \<open>Token\<close>: \<^verbatim>\<open>domain/token.go\<close> and the interface of the token library with its laws \<open>jwt_laws\<close>.
    \<open>Jwt\<close>: the token service \<^verbatim>\<open>jwt/jwt.go\<close> and the SDK \<^verbatim>\<open>pkg/auth\<close>.  \<open>Jwt_Props\<close>: round trips and the
    relay of an identity along a chain of services.
  \<^item> \<open>Trace\<close>: \<^verbatim>\<open>trace_w3c.go\<close> and the hexadecimal identifiers.  \<open>Tracing\<close>: \<^verbatim>\<open>trace.go\<close>, the protocol
    buffer values and the batching goroutine of \<^verbatim>\<open>tracing/otlp.go\<close>.  \<open>Otlp\<close>: its \<^verbatim>\<open>flush\<close>.
    \<open>Logging\<close>: \<^verbatim>\<open>logger.go\<close>, the line of \<^verbatim>\<open>recovery.go\<close>, the log handler of \<^verbatim>\<open>main.go\<close>.
  \<^item> \<open>Server\<close>: \<^verbatim>\<open>config.go\<close>, \<^verbatim>\<open>NewServer\<close>, \<^verbatim>\<open>Run\<close>, \<^verbatim>\<open>Shutdown\<close>, \<^verbatim>\<open>redis/client.go\<close>.  \<open>Gateway\<close>: the chain
    of \<^verbatim>\<open>setupRouter\<close> for one request (\<open>serve\<close>), its span and its log line.  \<open>Gateway_Props\<close>,
    \<open>Gateway_Log\<close>: what holds of one request.  \<open>Gateway_Machine\<close>: the server as a state machine
    (\<open>server_step\<close>).  \<open>Gateway_Spans\<close>: what reaches the collector.  \<open>Program\<close>: \<^verbatim>\<open>main\<close>, with the
    lines it and the goroutine of \<^verbatim>\<open>Run\<close> log and the exit status.
  \<^item> \<open>Client\<close>: \<^verbatim>\<open>pkg/client\<close>, with the retry loop and the heartbeat goroutine.  The present theory puts
    client and gateway together.

  \<^bold>\<open>What the theorems show.\<close>  The registry keeps its three maps consistent under every
  interleaving, refines its specification when registrations are atomic, and does not when they
  are not.  Matching computes its reference and routing is deterministic under the strict option.
  A request that gin does not redirect is answered once and leaves one span and one log line that
  name each other -- unless the body of the upstream breaks off, which is the one panic --, changes the
  registry only through the guarded API, and is forwarded only to a healthy instance of the route it
  matches and only after authorisation.  Tokens survive their round trips and relays; the limiters
  enforce their windows; the exporter loses, repeats and reorders nothing it accepted, and its
  shutdown ends in every run; the client's retries end and a removed client comes back; the program's exit status.  Where the
  code does not do what it means to, the theorem states what it does.

  \<^bold>\<open>Conventions.\<close>
  \<^item> Times and durations are integers of nanoseconds; \<^verbatim>\<open>time.Time.Sub\<close> saturates (\<open>time_sub\<close>) and the
    arithmetic on durations wraps (\<open>wrap64\<close>), as in Go.
  \<^item> The order in which \<^verbatim>\<open>range\<close> visits a map is an argument, a list of keys; \<open>range_order\<close> says that it
    visits each key once.  Results are stated for every such order.
  \<^item> Clock readings, random bytes, fresh identifiers, decoded request bodies and answers of the
    network are arguments.  So are the packages the code imports: the token library, the PEM and
    X.509 parsers, Redis, the JSON and protocol buffer encoders, \<^verbatim>\<open>envconfig\<close>.  What the code
    relies on in them is a named hypothesis (\<open>jwt_laws\<close>, \<open>counts_members\<close>, \<open>sorted_set_laws\<close>), with
    an instance that satisfies it.
  \<^item> Go's pointers to instances are values here: the registry never hands out a pointer that the
    caller changes.
  \<^item> Errors are values of sums, panics are \<open>Panic\<close>.  Loops are structural recursions; the two others,
    the retry loop and the drain loop, are total functions by the number of attempts left and
    the length of the channel.  No fuel is used.  The bounds are those of the code: a channel
    of 1024 spans, batches of 64, five registration attempts.
  \<^item> In \<open>server_step\<close> a request is atomic on the registry, apart from the proxy, which reads the
    healthy instances in a later state (\<open>later_registry\<close>).  The interleaving of concurrent
    registrations is the subject of \<open>sys_step\<close>.

  \<^bold>\<open>Not modelled.\<close>  gin's router beyond the route table and its trailing-slash redirect, which is
  an argument; \<^verbatim>\<open>httputil.ReverseProxy\<close> beyond the director, X-Forwarded-For, the error handler and
  the abort on a broken body; the transport of HTTP, whose outcome is an argument; the data race on the maps of the in-memory limiter, which has no mutex; the wait of the
  exporter's \<^verbatim>\<open>Shutdown\<close> for its goroutine, which only decides whether an error is logged; the
  log lines other than those of the logger, the recovery and \<^verbatim>\<open>main\<close>; the numbers of a token as
  floats, and its nil scopes as null, which reads back as the empty list; \<^verbatim>\<open>domain/repository.go\<close> and
  \<^verbatim>\<open>observability\<close>, interfaces that no other code uses; the tests and the image.

  \<^bold>\<open>Left open.\<close>  Concurrent requests in \<open>server_step\<close> (a registration as two steps there too), fairness of
  the exporter's ticker, and the Redis limiter under concurrent callers.
\<close>

section \<open>The client and the gateway together\<close>

text \<open>
  What the client sees of a handler's calls: the status and the rendered body.  \<open>encode\<close> is
  \<^verbatim>\<open>json.Marshal\<close>.
\<close>

fun reply_of :: "(json \<Rightarrow> string) \<Rightarrow> gin_call list \<Rightarrow> http_reply" where
  "reply_of encode [] = Reply 200 []"
| "reply_of encode (JSON n b # calls) = Reply n (encode b)"
| "reply_of encode (AbortWithStatusJSON n b # calls) = Reply n (encode b)"
| "reply_of encode (AbortWithStatus n # calls) = Reply n []"
| "reply_of encode (call # calls) = reply_of encode calls"

subsection \<open>Heartbeats and expiry\<close>

text \<open>The interval the client derives from a TTL.\<close>

lemma interval_of_ttl:
  assumes "0 < d" and "d < 2 ^ 62" and "HeartbeatInterval resp = int_Seconds d"
  shows "second dvd d \<Longrightarrow> cl_heartbeatInterval (take_response c resp) = d"
    and "d < second \<Longrightarrow> cl_heartbeatInterval (take_response c resp) = 0"
proof -
  show "cl_heartbeatInterval (take_response c resp) = d" if whole: "second dvd d"
  proof -
    have "int_Seconds d * second = d" using int_Seconds_whole whole assms(1,2) by simp
    moreover have "wrap64 d = d" using assms(1,2) by (intro wrap64_id) (simp add: in_int64_def)
    ultimately show ?thesis by (simp add: take_response_def assms(3))
  qed
  show "cl_heartbeatInterval (take_response c resp) = 0" if "d < second"
    using int_Seconds_small [of d] that assms(1) by (simp add: take_response_def assms(3) wrap64_def)
qed

lemma sent_interval:
  assumes "Register r req ord x now = (r', Inr resp)"
  shows "HeartbeatInterval resp = int_Seconds (HeartbeatTTL (config r)) \<and> config r' = config r \<and>
    (\<exists>req'. instances r' x = Some (new_instance req' x now))"
  using assms by (elim Register_ok) auto

text \<open>
  C32. The heartbeat interval has no slack.  The gateway hands out its TTL, in whole seconds, as
  the interval at which the client sends heartbeats.  A cleanup one nanosecond after the first
  heartbeat was due marks the instance unhealthy, and a later heartbeat does not undo it.  A
  TTL below one second is handed out as zero, which the client takes for its default of ten
  seconds: its instance is removed before its first heartbeat.
\<close>

theorem heartbeat_interval_no_slack:
  assumes inv: "reg_inv r" "instances r x = None" and reg: "Register r req ord x now = (r', Inr resp)"
    and ttl: "HeartbeatTTL (config r) = d" "0 < d" "d < 2 ^ 62"
    and orders: "range_order ks (instances r')" "routes_orders r' ord'"
    and started: "startHeartbeat (take_response c resp) = Ret c'"
  shows "(second dvd d \<longrightarrow> hd (tickers c') = d \<and>
      (\<exists>i. instances (cleanup r' (now + d + 1) ks ord') x = Some i \<and> si_Status i = StatusUnhealthy)) \<and>
    (d < second \<longrightarrow> hd (tickers c') = 10 * second \<and> 2 * d + 1 < 10 * second \<and>
      instances (cleanup r' (now + 2 * d + 1) ks ord') x = None)"
proof -
  from sent_interval [OF reg] ttl(1) obtain req' where
    sent: "HeartbeatInterval resp = int_Seconds d" and cfg: "config r' = config r"
    and new: "instances r' x = Some (new_instance req' x now)" by blast
  note interval = interval_of_ttl [OF ttl(2,3) sent, of c]
  have "reg_inv r'" using reg_inv_Register [OF inv, of req ord now] reg by simp
  note clean = cleanup_instances [OF this orders]
  have after: "instances (cleanup r' t ks ord') x = after_cleanup t d (new_instance req' x now)" for t
    using clean [of t x] ttl cfg new by simp
  have "hd (tickers c') = d" if "second dvd d"
    using started interval(1) [OF that] ttl(2) by (auto simp: startHeartbeat_def Let_def split: if_splits)
  moreover have "hd (tickers c') = 10 * second" if "d < second"
    using started interval(2) [OF that] by (auto simp: startHeartbeat_def Let_def split: if_splits)
  ultimately show ?thesis
    using ttl(2) by (auto simp: after after_cleanup_def second_def)
qed

theorem heartbeat_interval_no_slack_witness:
  "\<exists>i. instances (cleanup (sample_registry (sample_config (30 * second))) (30 * second + 1) [''id-a'']
        (\<lambda>_. [sample_key])) ''id-a'' = Some i \<and> si_Status i = StatusUnhealthy"
proof -
  let ?cfg = "sample_config (30 * second)"
  let ?resp = "snd (Register_commit (NewRegistry ?cfg) (sample_request ''svc-a'') ''id-a'' 0)"
  have reg: "Register (NewRegistry ?cfg) (sample_request ''svc-a'') (\<lambda>_. []) ''id-a'' 0 =
      (sample_registry ?cfg, Inr ?resp)"
    by (simp add: Register_def Register_check_fresh sample_request_valid sample_registry_def case_prod_beta)
  have fresh: "instances (NewRegistry ?cfg) ''id-a'' = None" by (simp add: NewRegistry_def)
  have ttl: "HeartbeatTTL (config (NewRegistry ?cfg)) = 30 * second" "0 < 30 * second" "30 * second < 2 ^ 62"
    by (simp_all add: NewRegistry_def sample_config_def second_def)
  have "HeartbeatInterval ?resp = int_Seconds (30 * second)" using ttl(1) by simp
  note interval = interval_of_ttl [OF ttl(2,3) this, of sample_registry_client]
  then obtain c' where "startHeartbeat (take_response sample_registry_client ?resp) = Ret c'"
    by (simp add: startHeartbeat_def second_def)
  from heartbeat_interval_no_slack [OF reg_inv_NewRegistry fresh reg ttl sample_orders this]
  show ?thesis by simp
qed

subsection \<open>A client whose instance was removed\<close>

lemma reply_of_heartbeat:
  "instances r x = None \<Longrightarrow> \<exists>b. reply_of encode (snd (handle_Heartbeat (Inr x) r now)) = Reply 404 b"
  "instances r x \<noteq> None \<Longrightarrow> \<exists>b. reply_of encode (snd (handle_Heartbeat (Inr x) r now)) = Reply 200 b"
  by (auto simp: handle_Heartbeat_def Heartbeat_def)

lemma retry_at_once: "fn 0 = Inr v \<Longrightarrow> retryWithBackoff n fn ctx = (Inr v, [])"
  by (simp add: retryWithBackoff_def retry_loop.simps [of n fn ctx 0])

text \<open>
  C19. A client whose instance the gateway has removed is back after its next heartbeat.  The
  heartbeat is answered with 404, the client registers its last request again, and if no route
  was taken in the meantime its new instance is in rotation, its routes are its own again, and
  the next heartbeat, sent for the new instance id, is answered with 200.  The running ticker
  keeps its interval, whatever the gateway now asks for.
\<close>

theorem client_survives_cleanup:
  assumes inv: "reg_inv r" and gone: "instances r (cl_instanceID c) = None" "cl_instanceID c \<noteq> []"
    and beat: "beat = sendHeartbeat (cl_instanceID c) None (Inr tok)
      (reply_of encode (snd (handle_Heartbeat (Inr (cl_instanceID c)) r now)))"
    and last: "cl_lastRegisterReq c = Some req" and fresh: "instances r y = None" "y \<noteq> []"
    and own: "ctx_Keys ctx ''service_name'' = Some (VString (rr_ServiceName req))"
    and free: "Register r req ord y now = (r2, Inr resp)"
    and sent: "fn 0 = doRegister dec None (Inr tok2) (reply_of encode (snd (handle_Register cd ctx (Inr req) r ord y now)))"
    and decoded: "decode_response dec (encode (response_json resp)) = Inr resp"
    and c2: "c2 = heartbeat_tick c beat fn ends"
  shows "cl_instanceID c2 = y \<and> tickers c2 = tickers c \<and> cl_registered c2 = cl_registered c \<and>
    (\<exists>i \<in> set (GetHealthyInstances r2 (rr_ServiceName req)). si_ID i = y) \<and>
    (\<forall>rt \<in> set (rr_Routes req). \<exists>entry. routes r2 (Method rt @ '':'' @ FullPath rt (rr_BasePath req)) = Some entry \<and>
       re_ServiceName entry = rr_ServiceName req) \<and>
    sendHeartbeat y None (Inr tok) (reply_of encode (snd (handle_Heartbeat (Inr y) r2 later))) = None"
proof -
  obtain b where "reply_of encode (snd (handle_Heartbeat (Inr (cl_instanceID c)) r now)) = Reply 404 b"
    using reply_of_heartbeat(1) [OF gone(1)] by blast
  then have beat404: "beat = Some InstanceNotFound" using gone(2) by (simp add: beat sendHeartbeat_def)
  have "snd (handle_Register cd ctx (Inr req) r ord y now) = [JSON 201 (response_json resp)]"
    by (simp add: handle_Register_def own free)
  then have "fn 0 = Inr resp" using decoded by (simp add: sent doRegister_def)
  then have tick: "c2 = take_response c resp"
    by (simp add: c2 heartbeat_tick_def beat404 reregister_def retry_at_once)
  from free obtain req' where ok: "Register_check r req ord = Inr req'"
    and r2: "r2 = fst (Register_commit r req' y now)" and resp: "resp = snd (Register_commit r req' y now)"
    by (rule Register_ok)
  note same = Validate_same_request [OF Register_check_ok(1) [OF ok]]
  have "\<exists>i \<in> set (GetHealthyInstances r2 (rr_ServiceName req)). si_ID i = y"
    using after_commit_healthy [OF inv fresh(1), of req' now] same
    by (intro bexI [of _ "new_instance req' y now"]) (simp_all add: r2)
  moreover have "\<exists>entry. routes r2 (Method rt @ '':'' @ FullPath rt (rr_BasePath req)) = Some entry \<and>
      re_ServiceName entry = rr_ServiceName req" if "rt \<in> set (rr_Routes req)" for rt
    using accepted_registration [OF inv fresh(1) free that] by (metis route_entry.select_convs(1))
  moreover have "instances r2 y \<noteq> None" by (simp add: r2)
  then obtain b2 where "reply_of encode (snd (handle_Heartbeat (Inr y) r2 later)) = Reply 200 b2"
    using reply_of_heartbeat(2) by blast
  then have "sendHeartbeat y None (Inr tok) (reply_of encode (snd (handle_Heartbeat (Inr y) r2 later))) = None"
    using fresh(2) by (simp add: sendHeartbeat_def)
  ultimately show ?thesis by (auto simp: tick take_response_def resp)
qed

theorem client_survives_cleanup_witness:
  "\<exists>c2. c2 = heartbeat_tick sample_registry_client
        (sendHeartbeat ''id-a'' None (Inr ''tok'')
           (reply_of (\<lambda>_. ''{}'') (snd (handle_Heartbeat (Inr ''id-a'') (NewRegistry (sample_config 30)) 9))))
        (\<lambda>_. Inr (snd (Register_commit (NewRegistry (sample_config 30)) (sample_request ''svc-a'') ''id-b'' 9))) (\<lambda>_. None) \<and>
     cl_instanceID c2 = ''id-b''"
proof -
  let ?r = "NewRegistry (sample_config 30)" and ?c = sample_registry_client and ?req = "sample_request ''svc-a''"
  let ?resp = "snd (Register_commit ?r ?req ''id-b'' 9)" and ?r2 = "fst (Register_commit ?r ?req ''id-b'' 9)"
  let ?dec = "\<lparr>decode_collisions = \<lambda>_. Inl [], decode_response = \<lambda>_. Inr ?resp\<rparr> :: decoder"
  let ?cd = "\<lparr>time_text = \<lambda>_. [], metadata_json = \<lambda>_. JNull\<rparr> :: codec"
  let ?ctx = "(sample_get ''POST'' ''/internal/registry/register'' Map.empty)
      \<lparr>ctx_Keys := [''service_name'' \<mapsto> VString ''svc-a'']\<rparr>"
  have gone: "instances ?r (cl_instanceID ?c) = None" "cl_instanceID ?c \<noteq> []"
    by (simp_all add: NewRegistry_def sample_registry_client_def)
  have last: "cl_lastRegisterReq ?c = Some ?req" by (simp add: sample_registry_client_def)
  have fresh: "instances ?r ''id-b'' = None" "''id-b'' \<noteq> []" by (simp_all add: NewRegistry_def)
  have own: "ctx_Keys ?ctx ''service_name'' = Some (VString (rr_ServiceName ?req))" by simp
  have free: "Register ?r ?req (\<lambda>_. []) ''id-b'' 9 = (?r2, Inr ?resp)"
    by (simp add: Register_def Register_check_fresh sample_request_valid case_prod_beta)
  have dec: "decode_response ?dec ((\<lambda>_. ''{}'') (response_json ?resp)) = Inr ?resp" by simp
  have "doRegister ?dec None (Inr ''tok'') (reply_of (\<lambda>_. ''{}'')
      (snd (handle_Register ?cd ?ctx (Inr ?req) ?r (\<lambda>_. []) ''id-b'' 9))) = Inr ?resp"
    by (simp add: handle_Register_def free doRegister_def)
  then have sent: "(\<lambda>_. Inr ?resp) 0 = doRegister ?dec None (Inr ''tok'') (reply_of (\<lambda>_. ''{}'')
      (snd (handle_Register ?cd ?ctx (Inr ?req) ?r (\<lambda>_. []) ''id-b'' 9)))" by simp
  from client_survives_cleanup [OF reg_inv_NewRegistry gone refl last fresh own free sent dec refl, of _ "\<lambda>_. None"]
  show ?thesis by (simp add: sample_registry_client_def)
qed

end
